(* ===== verification/Prelude.thy ===== *)
theory Prelude
  imports Main "HOL-Library.AList" "HOL-Library.Char_ord" "HOL-Library.List_Lexorder"
    "HOL-Library.Word"
begin

text \<open>
  What every component of the model shares: Go's maps, range loops and sorting, its 64-bit
  integers, its clock values, and the rules that lift a one-step fact to a loop or to all
  reachable states. Nothing here is specific to mayoiga.
\<close>

named_theorems go_simps \<open>characteristic equations of the Go primitives\<close>

section \<open>Machine integers and time\<close>

text \<open>Go's \<open>int\<close> and \<open>int64\<close> arithmetic wraps around at 64 bits.\<close>

definition int64 :: "int \<Rightarrow> int" where
  "int64 x = (x + 2 ^ 63) mod 2 ^ 64 - 2 ^ 63"

lemma int64_small [simp]: "- (2 ^ 63) \<le> x \<Longrightarrow> x < 2 ^ 63 \<Longrightarrow> int64 x = x"
  by (simp add: int64_def)

lemma int64_range: "- (2 ^ 63) \<le> int64 x \<and> int64 x < 2 ^ 63"
proof -
  have "0 \<le> (x + 2 ^ 63) mod 2 ^ 64" and "(x + 2 ^ 63) mod 2 ^ 64 < 2 ^ 64"
    by simp_all
  then show ?thesis unfolding int64_def by simp
qed

text \<open>
  A \<open>time.Time\<close> is the number of nanoseconds since Go's zero time (1 January of year 1), so
  that \<open>IsZero\<close> is equality with 0, and a \<open>time.Duration\<close> a number of nanoseconds.
  \<open>time.Unix\<close> adds the offset between the two epochs in 64-bit seconds; \<open>Sub\<close> saturates.
\<close>

type_synonym time = int
type_synonym duration = int

definition nsecond :: duration where "nsecond = 1000000000"
definition nminute :: duration where "nminute = 60 * nsecond"
definition nhour :: duration where "nhour = 60 * nminute"

definition unixTime :: "int \<Rightarrow> time" where
  "unixTime sec = int64 (sec + 62135596800) * nsecond"

definition timeSub :: "time \<Rightarrow> time \<Rightarrow> duration" where
  "timeSub t u = max (- (2 ^ 63)) (min (2 ^ 63 - 1) (t - u))"

lemmas time_units = nsecond_def nminute_def nhour_def

lemma timeSub_ge: "- (2 ^ 63) < d \<Longrightarrow> d < 2 ^ 63 \<Longrightarrow> d \<le> timeSub t u \<longleftrightarrow> d \<le> t - u"
  by (auto simp: timeSub_def)

section \<open>Maps\<close>

text \<open>
  A Go map is an association list with distinct keys (\<open>gomap_ok\<close>). The order of the list is a
  detail of the representation: a range loop asks the environment for the order in which it
  visits the keys.
\<close>

type_synonym ('k, 'v) gomap = "('k \<times> 'v) list"

definition gomap_ok :: "('k, 'v) gomap \<Rightarrow> bool" where
  "gomap_ok m \<longleftrightarrow> distinct (map fst m)"

definition mget :: "('k, 'v) gomap \<Rightarrow> 'k \<Rightarrow> 'v option" where
  "mget m k = map_of m k"

definition mput :: "'k \<Rightarrow> 'v \<Rightarrow> ('k, 'v) gomap \<Rightarrow> ('k, 'v) gomap" where
  "mput k v m = AList.update k v m"

definition mdel :: "'k \<Rightarrow> ('k, 'v) gomap \<Rightarrow> ('k, 'v) gomap" where
  "mdel k m = AList.delete k m"

text \<open>Reading a missing key gives the zero value \<open>z\<close> of the element type.\<close>

definition mgetz :: "'v \<Rightarrow> ('k, 'v) gomap \<Rightarrow> 'k \<Rightarrow> 'v" where
  "mgetz z m k = (case mget m k of None \<Rightarrow> z | Some v \<Rightarrow> v)"

text \<open>The contract the rest of the model relies on, as an interface.\<close>

locale map_interface =
  fixes get :: "'m \<Rightarrow> 'k \<Rightarrow> 'v option"
    and put :: "'k \<Rightarrow> 'v \<Rightarrow> 'm \<Rightarrow> 'm"
    and del :: "'k \<Rightarrow> 'm \<Rightarrow> 'm"
    and size_of :: "'m \<Rightarrow> nat"
    and ok :: "'m \<Rightarrow> bool"
  assumes get_put: "get (put k v m) j = (if j = k then Some v else get m j)"
    and get_del: "get (del k m) j = (if j = k then None else get m j)"
    and ok_put: "ok m \<Longrightarrow> ok (put k v m)"
    and ok_del: "ok m \<Longrightarrow> ok (del k m)"
    and size_dom: "ok m \<Longrightarrow> size_of m = card {k. \<exists>v. get m k = Some v}"
    and finite_dom: "finite {k. \<exists>v. get m k = Some v}"
begin

lemma size_put: "ok m \<Longrightarrow> size_of (put k v m) = (if get m k = None then Suc (size_of m) else size_of m)"
proof -
  assume ok: "ok m"
  have dom: "{j. \<exists>w. get (put k v m) j = Some w} = insert k {j. \<exists>w. get m j = Some w}"
    by (auto simp: get_put)
  show ?thesis
    unfolding size_dom [OF ok_put [OF ok]] dom
    by (auto simp: size_dom [OF ok] finite_dom card_insert_if)
qed

lemma size_del: "ok m \<Longrightarrow> size_of (del k m) = (if get m k = None then size_of m else size_of m - 1)"
proof -
  assume ok: "ok m"
  have dom: "{j. \<exists>w. get (del k m) j = Some w} = {j. \<exists>w. get m j = Some w} - {k}"
    by (auto simp: get_del)
  show ?thesis
    unfolding size_dom [OF ok_del [OF ok]] dom
    by (auto simp: size_dom [OF ok] finite_dom card_Diff_singleton_if)
qed

lemma size_put_le: "ok m \<Longrightarrow> size_of (put k v m) \<le> Suc (size_of m)"
  by (simp add: size_put)

lemma size_del_le: "ok m \<Longrightarrow> size_of (del k m) \<le> size_of m"
  by (simp add: size_del)

end

lemma gomap_ok_Nil [simp]: "gomap_ok []"
  by (simp add: gomap_ok_def)

lemma mget_Nil [simp]: "mget [] k = None"
  by (simp add: mget_def)

lemma mget_dom: "{k. \<exists>v. mget m k = Some v} = fst ` set m"
  by (auto simp: mget_def) (metis domI dom_map_of_conv_image_fst fst_conv imageI domD)+

interpretation gomap: map_interface mget mput mdel length gomap_ok
proof (unfold_locales, goal_cases)
  case (5 m)
  then show ?case
    by (metis mget_dom gomap_ok_def distinct_card length_map set_map)
qed (auto simp: mget_def mput_def mdel_def gomap_ok_def update_conv' delete_conv'
    distinct_update distinct_delete finite_dom_map_of [unfolded dom_def, simplified])

lemmas [simp] = gomap.get_put gomap.get_del gomap.ok_put gomap.ok_del
lemmas gomap_size = gomap.size_put gomap.size_del

lemma mget_Some_iff: "gomap_ok m \<Longrightarrow> mget m k = Some v \<longleftrightarrow> (k, v) \<in> set m"
  by (simp add: mget_def gomap_ok_def)

lemma mget_in_set: "mget m k = Some v \<Longrightarrow> (k, v) \<in> set m"
  by (simp add: mget_def map_of_SomeD)

lemma mget_Cons [go_simps]: "mget ((k, v) # m) j = (if j = k then Some v else mget m j)"
  by (auto simp: mget_def)

lemma mput_Nil [go_simps]: "mput k v [] = [(k, v)]"
  by (simp add: mput_def)

lemma mput_Cons [go_simps]:
  "mput k v ((j, w) # m) = (if j = k then (k, v) # m else (j, w) # mput k v m)"
  by (simp add: mput_def)

lemma mdel_Nil [go_simps]: "mdel k [] = []"
  by (simp add: mdel_def)

lemma mdel_Cons [go_simps]: "mdel k ((j, w) # m) = (if j = k then mdel k m else (j, w) # mdel k m)"
  by (simp add: mdel_def AList.delete_eq)

text \<open>How many entries a range loop counts that tests each value.\<close>

definition mcount :: "('v \<Rightarrow> bool) \<Rightarrow> ('k, 'v) gomap \<Rightarrow> nat" where
  "mcount P m = length (filter (\<lambda>(_, v). P v) m)"

lemma mcount_Nil [simp]: "mcount P [] = 0"
  by (simp add: mcount_def)

lemma mcount_True: "length m = mcount (\<lambda>_. True) m"
  by (simp add: mcount_def)

lemma mcount_card:
  assumes "gomap_ok m"
  shows "mcount P m = card {k. \<exists>v. mget m k = Some v \<and> P v}"
proof -
  let ?f = "filter (\<lambda>(_, v). P v) m"
  have "distinct (map fst ?f)"
    using assms by (simp add: gomap_ok_def distinct_map_filter)
  moreover have "set (map fst ?f) = {k. \<exists>v. mget m k = Some v \<and> P v}"
    using assms by (force simp: mget_Some_iff)
  ultimately show ?thesis
    unfolding mcount_def by (metis distinct_card length_map)
qed

lemma finite_mcount: "finite {k. \<exists>v. mget m k = Some v \<and> P v}"
  by (rule finite_subset [OF _ gomap.finite_dom [of m]]) auto

lemma mcount_mono:
  assumes "gomap_ok m" and "gomap_ok m'"
    and "\<And>k v. mget m' k = Some v \<Longrightarrow> P v \<Longrightarrow> \<exists>w. mget m k = Some w \<and> P w"
  shows "mcount P m' \<le> mcount P m"
  unfolding mcount_card [OF assms(1)] mcount_card [OF assms(2)]
  by (rule card_mono [OF finite_mcount]) (use assms(3) in blast)

lemma mcount_put:
  assumes "gomap_ok m"
  shows "mcount P (mput k v m) \<le> (if P v then Suc (mcount P m) else mcount P m)"
proof -
  let ?K = "\<lambda>m. {k. \<exists>v. mget m k = Some v \<and> P v}"
  have "?K (mput k v m) \<subseteq> (if P v then insert k (?K m) else ?K m)"
    by (auto split: if_splits)
  then have "card (?K (mput k v m)) \<le> card (if P v then insert k (?K m) else ?K m)"
    by (rule card_mono [rotated]) (simp add: finite_mcount)
  also have "\<dots> \<le> (if P v then Suc (card (?K m)) else card (?K m))"
    by (simp add: card_insert_le_m1 card_insert_if finite_mcount)
  finally show ?thesis
    unfolding mcount_card [OF assms] mcount_card [OF gomap.ok_put [OF assms]] .
qed

lemma mcount_del: "gomap_ok m \<Longrightarrow> mcount P (mdel k m) \<le> mcount P m"
  by (rule mcount_mono) (auto split: if_splits)

section \<open>Range loops\<close>

text \<open>
  \<open>for k := range m\<close> visits every key once, in an order the language leaves open. The
  environment proposes an order \<open>v\<close>; a proposal that is not a permutation of the keys is
  replaced by the order of the representation, so every environment is a legal one.
\<close>

definition rangeKeys :: "('k list \<Rightarrow> 'k list) \<Rightarrow> ('k, 'v) gomap \<Rightarrow> 'k list" where
  "rangeKeys v m = (let ks = map fst m; p = v ks in if distinct p \<and> set p = set ks then p else ks)"

definition rangeVals :: "('k list \<Rightarrow> 'k list) \<Rightarrow> ('k, 'v) gomap \<Rightarrow> 'v list" where
  "rangeVals v m = List.map_filter (mget m) (rangeKeys v m)"

lemma set_rangeKeys [simp]: "set (rangeKeys v m) = {k. \<exists>v. mget m k = Some v}"
  using mget_dom [of m] by (simp add: rangeKeys_def Let_def)

lemma distinct_rangeKeys [simp]: "gomap_ok m \<Longrightarrow> distinct (rangeKeys v m)"
  by (simp add: rangeKeys_def Let_def gomap_ok_def)

lemma set_rangeVals: "set (rangeVals v m) = {x. \<exists>k. mget m k = Some x}"
  by (force simp: rangeVals_def map_filter_def)

lemma rangeKeys_Nil [simp]: "rangeKeys v [] = []"
  by (simp add: rangeKeys_def Let_def)

lemma rangeKeys_id [go_simps]: "rangeKeys (\<lambda>ks. ks) m = map fst m"
  by (simp add: rangeKeys_def Let_def)

text \<open>
  The contract of a loop body that touches, in the part of the state \<open>view\<close> reads, only the
  entry of the key it visits, and changes it as \<open>upd\<close> says: the loop then changes exactly the
  visited entries, each of them once.
\<close>

locale range_loop =
  fixes body :: "'k \<Rightarrow> 's \<Rightarrow> 's"
    and view :: "'s \<Rightarrow> 'k \<Rightarrow> 'v option"
    and upd :: "'k \<Rightarrow> 'v option \<Rightarrow> 'v option \<Rightarrow> bool"
  assumes body_other: "j \<noteq> k \<Longrightarrow> view (body k s) j = view s j"
    and body_key: "upd k (view s k) (view (body k s) k)"
begin

lemma loop_other: "j \<notin> set ks \<Longrightarrow> view (fold body ks s) j = view s j"
  by (induction ks arbitrary: s) (auto simp: body_other)

lemma loop_key: "distinct ks \<Longrightarrow> j \<in> set ks \<Longrightarrow> upd j (view s j) (view (fold body ks s) j)"
proof (induction ks arbitrary: s)
  case (Cons k ks)
  then show ?case
    by (cases "j = k") (auto simp: loop_other body_other body_key dest: Cons.IH [of "body k s"])
qed simp

lemma loop_all:
  assumes "gomap_ok m" and "\<And>j. mget m j = None \<Longrightarrow> upd j (view s j) (view s j)"
  shows "upd j (view s j) (view (fold body (rangeKeys v m) s) j)"
  using assms by (cases "mget m j") (auto simp: loop_other intro: loop_key)

end

text \<open>Facts a loop body keeps are kept by the loop.\<close>

lemma fold_keeps:
  "(\<And>k s. k \<in> set ks \<Longrightarrow> P s \<Longrightarrow> P (body k s)) \<Longrightarrow> P s \<Longrightarrow> P (fold body ks s)"
  by (induction ks arbitrary: s) auto

lemma fold_same:
  "(\<And>k s. f (body k s) = f s) \<Longrightarrow> f (fold body ks s) = f s"
  by (induction ks arbitrary: s) auto

lemma fold_trans:
  assumes "\<And>k s. R s (body k s)" and "\<And>s. R s s" and "\<And>a b c. R a b \<Longrightarrow> R b c \<Longrightarrow> R a c"
  shows "R s (fold body ks s)"
  by (induction ks arbitrary: s) (auto intro: assms)

section \<open>Reachable states\<close>

inductive reach :: "('s \<Rightarrow> bool) \<Rightarrow> ('s \<Rightarrow> 's \<Rightarrow> bool) \<Rightarrow> 's \<Rightarrow> bool" for init step where
  reach_init: "init s \<Longrightarrow> reach init step s"
| reach_step: "reach init step s \<Longrightarrow> step s t \<Longrightarrow> reach init step t"

locale inductive_invariant =
  fixes init :: "'s \<Rightarrow> bool" and step :: "'s \<Rightarrow> 's \<Rightarrow> bool" and inv :: "'s \<Rightarrow> bool"
  assumes init_inv: "init s \<Longrightarrow> inv s"
    and step_inv: "inv s \<Longrightarrow> step s t \<Longrightarrow> inv t"
begin

lemma reach_inv: "reach init step s \<Longrightarrow> inv s"
  by (induction rule: reach.induct) (auto intro: init_inv step_inv)

end

section \<open>Sorting\<close>

text \<open>
  \<open>sort.Slice\<close> orders a slice by a key and leaves the order of equal keys open; every slice the
  program sorts was collected in an open order first, which the environment has chosen.
\<close>

definition sortBy :: "('a \<Rightarrow> 'k::linorder) \<Rightarrow> 'a list \<Rightarrow> 'a list" where
  "sortBy f xs = sort_key f xs"

lemma set_sortBy [simp]: "set (sortBy f xs) = set xs"
  by (simp add: sortBy_def)

lemma length_sortBy [simp]: "length (sortBy f xs) = length xs"
  by (simp add: sortBy_def)

lemma sorted_sortBy [simp]: "sorted (map f (sortBy f xs))"
  by (simp add: sortBy_def)

lemma distinct_sortBy [simp]: "distinct (sortBy f xs) = distinct xs"
  by (simp add: sortBy_def)

end
