(* ===== verification/GoText.thy ===== *)
theory GoText
  imports Prelude
begin

text \<open>
  The string functions of Go's standard library that mayoiga calls, on byte strings: \<open>strings\<close>
  (\<open>TrimSpace\<close>, \<open>HasPrefix\<close>, \<open>ReplaceAll\<close>, \<open>Trim\<close>, \<open>Split\<close>, \<open>Join\<close>), \<open>strconv\<close>
  (\<open>Atoi\<close>, \<open>ParseInt\<close>, \<open>Itoa\<close>), \<open>encoding/hex\<close> and \<open>encoding/base64\<close>
  (\<open>RawStdEncoding\<close>). A Go string is a byte string, so is a HOL \<open>string\<close>. None of these
  definitions is code of the repository; they are what the repository's definitions are built on.
\<close>

type_synonym gostring = string

section \<open>Characters\<close>

definition isDigit :: "char \<Rightarrow> bool" where
  "isDigit c \<longleftrightarrow> CHR ''0'' \<le> c \<and> c \<le> CHR ''9''"

definition isLower :: "char \<Rightarrow> bool" where
  "isLower c \<longleftrightarrow> CHR ''a'' \<le> c \<and> c \<le> CHR ''z''"

definition isUpper :: "char \<Rightarrow> bool" where
  "isUpper c \<longleftrightarrow> CHR ''A'' \<le> c \<and> c \<le> CHR ''Z''"

definition isAscii :: "char \<Rightarrow> bool" where
  "isAscii c \<longleftrightarrow> (of_char c :: nat) < 128"

definition upperChar :: "char \<Rightarrow> char" where
  "upperChar c = (if isLower c then char_of ((of_char c :: nat) - 32) else c)"

definition lowerChar :: "char \<Rightarrow> char" where
  "lowerChar c = (if isUpper c then char_of ((of_char c :: nat) + 32) else c)"

text \<open>
  \<open>strings.ToUpper\<close> and \<open>strings.ToLower\<close>: byte-wise on ASCII strings; on any other string
  Unicode's case tables decide, which are the parameter \<open>table\<close>.
\<close>

definition toUpperWith :: "(gostring \<Rightarrow> gostring) \<Rightarrow> gostring \<Rightarrow> gostring" where
  "toUpperWith table s = (if list_all isAscii s then map upperChar s else table s)"

definition toLowerWith :: "(gostring \<Rightarrow> gostring) \<Rightarrow> gostring \<Rightarrow> gostring" where
  "toLowerWith table s = (if list_all isAscii s then map lowerChar s else table s)"

section \<open>Trimming, searching, splitting\<close>

text \<open>\<open>TrimSpace\<close> removes Unicode white space at both ends: these are its UTF-8 encodings.\<close>

definition spaceEncodings :: "gostring list" where
  "spaceEncodings =
     [[CHR 0x09], [CHR 0x0A], [CHR 0x0B], [CHR 0x0C], [CHR 0x0D], [CHR 0x20],
      [CHR 0xC2, CHR 0x85], [CHR 0xC2, CHR 0xA0], [CHR 0xE1, CHR 0x9A, CHR 0x80],
      [CHR 0xE2, CHR 0x80, CHR 0x80], [CHR 0xE2, CHR 0x80, CHR 0x81], [CHR 0xE2, CHR 0x80, CHR 0x82],
      [CHR 0xE2, CHR 0x80, CHR 0x83], [CHR 0xE2, CHR 0x80, CHR 0x84], [CHR 0xE2, CHR 0x80, CHR 0x85],
      [CHR 0xE2, CHR 0x80, CHR 0x86], [CHR 0xE2, CHR 0x80, CHR 0x87], [CHR 0xE2, CHR 0x80, CHR 0x88],
      [CHR 0xE2, CHR 0x80, CHR 0x89], [CHR 0xE2, CHR 0x80, CHR 0x8A], [CHR 0xE2, CHR 0x80, CHR 0xA8],
      [CHR 0xE2, CHR 0x80, CHR 0xA9], [CHR 0xE2, CHR 0x80, CHR 0xAF], [CHR 0xE2, CHR 0x81, CHR 0x9F],
      [CHR 0xE3, CHR 0x80, CHR 0x80]]"

definition hasPrefix :: "gostring \<Rightarrow> gostring \<Rightarrow> bool" where
  "hasPrefix s p \<longleftrightarrow> take (length p) s = p"

definition trimPrefix :: "gostring \<Rightarrow> gostring \<Rightarrow> gostring" where
  "trimPrefix s p = (if hasPrefix s p then drop (length p) s else s)"

fun trimEncodings :: "gostring list \<Rightarrow> gostring \<Rightarrow> gostring" where
  "trimEncodings encs [] = []"
| "trimEncodings encs (c # cs) =
     (case find (\<lambda>e. e \<noteq> [] \<and> hasPrefix (c # cs) e) encs of
        None \<Rightarrow> c # cs
      | Some e \<Rightarrow> trimEncodings encs (drop (length e - 1) cs))"

definition trimSpace :: "gostring \<Rightarrow> gostring" where
  "trimSpace s = rev (trimEncodings (map rev spaceEncodings) (rev (trimEncodings spaceEncodings s)))"

text \<open>\<open>ReplaceAll(s, "c", "")\<close> for a one-byte \<open>c\<close>.\<close>

definition removeByte :: "char \<Rightarrow> gostring \<Rightarrow> gostring" where
  "removeByte c s = filter (\<lambda>d. d \<noteq> c) s"

definition trimBytes :: "char list \<Rightarrow> gostring \<Rightarrow> gostring" where
  "trimBytes cutset s = rev (dropWhile (\<lambda>c. c \<in> set cutset) (rev (dropWhile (\<lambda>c. c \<in> set cutset) s)))"

definition trimRightBytes :: "char list \<Rightarrow> gostring \<Rightarrow> gostring" where
  "trimRightBytes cutset s = rev (dropWhile (\<lambda>c. c \<in> set cutset) (rev s))"

fun splitByte :: "char \<Rightarrow> gostring \<Rightarrow> gostring list" where
  "splitByte sep [] = [[]]"
| "splitByte sep (c # cs) =
     (if c = sep then [] # splitByte sep cs
      else case splitByte sep cs of [] \<Rightarrow> [[c]] | w # ws \<Rightarrow> (c # w) # ws)"

fun splitByteN :: "char \<Rightarrow> nat \<Rightarrow> gostring \<Rightarrow> gostring list" where
  "splitByteN sep 0 s = []"
| "splitByteN sep (Suc 0) s = [s]"
| "splitByteN sep (Suc (Suc n)) s =
     (let w = takeWhile (\<lambda>c. c \<noteq> sep) s
      in if w = s then [s] else w # splitByteN sep (Suc n) (drop (Suc (length w)) s))"

fun joinWith :: "gostring \<Rightarrow> gostring list \<Rightarrow> gostring" where
  "joinWith sep [] = []"
| "joinWith sep [w] = w"
| "joinWith sep (w # ws) = w @ sep @ joinWith sep ws"

fun lastIndexByte :: "char \<Rightarrow> gostring \<Rightarrow> nat option" where
  "lastIndexByte c [] = None"
| "lastIndexByte c (d # ds) =
     (case lastIndexByte c ds of Some i \<Rightarrow> Some (Suc i) | None \<Rightarrow> if d = c then Some 0 else None)"

fun indexByte :: "char \<Rightarrow> gostring \<Rightarrow> nat option" where
  "indexByte c [] = None"
| "indexByte c (d # ds) = (if d = c then Some 0 else map_option Suc (indexByte c ds))"

lemma hasPrefix_append [simp]: "hasPrefix (p @ s) p"
  by (simp add: hasPrefix_def)

lemma trimPrefix_append [simp]: "trimPrefix (p @ s) p = s"
  by (simp add: trimPrefix_def)

section \<open>Numbers\<close>

datatype numError = ErrSyntax | ErrRange

definition digitVal :: "char \<Rightarrow> int" where
  "digitVal c = of_char c - 48"

text \<open>\<open>ParseUint\<close>'s loop: the first bad digit or the first overflow decides the error.\<close>

fun parseUintLoop :: "int \<Rightarrow> gostring \<Rightarrow> numError + int" where
  "parseUintLoop n [] = Inr n"
| "parseUintLoop n (c # cs) =
     (if \<not> isDigit c then Inl ErrSyntax
      else if 2 ^ 64 \<le> n * 10 + digitVal c then Inl ErrRange
      else parseUintLoop (n * 10 + digitVal c) cs)"

text \<open>
  \<open>ParseInt(s, 10, 64)\<close>, and \<open>Atoi\<close>, which agrees with it on 64-bit machines: the value
  returned beside the error, and the error.
\<close>

definition parseInt64 :: "gostring \<Rightarrow> int \<times> numError option" where
  "parseInt64 s =
     (let neg = (case s of [] \<Rightarrow> False | c # _ \<Rightarrow> c = CHR ''-'');
          ds = (case s of [] \<Rightarrow> [] | c # cs \<Rightarrow> if c = CHR ''-'' \<or> c = CHR ''+'' then cs else s)
      in if ds = [] then (0, Some ErrSyntax)
         else case parseUintLoop 0 ds of
           Inl ErrSyntax \<Rightarrow> (0, Some ErrSyntax)
         | Inl ErrRange \<Rightarrow> (if neg then - (2 ^ 63) else 2 ^ 63 - 1, Some ErrRange)
         | Inr n \<Rightarrow>
             (if neg then if 2 ^ 63 < n then (- (2 ^ 63), Some ErrRange) else (- n, None)
              else if 2 ^ 63 \<le> n then (2 ^ 63 - 1, Some ErrRange) else (n, None)))"

definition digitChar :: "nat \<Rightarrow> char" where
  "digitChar d = char_of (48 + d)"

fun natText :: "nat \<Rightarrow> gostring" where
  "natText n = (if n < 10 then [digitChar n] else natText (n div 10) @ [digitChar (n mod 10)])"

declare natText.simps [simp del]

definition intText :: "int \<Rightarrow> gostring" where
  "intText i = (if i < 0 then CHR ''-'' # natText (nat (- i)) else natText (nat i))"

section \<open>Hexadecimal and base64\<close>

definition hexDigit :: "nat \<Rightarrow> char" where
  "hexDigit d = (if d < 10 then char_of (48 + d) else char_of (87 + d))"

definition hexEncode :: "gostring \<Rightarrow> gostring" where
  "hexEncode bs = concat (map (\<lambda>b. [hexDigit (of_char b div 16), hexDigit (of_char b mod 16)]) bs)"

definition hexVal :: "char \<Rightarrow> nat option" where
  "hexVal c =
     (if isDigit c then Some (of_char c - 48)
      else if CHR ''a'' \<le> c \<and> c \<le> CHR ''f'' then Some (of_char c - 87)
      else if CHR ''A'' \<le> c \<and> c \<le> CHR ''F'' then Some (of_char c - 55)
      else None)"

fun hexDecode :: "gostring \<Rightarrow> gostring option" where
  "hexDecode [] = Some []"
| "hexDecode [c] = None"
| "hexDecode (c # d # s) =
     (case (hexVal c, hexVal d) of
        (Some h, Some l) \<Rightarrow> map_option (Cons (char_of (16 * h + l))) (hexDecode s)
      | _ \<Rightarrow> None)"

definition b64Val :: "char \<Rightarrow> nat option" where
  "b64Val c =
     (if isUpper c then Some (of_char c - 65)
      else if isLower c then Some (of_char c - 71)
      else if isDigit c then Some (of_char c + 4)
      else if c = CHR ''+'' then Some 62
      else if c = CHR ''/'' then Some 63
      else None)"

text \<open>
  \<open>RawStdEncoding.DecodeString\<close>: line breaks are skipped, there is no padding, and a last group
  of two or three digits gives one or two bytes.
\<close>

fun b64Groups :: "nat list \<Rightarrow> gostring option" where
  "b64Groups [] = Some []"
| "b64Groups [a] = None"
| "b64Groups [a, b] = Some [char_of (4 * a + b div 16)]"
| "b64Groups [a, b, c] = Some [char_of (4 * a + b div 16), char_of (16 * (b mod 16) + c div 4)]"
| "b64Groups (a # b # c # d # s) =
     map_option (\<lambda>t. char_of (4 * a + b div 16) # char_of (16 * (b mod 16) + c div 4)
                   # char_of (64 * (c mod 4) + d) # t) (b64Groups s)"

definition b64Decode :: "gostring \<Rightarrow> gostring option" where
  "b64Decode s =
     (let vs = map b64Val (filter (\<lambda>c. c \<noteq> CHR 0x0A \<and> c \<noteq> CHR 0x0D) s)
      in if None \<in> set vs then None else b64Groups (map the vs))"

lemma of_char_lt_256: "(of_char c :: nat) < 256"
  using nat_of_char_less_256 [of c] by simp

lemma hexVal_hexDigit: "d < 16 \<Longrightarrow> hexVal (hexDigit d) = Some d"
  by (auto simp: hexVal_def hexDigit_def isDigit_def less_eq_char_def)

theorem hexDecode_hexEncode: "hexDecode (hexEncode bs) = Some bs"
proof (induction bs)
  case Nil
  then show ?case by (simp add: hexEncode_def)
next
  case (Cons b bs)
  have "(of_char b :: nat) div 16 < 16"
    using of_char_lt_256 [of b] by linarith
  then have "hexVal (hexDigit (of_char b div 16)) = Some (of_char b div 16)"
    by (rule hexVal_hexDigit)
  moreover have "hexVal (hexDigit (of_char b mod 16)) = Some (of_char b mod 16)"
    by (rule hexVal_hexDigit) simp
  moreover have "hexEncode (b # bs) =
      hexDigit (of_char b div 16) # hexDigit (of_char b mod 16) # hexEncode bs"
    by (simp add: hexEncode_def)
  ultimately show ?case
    using Cons.IH by simp
qed

lemma length_hexEncode [simp]: "length (hexEncode bs) = 2 * length bs"
  by (induction bs) (simp_all add: hexEncode_def)

section \<open>Evaluation\<close>

text \<open>Code equations on the bits of a byte, so that the samples below evaluate quickly.\<close>

lemma isAscii_code [code]: "isAscii (Char b0 b1 b2 b3 b4 b5 b6 b7) \<longleftrightarrow> \<not> b7"
  by (cases b0; cases b1; cases b2; cases b3; cases b4; cases b5; cases b6; cases b7) (simp_all add: isAscii_def)

lemma isDigit_code [code]:
  "isDigit (Char b0 b1 b2 b3 b4 b5 b6 b7) \<longleftrightarrow> \<not> b7 \<and> \<not> b6 \<and> b5 \<and> b4 \<and> \<not> (b3 \<and> (b2 \<or> b1))"
  by (cases b0; cases b1; cases b2; cases b3; cases b4; cases b5; cases b6; cases b7)
    (simp_all add: isDigit_def less_eq_char_def)

lemma isUpper_code [code]:
  "isUpper (Char b0 b1 b2 b3 b4 b5 b6 b7) \<longleftrightarrow>
     \<not> b7 \<and> b6 \<and> \<not> b5 \<and> (b0 \<or> b1 \<or> b2 \<or> b3 \<or> b4) \<and> \<not> (b4 \<and> b3 \<and> (b2 \<or> (b1 \<and> b0)))"
  by (cases b0; cases b1; cases b2; cases b3; cases b4; cases b5; cases b6; cases b7)
    (simp_all add: isUpper_def less_eq_char_def)

lemma isLower_code [code]:
  "isLower (Char b0 b1 b2 b3 b4 b5 b6 b7) \<longleftrightarrow>
     \<not> b7 \<and> b6 \<and> b5 \<and> (b0 \<or> b1 \<or> b2 \<or> b3 \<or> b4) \<and> \<not> (b4 \<and> b3 \<and> (b2 \<or> (b1 \<and> b0)))"
  by (cases b0; cases b1; cases b2; cases b3; cases b4; cases b5; cases b6; cases b7)
    (simp_all add: isLower_def less_eq_char_def)

lemma lowerChar_code [code]:
  "lowerChar (Char b0 b1 b2 b3 b4 b5 b6 b7) =
     (if isUpper (Char b0 b1 b2 b3 b4 b5 b6 b7) then Char b0 b1 b2 b3 b4 True b6 b7 else Char b0 b1 b2 b3 b4 b5 b6 b7)"
  by (cases b0; cases b1; cases b2; cases b3; cases b4; cases b5; cases b6; cases b7)
    (simp_all add: lowerChar_def isUpper_code char_of_eq_iff)

definition digitBits :: "bool \<Rightarrow> bool \<Rightarrow> bool \<Rightarrow> bool \<Rightarrow> char" where
  "digitBits b0 b1 b2 b3 =
     (if b3 \<and> (b2 \<or> b1) then Char (\<not> b0) (b1 = b0) (b2 \<and> (b1 \<or> b0)) False False True True False
      else Char b0 b1 b2 b3 True True False False)"

lemma hexEncode_code [code]:
  "hexEncode [] = []"
  "hexEncode (Char b0 b1 b2 b3 b4 b5 b6 b7 # bs) = digitBits b4 b5 b6 b7 # digitBits b0 b1 b2 b3 # hexEncode bs"
  by (simp add: hexEncode_def)
    (cases b0; cases b1; cases b2; cases b3; cases b4; cases b5; cases b6; cases b7;
     simp add: hexEncode_def hexDigit_def digitBits_def char_of_eq_iff)

definition bitsOf :: "char \<Rightarrow> (bool \<times> bool \<times> bool \<times> bool) option" where
  "bitsOf c =
     (case c of Char b0 b1 b2 b3 b4 b5 b6 b7 \<Rightarrow>
        if isDigit c then Some (b0, b1, b2, b3)
        else if \<not> b7 \<and> b6 \<and> \<not> b4 \<and> \<not> b3 \<and> (b0 \<or> b1 \<or> b2) \<and> \<not> (b0 \<and> b1 \<and> b2)
             then Some (\<not> b0, b1 \<noteq> b0, b2 \<noteq> (b1 \<and> b0), True) else None)"

definition nibbleVal :: "bool \<times> bool \<times> bool \<times> bool \<Rightarrow> nat" where
  "nibbleVal x = (case x of (x0, x1, x2, x3) \<Rightarrow> of_bool x0 + 2 * of_bool x1 + 4 * of_bool x2 + 8 * of_bool x3)"

lemma hexVal_code [code]: "hexVal c = map_option nibbleVal (bitsOf c)"
proof (cases c)
  case (Char b0 b1 b2 b3 b4 b5 b6 b7)
  show ?thesis unfolding Char
    by (cases b0; cases b1; cases b2; cases b3; cases b4; cases b5; cases b6; cases b7)
      (simp_all add: hexVal_def bitsOf_def isDigit_code less_eq_char_def nibbleVal_def)
qed

lemma char_of_nibbles:
  "char_of (16 * nibbleVal (h0, h1, h2, h3) + nibbleVal (l0, l1, l2, l3)) = Char l0 l1 l2 l3 h0 h1 h2 h3"
  by (cases h0; cases h1; cases h2; cases h3; cases l0; cases l1; cases l2; cases l3)
    (simp_all add: nibbleVal_def char_of_eq_iff take_bit_eq_mod)

lemma hexDecode_code [code]:
  "hexDecode [] = Some []"
  "hexDecode [c] = None"
  "hexDecode (c # d # s) =
     (case bitsOf c of
        None \<Rightarrow> None
      | Some (h0, h1, h2, h3) \<Rightarrow>
          (case bitsOf d of
             None \<Rightarrow> None
           | Some (l0, l1, l2, l3) \<Rightarrow> map_option (Cons (Char l0 l1 l2 l3 h0 h1 h2 h3)) (hexDecode s)))"
  by (cases "bitsOf c"; cases "bitsOf d"; auto simp: hexVal_code char_of_nibbles)+

end
