(* ===== verification/Identifiers.thy ===== *)
theory Identifiers
  imports GoText
begin

text \<open>
  Identifiers and credentials (src/internal/app/coordinator_client.go, profile.go,
  node_manager.go, relay_server.go): random tokens, device codes and UUIDs drawn from the secure
  random source, the normal forms of device codes and certificate pins, instance names, node
  roles and hash comparison. Cryptography and Unicode's case tables are parameters, the record
  \<open>lib\<close>; the random source is the bytes the environment delivers.
\<close>

record lib =
  sha256 :: "gostring \<Rightarrow> gostring"
  ed25519Verify :: "gostring \<Rightarrow> gostring \<Rightarrow> gostring \<Rightarrow> bool"
  unicodeUpper :: "gostring \<Rightarrow> gostring"
  unicodeLower :: "gostring \<Rightarrow> gostring"

text \<open>A concrete library, on which the properties of the development are exercised.\<close>

definition sampleLib :: lib where
  "sampleLib = \<lparr>sha256 = (\<lambda>s. take 32 (s @ replicate 32 (CHR ''.''))),
     ed25519Verify = (\<lambda>key message signature. signature = key),
     unicodeUpper = (\<lambda>s. s), unicodeLower = (\<lambda>s. s)\<rparr>"

definition toUpper :: "'z lib_scheme \<Rightarrow> gostring \<Rightarrow> gostring" where
  "toUpper L = toUpperWith (unicodeUpper L)"

definition toLower :: "'z lib_scheme \<Rightarrow> gostring \<Rightarrow> gostring" where
  "toLower L = toLowerWith (unicodeLower L)"

section \<open>Random identifiers\<close>

text \<open>
  \<open>io.ReadFull\<close> on a reader that will deliver the bytes \<open>supply\<close> before it ends: \<open>n\<close> bytes,
  or an error.
\<close>

definition readFull :: "gostring \<Rightarrow> nat \<Rightarrow> gostring option" where
  "readFull supply n = (if n \<le> length supply then Some (take n supply) else None)"

definition randomToken :: "gostring \<Rightarrow> gostring option" where
  "randomToken supply = map_option hexEncode (readFull supply 32)"

definition deviceAlphabet :: gostring where
  "deviceAlphabet = ''ABCDEFGHJKLMNPQRSTUVWXYZ23456789''"

definition randomDeviceCode :: "gostring \<Rightarrow> gostring option" where
  "randomDeviceCode supply =
     (case readFull supply 8 of
        None \<Rightarrow> None
      | Some random \<Rightarrow>
          let b = map (\<lambda>r. deviceAlphabet ! (of_char r mod length deviceAlphabet)) random
          in Some (take 4 b @ ''-'' @ drop 4 b))"

definition setByteBits :: "8 word \<Rightarrow> 8 word \<Rightarrow> char \<Rightarrow> char" where
  "setByteBits m b c = char_of (unat (or (and (of_nat (of_char c)) m) b))"

definition randomUUID :: "gostring \<Rightarrow> gostring option" where
  "randomUUID supply =
     (case readFull supply 16 of
        None \<Rightarrow> None
      | Some b0 \<Rightarrow>
          let b1 = b0[6 := setByteBits 0x0f 0x40 (b0 ! 6)];
              b2 = b1[8 := setByteBits 0x3f 0x80 (b1 ! 8)];
              s = hexEncode b2
          in Some (take 8 s @ ''-'' @ take 4 (drop 8 s) @ ''-'' @ take 4 (drop 12 s) @ ''-''
                   @ take 4 (drop 16 s) @ ''-'' @ drop 20 s))"

section \<open>Normal forms\<close>

definition normalizeDeviceCode :: "'z lib_scheme \<Rightarrow> gostring \<Rightarrow> gostring" where
  "normalizeDeviceCode L s0 =
     (let s = toUpper L (removeByte CHR ''-'' (trimSpace s0))
      in if length s \<noteq> 8 then '''' else take 4 s @ ''-'' @ drop 4 s)"

definition normalizePin :: "'z lib_scheme \<Rightarrow> gostring \<Rightarrow> gostring" where
  "normalizePin L s = toLower L (removeByte CHR '':'' (trimSpace s))"

definition validSHA256Pin :: "'z lib_scheme \<Rightarrow> gostring \<Rightarrow> bool" where
  "validSHA256Pin L pinText =
     (case hexDecode (normalizePin L pinText) of None \<Rightarrow> False | Some pin \<Rightarrow> length pin = 32)"

definition matchesHash :: "'z lib_scheme \<Rightarrow> gostring \<Rightarrow> gostring \<Rightarrow> bool" where
  "matchesHash L secret expected \<longleftrightarrow>
     (let got = hexEncode (sha256 L secret) in length got = length expected \<and> got = expected)"

definition splitList :: "gostring \<Rightarrow> gostring list" where
  "splitList s = filter (\<lambda>item. item \<noteq> '''') (map trimSpace (splitByte CHR '','' s))"

definition relayAdmissionTokenHash :: "'z lib_scheme \<Rightarrow> gostring \<Rightarrow> gostring" where
  "relayAdmissionTokenHash L token = hexEncode (sha256 L (trimSpace token))"

definition validRelayAdmissionTokenHash :: "gostring \<Rightarrow> bool" where
  "validRelayAdmissionTokenHash value =
     (case hexDecode value of None \<Rightarrow> False | Some decoded \<Rightarrow> length decoded = 32)"

definition relayAdmissionTokenMatches :: "'z lib_scheme \<Rightarrow> gostring \<Rightarrow> gostring \<Rightarrow> bool" where
  "relayAdmissionTokenMatches L expectedHash token =
     (case hexDecode expectedHash of
        None \<Rightarrow> False
      | Some expected \<Rightarrow>
          if length expected \<noteq> 32 \<or> trimSpace token = '''' then False
          else case hexDecode (relayAdmissionTokenHash L token) of
            None \<Rightarrow> False
          | Some actual \<Rightarrow> expected = actual)"

section \<open>Names and roles\<close>

definition validateInstance :: "gostring \<Rightarrow> gostring option" where
  "validateInstance inst =
     (if inst = '''' \<or> 32 < length inst
      then Some ''--instance is required and must be at most 32 characters''
      else if list_all (\<lambda>(i, r). isLower r \<or> isDigit r \<or> (0 < i \<and> (r = CHR ''-'' \<or> r = CHR ''_'')))
                (zip [0..<length inst] inst)
      then None
      else Some ''--instance must start with a lowercase letter or digit and contain only lowercase letters, digits, '-' or '_' '')"

definition validNodeRole :: "gostring \<Rightarrow> bool" where
  "validNodeRole role \<longleftrightarrow> role \<in> {''client'', ''relay'', ''subnode'', ''coordinator''}"

section \<open>Facts\<close>

definition plainChar :: "char \<Rightarrow> bool" where
  "plainChar c \<longleftrightarrow> CHR 0x21 \<le> c \<and> c \<le> CHR 0x7E"

lemma trimEncodings_none:
  "\<forall>e \<in> set encs. e \<noteq> [] \<longrightarrow> hd e \<noteq> c \<Longrightarrow> trimEncodings encs (c # s) = c # s"
proof -
  assume "\<forall>e \<in> set encs. e \<noteq> [] \<longrightarrow> hd e \<noteq> c"
  then have "find (\<lambda>e. e \<noteq> [] \<and> hasPrefix (c # s) e) encs = None"
    by (auto simp: find_None_iff hasPrefix_def neq_Nil_conv)
  then show ?thesis by simp
qed

lemma spaceEncodings_not_plain:
  "list_all (\<lambda>e. e = [] \<or> \<not> plainChar (hd e)) spaceEncodings"
  "list_all (\<lambda>e. e = [] \<or> \<not> plainChar (hd e)) (map rev spaceEncodings)"
  by code_simp+

lemma trimEncodings_plain:
  assumes "list_all (\<lambda>e. e = [] \<or> \<not> plainChar (hd e)) encs" and "list_all plainChar s"
  shows "trimEncodings encs s = s"
  using assms by (cases s) (auto intro!: trimEncodings_none simp: list_all_iff simp del: trimEncodings.simps(2))

lemma trimSpace_plain [simp]: "list_all plainChar s \<Longrightarrow> trimSpace s = s"
  by (simp add: trimSpace_def trimEncodings_plain spaceEncodings_not_plain)

text \<open>The characters a device code is made of, and what the normal form does to them.\<close>

definition codeChar :: "char \<Rightarrow> bool" where
  "codeChar c \<longleftrightarrow> c \<in> set deviceAlphabet"

lemma codeChar_facts:
  "codeChar c \<Longrightarrow> plainChar c \<and> isAscii c \<and> c \<noteq> CHR ''-'' \<and> upperChar c = c
     \<and> plainChar (lowerChar c) \<and> isAscii (lowerChar c) \<and> lowerChar c \<noteq> CHR ''-''
     \<and> upperChar (lowerChar c) = c"
proof -
  have "list_all (\<lambda>c. plainChar c \<and> isAscii c \<and> c \<noteq> CHR ''-'' \<and> upperChar c = c
     \<and> plainChar (lowerChar c) \<and> isAscii (lowerChar c) \<and> lowerChar c \<noteq> CHR ''-''
     \<and> upperChar (lowerChar c) = c) deviceAlphabet"
    by code_simp
  then show "codeChar c \<Longrightarrow> ?thesis"
    by (simp add: codeChar_def list_all_iff)
qed

lemma deviceAlphabet_nth: "codeChar (deviceAlphabet ! (n mod length deviceAlphabet))"
proof -
  have "0 < length deviceAlphabet" by (simp add: deviceAlphabet_def)
  then show ?thesis unfolding codeChar_def by (intro nth_mem mod_less_divisor)
qed

lemma randomDeviceCode_shape:
  assumes "randomDeviceCode supply = Some code"
  obtains a b where "code = a @ ''-'' @ b" and "length a = 4" and "length b = 4"
    and "list_all codeChar a" and "list_all codeChar b"
proof -
  define cs where "cs = map (\<lambda>r. deviceAlphabet ! (of_char r mod length deviceAlphabet)) (take 8 supply)"
  from assms have len: "length cs = 8" and code: "code = take 4 cs @ ''-'' @ drop 4 cs"
    by (auto simp: randomDeviceCode_def readFull_def Let_def cs_def split: if_splits)
  have "list_all codeChar cs"
    by (simp add: cs_def list_all_iff deviceAlphabet_nth)
  then have "list_all codeChar (take 4 cs)" and "list_all codeChar (drop 4 cs)"
    by (auto simp: list_all_iff dest: in_set_takeD in_set_dropD)
  with len show thesis by (intro that [OF code]) simp_all
qed

text \<open>
  The normal form of a code read off a screen: in either case, with or without its dash, and with
  blanks around it.
\<close>

lemma removeByte_simps [simp]:
  "removeByte c [] = []"
  "removeByte c (d # s) = (if d = c then removeByte c s else d # removeByte c s)"
  by (simp_all add: removeByte_def)

lemma removeByte_append [simp]: "removeByte c (s @ t) = removeByte c s @ removeByte c t"
  by (simp add: removeByte_def)

lemma removeByte_id [simp]: "c \<notin> set s \<Longrightarrow> removeByte c s = s"
  unfolding removeByte_def by (rule filter_True) auto

lemma normalize_split:
  assumes "list_all plainChar s" and "removeByte CHR ''-'' s = t" and "list_all isAscii t"
    and "map upperChar t = a @ b" and "length a = 4" and "length b = 4"
  shows "normalizeDeviceCode L s = a @ ''-'' @ b"
  using assms by (simp add: normalizeDeviceCode_def toUpper_def toUpperWith_def)

lemma map_upper_codeChars:
  "list_all codeChar s \<Longrightarrow> map upperChar s = s"
  "list_all codeChar s \<Longrightarrow> map (upperChar \<circ> lowerChar) s = s"
  by (simp_all add: list_all_iff codeChar_facts map_idI)

lemma codeChars_plain:
  assumes "list_all codeChar s"
  shows "list_all plainChar s" "list_all isAscii s" "CHR ''-'' \<notin> set s"
    "list_all plainChar (map lowerChar s)" "list_all isAscii (map lowerChar s)"
    "CHR ''-'' \<notin> set (map lowerChar s)"
proof -
  note f = codeChar_facts [of "CHR ''-''"]
  show "list_all plainChar s" "list_all isAscii s" "list_all plainChar (map lowerChar s)"
    "list_all isAscii (map lowerChar s)" using assms by (simp_all add: list_all_iff codeChar_facts)
  show "CHR ''-'' \<notin> set s" using assms f by (auto simp: list_all_iff)
  show "CHR ''-'' \<notin> set (map lowerChar s)" using assms codeChar_facts by (force simp: list_all_iff)
qed

lemma randomDeviceCode_length: "randomDeviceCode supply = Some code \<Longrightarrow> length code = 9"
  by (erule randomDeviceCode_shape) simp

text \<open>The hexadecimal form of a digest is its own normal form.\<close>

lemma hexDigit_facts:
  "d < 16 \<Longrightarrow> plainChar (hexDigit d) \<and> isAscii (hexDigit d) \<and> hexDigit d \<noteq> CHR '':'' \<and> lowerChar (hexDigit d) = hexDigit d"
proof -
  have "list_all (\<lambda>d. plainChar (hexDigit d) \<and> isAscii (hexDigit d) \<and> hexDigit d \<noteq> CHR '':''
      \<and> lowerChar (hexDigit d) = hexDigit d) [0..<16]"
    by code_simp
  then show "d < 16 \<Longrightarrow> ?thesis" by (simp add: list_all_iff)
qed

lemma hexEncode_Cons:
  "hexEncode (b # bs) = hexDigit (of_char b div 16) # hexDigit (of_char b mod 16) # hexEncode bs"
  by (simp add: hexEncode_def)

lemma hexEncode_chars: "c \<in> set (hexEncode bs) \<Longrightarrow> \<exists>d < 16. c = hexDigit d"
proof (induction bs)
  case (Cons b bs)
  have "(of_char b :: nat) div 16 < 16" using of_char_lt_256 [of b] by linarith
  moreover have "(of_char b :: nat) mod 16 < 16" by simp
  moreover have "c = hexDigit (of_char b div 16) \<or> c = hexDigit (of_char b mod 16) \<or> c \<in> set (hexEncode bs)"
    using Cons.prems by (simp add: hexEncode_Cons)
  ultimately show ?case using Cons.IH by blast
qed (simp add: hexEncode_def)

lemma validSHA256Pin_hexEncode: "length bs = 32 \<Longrightarrow> validSHA256Pin L (hexEncode bs)"
proof -
  have chars: "plainChar c \<and> isAscii c \<and> c \<noteq> CHR '':'' \<and> lowerChar c = c" if "c \<in> set (hexEncode bs)" for c
  proof -
    from hexEncode_chars [OF that] obtain d where "d < 16" and "c = hexDigit d" by blast
    with hexDigit_facts [of d] show ?thesis by simp
  qed
  then have "list_all plainChar (hexEncode bs)" "list_all isAscii (hexEncode bs)" "CHR '':'' \<notin> set (hexEncode bs)"
    by (auto simp: list_all_iff)
  moreover have "map lowerChar (hexEncode bs) = hexEncode bs"
    by (rule map_idI) (use chars in blast)
  ultimately have "normalizePin L (hexEncode bs) = hexEncode bs"
    by (simp add: normalizePin_def toLower_def toLowerWith_def)
  then show "length bs = 32 \<Longrightarrow> ?thesis"
    by (simp add: validSHA256Pin_def hexDecode_hexEncode)
qed

lemma hexDecode_lowerChar:
  "hexDecode s = Some d \<Longrightarrow> \<exists>d'. hexDecode (map lowerChar s) = Some d' \<and> length d' = length d"
proof (induction s arbitrary: d rule: hexDecode.induct)
  case (3 a b s)
  have low: "hexVal c = Some v \<Longrightarrow> \<exists>v'. hexVal (lowerChar c) = Some v'" for c v
    by (auto simp: hexVal_def lowerChar_def isUpper_def isDigit_def less_eq_char_def split: if_splits)
  from 3(2) obtain h l d1 where d: "hexVal a = Some h" "hexVal b = Some l" "hexDecode s = Some d1" "d = char_of (16 * h + l) # d1"
    by (auto split: option.splits)
  from 3(1) [OF refl d(1,2,3)] obtain d1' where "hexDecode (map lowerChar s) = Some d1'" "length d1' = length d1" by blast
  moreover from low [OF d(1)] low [OF d(2)] obtain h' l' where "hexVal (lowerChar a) = Some h'" "hexVal (lowerChar b) = Some l'" by blast
  ultimately show ?case by (simp add: d(4))
qed simp_all

lemma hexDecode_hexChars: "hexDecode s = Some d \<Longrightarrow> c \<in> set s \<Longrightarrow> hexVal c \<noteq> None"
  by (induction s arbitrary: d rule: hexDecode.induct) (auto split: option.splits)

lemma hexVal_plain: "hexVal c \<noteq> None \<Longrightarrow> plainChar c \<and> isAscii c \<and> c \<noteq> CHR '':''"
  by (auto simp: hexVal_def plainChar_def isAscii_def isDigit_def less_eq_char_def split: if_splits)

text \<open>A normalised pin is as valid as the pin itself.\<close>

lemma validSHA256Pin_normalized:
  assumes "validSHA256Pin L pin"
  shows "validSHA256Pin L (normalizePin L pin)"
proof -
  from assms obtain d where d: "hexDecode (normalizePin L pin) = Some d" "length d = 32"
    by (auto simp: validSHA256Pin_def split: option.splits)
  then have chars: "plainChar c \<and> isAscii c \<and> c \<noteq> CHR '':''" if "c \<in> set (normalizePin L pin)" for c
    using that by (intro hexVal_plain hexDecode_hexChars)
  then have "list_all plainChar (normalizePin L pin)" "list_all isAscii (normalizePin L pin)" "CHR '':'' \<notin> set (normalizePin L pin)"
    by (auto simp: list_all_iff)
  then have "normalizePin L (normalizePin L pin) = map lowerChar (normalizePin L pin)"
    by (simp add: normalizePin_def [of L "normalizePin L pin"] toLower_def toLowerWith_def)
  with hexDecode_lowerChar [OF d(1)] d(2) show ?thesis by (auto simp: validSHA256Pin_def)
qed

lemma randomToken_nonempty: "randomToken supply = Some cid \<Longrightarrow> cid \<noteq> ''''"
  by (auto simp: randomToken_def readFull_def hexEncode_def split: if_splits)

lemma randomUUID_nonempty: "randomUUID supply = Some uuid \<Longrightarrow> uuid \<noteq> ''''"
  by (auto simp: randomUUID_def Let_def split: option.splits)

lemma relayAdmissionTokenHash_valid: "length (sha256 L (trimSpace token)) = 32 \<Longrightarrow> validRelayAdmissionTokenHash (relayAdmissionTokenHash L token)"
  by (simp add: validRelayAdmissionTokenHash_def relayAdmissionTokenHash_def hexDecode_hexEncode)

text \<open>A device code, typed in upper or lower case, with or without its dash, is normalised to
  the code that was issued, so the administrator's input finds the pending handshake.\<close>

theorem device_code_normalizes:
  assumes "randomDeviceCode supply = Some code"
  shows "normalizeDeviceCode L code = code
    \<and> normalizeDeviceCode L (map lowerChar code) = code
    \<and> normalizeDeviceCode L (removeByte CHR ''-'' code) = code
    \<and> normalizeDeviceCode L (map lowerChar (removeByte CHR ''-'' code)) = code"
proof -
  from assms obtain a b where ab: "code = a @ ''-'' @ b" "length a = 4" "length b = 4"
    and ca: "list_all codeChar a" and cb: "list_all codeChar b"
    by (rule randomDeviceCode_shape)
  have dash: "lowerChar CHR ''-'' = CHR ''-''" "plainChar CHR ''-''"
    by code_simp+
  note facts = codeChars_plain [OF ca] codeChars_plain [OF cb] map_upper_codeChars [OF ca]
    map_upper_codeChars [OF cb] ab dash
  have "normalizeDeviceCode L (a @ ''-'' @ b) = a @ ''-'' @ b"
    by (rule normalize_split [where t = "a @ b"]) (use facts in simp_all)
  moreover have "normalizeDeviceCode L (map lowerChar (a @ ''-'' @ b)) = a @ ''-'' @ b"
    by (rule normalize_split [where t = "map lowerChar a @ map lowerChar b"])
      (use facts in simp_all)
  moreover have "normalizeDeviceCode L (a @ b) = a @ ''-'' @ b"
    by (rule normalize_split [where t = "a @ b"]) (use facts in simp_all)
  moreover have "normalizeDeviceCode L (map lowerChar (a @ b)) = a @ ''-'' @ b"
    by (rule normalize_split [where t = "map lowerChar a @ map lowerChar b"]) (use facts in simp_all)
  moreover have "removeByte CHR ''-'' code = a @ b"
    using facts by simp
  ultimately show ?thesis using ab by simp
qed

theorem device_code_normalizes_witness:
  "randomDeviceCode (replicate 8 (CHR 0x07)) = Some ''HHHH-HHHH''
   \<and> normalizeDeviceCode sampleLib ''hhhhhhhh'' = ''HHHH-HHHH''"
proof -
  have r: "randomDeviceCode (replicate 8 (CHR 0x07)) = Some ''HHHH-HHHH''"
    by code_simp
  have "map lowerChar (removeByte CHR ''-'' ''HHHH-HHHH'') = ''hhhhhhhh''"
    by code_simp
  with r device_code_normalizes [OF r, of sampleLib] show ?thesis by simp
qed

end
