(* ===== verification/NetAddr.thy ===== *)
theory NetAddr
  imports Identifiers
begin

text \<open>
  Addresses: Go's \<open>net.SplitHostPort\<close>, \<open>JoinHostPort\<close>, \<open>ParseIP\<close>, the \<open>IP\<close> predicates and
  \<open>IP.String\<close>, and on them the validators of src/internal/app/coordinator_runtime.go
  (\<open>validateHostPort\<close>, \<open>validateAdminListen\<close>, \<open>sameListenAddress\<close>), coordinator_nodes.go
  (\<open>validateDirectCandidate\<close>), profile.go (\<open>splitAddress\<close>), connection_workers.go
  (\<open>loopbackEndpoint\<close>) and coordinator_http.go (\<open>requestSource\<close>, \<open>isLoopbackRequest\<close>).
\<close>

section \<open>The net package\<close>

datatype addrError =
  MissingPort | TooManyColons | MissingBracket | UnexpectedOpenBracket | UnexpectedCloseBracket

definition splitHostPort :: "gostring \<Rightarrow> addrError + gostring \<times> gostring" where
  "splitHostPort hp =
     (case lastIndexByte CHR '':'' hp of
        None \<Rightarrow> Inl MissingPort
      | Some i \<Rightarrow>
          let bracketed = (hp ! 0 = CHR ''['');
              res = (if bracketed then
                       (case indexByte CHR '']'' hp of
                          None \<Rightarrow> Inl MissingBracket
                        | Some e \<Rightarrow>
                            if e + 1 = length hp then Inl MissingPort
                            else if e + 1 = i then Inr (take (e - 1) (drop 1 hp), 1, e + 1)
                            else if hp ! (e + 1) = CHR '':'' then Inl TooManyColons
                            else Inl MissingPort)
                     else if CHR '':'' \<in> set (take i hp) then Inl TooManyColons
                     else Inr (take i hp, 0, 0))
          in case res of
               Inl err \<Rightarrow> Inl err
             | Inr (host, j, k) \<Rightarrow>
                 if CHR ''['' \<in> set (drop j hp) then Inl UnexpectedOpenBracket
                 else if CHR '']'' \<in> set (drop k hp) then Inl UnexpectedCloseBracket
                 else Inr (host, drop (i + 1) hp))"

definition joinHostPort :: "gostring \<Rightarrow> gostring \<Rightarrow> gostring" where
  "joinHostPort host port =
     (if CHR '':'' \<in> set host then ''['' @ host @ '']:'' @ port else host @ '':'' @ port)"

text \<open>An \<open>IP\<close> is its sixteen bytes; an IPv4 address is mapped into \<open>::ffff:0:0/96\<close>.\<close>

type_synonym ip = "nat list"

definition v4Prefix :: ip where
  "v4Prefix = [0, 0, 0, 0, 0, 0, 0, 0, 0, 0, 255, 255]"

definition parseOctet :: "gostring \<Rightarrow> nat option" where
  "parseOctet s =
     (if s = [] \<or> \<not> list_all isDigit s \<or> (1 < length s \<and> hd s = CHR ''0'') then None
      else case parseUintLoop 0 s of Inl _ \<Rightarrow> None | Inr n \<Rightarrow> if 255 < n then None else Some (nat n))"

definition parseIPv4Fields :: "gostring \<Rightarrow> ip option" where
  "parseIPv4Fields s =
     (let fields = map parseOctet (splitByte CHR ''.'' s)
      in if length fields = 4 \<and> None \<notin> set fields then Some (map the fields) else None)"

definition hexGroup :: "gostring \<Rightarrow> nat" where
  "hexGroup ds = fold (\<lambda>c acc. acc * 16 + the (hexVal c)) ds 0"

text \<open>
  The loop of \<open>parseIPv6\<close>: at most eight groups, of which the last may be a dotted quad; \<open>ell\<close>
  is where the \<open>::\<close> stood.
\<close>

fun parseIPv6Loop :: "nat \<Rightarrow> ip \<Rightarrow> nat option \<Rightarrow> gostring \<Rightarrow> (ip \<times> nat option \<times> gostring) option" where
  "parseIPv6Loop 0 ip ell s = Some (ip, ell, s)"
| "parseIPv6Loop (Suc n) ip ell s =
     (let ds = takeWhile (\<lambda>c. hexVal c \<noteq> None) s;
          rest = drop (length ds) s;
          acc = hexGroup ds;
          ip1 = ip @ [acc div 256, acc mod 256]
      in if ds = [] \<or> 4 < length ds then None
         else if rest \<noteq> [] \<and> hd rest = CHR ''.'' then
           (if ell = None \<and> length ip \<noteq> 12 then None
            else if 16 < length ip + 4 then None
            else map_option (\<lambda>v4. (ip @ v4, ell, [])) (parseIPv4Fields s))
         else if rest = [] then Some (ip1, ell, [])
         else if hd rest \<noteq> CHR '':'' \<or> length rest = 1 then None
         else if hd (tl rest) = CHR '':'' then
           (if ell \<noteq> None then None
            else if tl (tl rest) = [] then Some (ip1, Some (length ip1), [])
            else parseIPv6Loop n ip1 (Some (length ip1)) (tl (tl rest)))
         else parseIPv6Loop n ip1 ell (tl rest))"

definition parseIPv6 :: "gostring \<Rightarrow> ip option" where
  "parseIPv6 s =
     (if CHR ''%'' \<in> set s then None
      else if s = ''::'' then Some (replicate 16 0)
      else let lead = hasPrefix s ''::''
           in case parseIPv6Loop 8 [] (if lead then Some 0 else None) (if lead then drop 2 s else s) of
                None \<Rightarrow> None
              | Some (ip, ell, rest) \<Rightarrow>
                  if rest \<noteq> [] then None
                  else if length ip < 16 then
                    (case ell of None \<Rightarrow> None
                     | Some e \<Rightarrow> Some (take e ip @ replicate (16 - length ip) 0 @ drop e ip))
                  else if ell \<noteq> None then None
                  else Some ip)"

definition parseIP :: "gostring \<Rightarrow> ip option" where
  "parseIP s =
     (case find (\<lambda>c. c = CHR ''.'' \<or> c = CHR '':'' \<or> c = CHR ''%'') s of
        None \<Rightarrow> None
      | Some c \<Rightarrow>
          if c = CHR ''.'' then map_option (\<lambda>v4. v4Prefix @ v4) (parseIPv4Fields s)
          else if c = CHR '':'' then parseIPv6 s
          else None)"

definition to4 :: "ip \<Rightarrow> ip option" where
  "to4 a = (if length a = 16 \<and> take 12 a = v4Prefix then Some (drop 12 a) else None)"

definition isLoopbackIP :: "ip \<Rightarrow> bool" where
  "isLoopbackIP a =
     (case to4 a of Some v \<Rightarrow> v ! 0 = 127 | None \<Rightarrow> a = replicate 15 0 @ [1])"

definition isUnspecifiedIP :: "ip \<Rightarrow> bool" where
  "isUnspecifiedIP a \<longleftrightarrow> a = v4Prefix @ [0, 0, 0, 0] \<or> a = replicate 16 0"

definition isMulticastIP :: "ip \<Rightarrow> bool" where
  "isMulticastIP a =
     (case to4 a of Some v \<Rightarrow> v ! 0 div 16 = 14 | None \<Rightarrow> length a = 16 \<and> a ! 0 = 255)"

definition isPrivateIP :: "ip \<Rightarrow> bool" where
  "isPrivateIP a =
     (case to4 a of
        Some v \<Rightarrow> v ! 0 = 10 \<or> (v ! 0 = 172 \<and> v ! 1 div 16 = 1) \<or> (v ! 0 = 192 \<and> v ! 1 = 168)
      | None \<Rightarrow> length a = 16 \<and> a ! 0 div 2 = 126)"

fun hexText :: "nat \<Rightarrow> gostring" where
  "hexText n = (if n < 16 then [hexDigit n] else hexText (n div 16) @ [hexDigit (n mod 16)])"

declare hexText.simps [simp del]

fun ipGroups :: "ip \<Rightarrow> nat list" where
  "ipGroups (a # b # s) = (256 * a + b) # ipGroups s"
| "ipGroups _ = []"

text \<open>The leftmost longest run of at least two zero groups, as its bounds.\<close>

definition zeroRun :: "nat list \<Rightarrow> (nat \<times> nat) option" where
  "zeroRun gs =
     fold (\<lambda>i best.
         let l = length (takeWhile (\<lambda>g. g = 0) (drop i gs))
         in if 2 \<le> l \<and> (case best of None \<Rightarrow> 0 | Some (a, b) \<Rightarrow> b - a) < l then Some (i, i + l) else best)
       [0..<length gs] None"

definition ipText :: "ip \<Rightarrow> gostring" where
  "ipText a =
     (case to4 a of
        Some v \<Rightarrow> joinWith ''.'' (map natText v)
      | None \<Rightarrow>
          let gs = ipGroups a
          in case zeroRun gs of
               None \<Rightarrow> joinWith '':'' (map hexText gs)
             | Some (i, j) \<Rightarrow> joinWith '':'' (map hexText (take i gs)) @ ''::''
                              @ joinWith '':'' (map hexText (drop j gs)))"

section \<open>The validators\<close>

datatype hostPortError = BadAddress addrError | BadPort

text \<open>\<open>strconv.Atoi\<close> followed by the range check, as in \<open>validateHostPort\<close>.\<close>

definition portNumber :: "gostring \<Rightarrow> int option" where
  "portNumber text =
     (case parseInt64 text of
        (port, None) \<Rightarrow> if port < 1 \<or> 65535 < port then None else Some port
      | (_, Some _) \<Rightarrow> None)"

definition validateHostPort :: "gostring \<Rightarrow> hostPortError option" where
  "validateHostPort address =
     (case splitHostPort address of
        Inl err \<Rightarrow> Some (BadAddress err)
      | Inr (_, portText) \<Rightarrow> (case portNumber portText of None \<Rightarrow> Some BadPort | Some _ \<Rightarrow> None))"

definition splitAddress :: "gostring \<Rightarrow> hostPortError + gostring \<times> int" where
  "splitAddress s =
     (case splitHostPort s of
        Inl err \<Rightarrow> Inl (BadAddress err)
      | Inr (host, port) \<Rightarrow> (case portNumber port of None \<Rightarrow> Inl BadPort | Some n \<Rightarrow> Inr (host, n)))"

text \<open>The host of an address already known to split (\<open>host, _, _ := net.SplitHostPort\<close>).\<close>

definition hostOf :: "gostring \<Rightarrow> gostring" where
  "hostOf address = (case splitHostPort address of Inl _ \<Rightarrow> '''' | Inr (host, _) \<Rightarrow> host)"

datatype candidateError = BadHostPort hostPortError | NotPrivateUnicast

definition validateDirectCandidate :: "gostring \<Rightarrow> candidateError option" where
  "validateDirectCandidate address =
     (case validateHostPort address of
        Some err \<Rightarrow> Some (BadHostPort err)
      | None \<Rightarrow>
          (case parseIP (hostOf address) of
             None \<Rightarrow> Some NotPrivateUnicast
           | Some a \<Rightarrow>
               if \<not> isPrivateIP a \<or> isLoopbackIP a \<or> isUnspecifiedIP a \<or> isMulticastIP a
               then Some NotPrivateUnicast else None))"

datatype adminListenError = AdminBadHostPort hostPortError | AdminNotLoopback

definition validateAdminListen :: "gostring \<Rightarrow> adminListenError option" where
  "validateAdminListen address =
     (case validateHostPort address of
        Some err \<Rightarrow> Some (AdminBadHostPort err)
      | None \<Rightarrow>
          let host = hostOf address
          in if host \<noteq> ''localhost'' \<and> (case parseIP host of None \<Rightarrow> True | Some a \<Rightarrow> \<not> isLoopbackIP a)
             then Some AdminNotLoopback else None)"

definition normalizeHost :: "'z lib_scheme \<Rightarrow> gostring \<Rightarrow> gostring" where
  "normalizeHost L host =
     (if host = ''localhost'' then ''127.0.0.1''
      else case parseIP host of Some a \<Rightarrow> ipText a | None \<Rightarrow> toLower L host)"

definition wildcardHost :: "gostring \<Rightarrow> bool" where
  "wildcardHost host \<longleftrightarrow> host = '''' \<or> host = ''0.0.0.0'' \<or> host = ''::''"

definition sameListenAddress :: "'z lib_scheme \<Rightarrow> gostring \<Rightarrow> gostring \<Rightarrow> bool" where
  "sameListenAddress L first second =
     (case (splitHostPort first, splitHostPort second) of
        (Inr (firstHost, firstPort), Inr (secondHost, secondPort)) \<Rightarrow>
          if firstPort \<noteq> secondPort then False
          else normalizeHost L firstHost = normalizeHost L secondHost
               \<or> wildcardHost firstHost \<or> wildcardHost secondHost
      | _ \<Rightarrow> False)"

definition loopbackEndpoint :: "gostring \<Rightarrow> gostring" where
  "loopbackEndpoint endpoint =
     (case splitHostPort endpoint of
        Inl _ \<Rightarrow> endpoint
      | Inr (host, port) \<Rightarrow>
          joinHostPort (if wildcardHost host \<or> host = ''[::]'' then ''127.0.0.1'' else host) port)"

text \<open>The source of a request, by its remote address.\<close>

definition requestSource :: "gostring \<Rightarrow> gostring" where
  "requestSource remoteAddr = (case splitHostPort remoteAddr of Inr (host, _) \<Rightarrow> host | Inl _ \<Rightarrow> remoteAddr)"

definition isLoopbackRequest :: "gostring \<Rightarrow> bool" where
  "isLoopbackRequest remoteAddr \<longleftrightarrow>
     (let host = requestSource remoteAddr
      in host = ''localhost'' \<or> (case parseIP host of None \<Rightarrow> False | Some a \<Rightarrow> isLoopbackIP a))"

end
