(* ===== verification/CoordTypes.thy ===== *)
theory CoordTypes
  imports NetAddr
begin

text \<open>
  The coordinator's data (src/internal/app/coordinator_types.go, connection_types.go): limits, the
  records exchanged with nodes and kept in \<open>coordinatorState\<close>, and the \<open>registry\<close> that owns
  the state. A field is named after the Go field, with the initials of its struct in front. Three
  fields of the registry stand for what the Go struct reaches outside itself: the files its path
  names, and the channels \<open>make\<close> and \<open>close\<close> act on.
\<close>

section \<open>Limits\<close>

definition handshakeLifetime :: duration where "handshakeLifetime = 10 * nminute"
definition maxPendingHandshakes :: nat where "maxPendingHandshakes = 1024"
definition maxPendingPerSource :: nat where "maxPendingPerSource = 10"
definition maxHandshakeHistory :: nat where "maxHandshakeHistory = 10000"
definition maxAuditEvents :: nat where "maxAuditEvents = 10000"
definition deviceCodeAttempts :: nat where "deviceCodeAttempts = 32"
definition publicRequestsPerMinute :: int where "publicRequestsPerMinute = 120"
definition adminRequestsPerMinute :: int where "adminRequestsPerMinute = 120"
definition directCandidateLease :: duration where "directCandidateLease = 90 * nsecond"
definition maxDirectCandidates :: nat where "maxDirectCandidates = 16"
definition maxEnrollmentReason :: nat where "maxEnrollmentReason = 512"

definition connectionRequestLifetime :: duration where "connectionRequestLifetime = 2 * nminute"
definition connectionOfferLease :: duration where "connectionOfferLease = 15 * nsecond"
definition connectionWaitMaximum :: duration where "connectionWaitMaximum = 25 * nsecond"
definition maxConnectionRequests :: int where "maxConnectionRequests = 10000"
definition maxConnectionsPerTarget :: nat where "maxConnectionsPerTarget = 128"
definition maxInboxEvents :: int where "maxInboxEvents = 32"
definition maxConnectionReason :: nat where "maxConnectionReason = 512"

lemmas limit_defs = handshakeLifetime_def maxPendingHandshakes_def maxPendingPerSource_def
  maxHandshakeHistory_def maxAuditEvents_def deviceCodeAttempts_def publicRequestsPerMinute_def
  adminRequestsPerMinute_def directCandidateLease_def maxDirectCandidates_def
  maxEnrollmentReason_def connectionRequestLifetime_def connectionOfferLease_def
  connectionWaitMaximum_def maxConnectionRequests_def maxConnectionsPerTarget_def
  maxInboxEvents_def maxConnectionReason_def

section \<open>Records\<close>

record nodeCredential =
  ncPublicKey :: gostring
  ncPrivateKey :: gostring

record enrollmentState =
  esRequestID :: gostring
  esSecret :: gostring
  esDeviceCode :: gostring
  esExpiresAt :: time
  esStatus :: gostring
  esCredential :: "nodeCredential option"

record directCandidate =
  dcAddress :: gostring
  dcExpiresAt :: time

record publishedService =
  svNodeID :: gostring
  svName :: gostring
  svSegment :: gostring
  svDirectCandidates :: "directCandidate list"
  svUUID :: gostring
  svPinnedSHA256 :: gostring

record relayAdvertisement =
  raEndpoint :: gostring
  raPinnedSHA256 :: gostring
  raPriority :: int

record discoveredNode =
  dnID :: gostring
  dnName :: gostring
  dnRole :: gostring
  dnSegment :: gostring
  dnVirtualNetwork :: gostring
  dnIdentityKey :: gostring
  dnServices :: "publishedService list"
  dnRelay :: "relayAdvertisement option"
  dnUpstreamRelay :: gostring
  dnLastSeen :: time

record discoveryRequest =
  drNode :: discoveredNode
  drPublicKey :: gostring

record pendingHandshake =
  phRequestID :: gostring
  phSecretHash :: gostring
  phDeviceCode :: gostring
  phNode :: discoveredNode
  phPublicKey :: gostring
  phSource :: gostring
  phExpiresAt :: time
  phApproved :: bool
  phRejected :: bool

record authorizedNode =
  auPublicKey :: gostring

record handshakeHistory =
  hhRequestID :: gostring
  hhDeviceCode :: gostring
  hhNode :: discoveredNode
  hhStatusCode :: int
  hhReason :: gostring
  hhCreatedAt :: time
  hhExpiresAt :: time
  hhHandledAt :: time

record auditEvent =
  aeTime :: time
  aeAction :: gostring
  aeNodeID :: gostring
  aeNodeName :: gostring
  aeRequestID :: gostring
  aeSource :: gostring

type_synonym uint64 = "64 word"

record connectionRequest =
  crID :: gostring
  crIdempotencyKey :: gostring
  crSourceNode :: gostring
  crTargetNode :: gostring
  crService :: gostring
  crReturnRelay :: gostring
  crState :: gostring
  crStatusCode :: int
  crReason :: gostring
  crCursor :: uint64
  crCreatedAt :: time
  crUpdatedAt :: time
  crExpiresAt :: time
  crOfferLeaseEnds :: time

record createConnectionInput =
  ciIdempotencyKey :: gostring
  ciTargetNode :: gostring
  ciService :: gostring
  ciReturnRelay :: gostring

record connectionIDInput =
  idRequestID :: gostring
  idReason :: gostring

record inboxWaitInput =
  iwAfterCursor :: uint64
  iwWaitSeconds :: int
  iwMaxEvents :: int

record connectionStatusWaitInput =
  swRequestID :: gostring
  swKnownState :: gostring
  swWaitSeconds :: int

record approveRequest =
  arDeviceCode :: gostring
  arReplace :: bool
  arReason :: gostring

text \<open>Zero values, which Go reads for a missing map entry.\<close>

definition zeroNode :: discoveredNode where
  "zeroNode = \<lparr>dnID = '''', dnName = '''', dnRole = '''', dnSegment = '''', dnVirtualNetwork = '''',
     dnIdentityKey = '''', dnServices = [], dnRelay = None, dnUpstreamRelay = '''', dnLastSeen = 0\<rparr>"

definition zeroHistory :: handshakeHistory where
  "zeroHistory = \<lparr>hhRequestID = '''', hhDeviceCode = '''', hhNode = zeroNode, hhStatusCode = 0,
     hhReason = '''', hhCreatedAt = 0, hhExpiresAt = 0, hhHandledAt = 0\<rparr>"

definition zeroService :: publishedService where
  "zeroService = \<lparr>svNodeID = '''', svName = '''', svSegment = '''', svDirectCandidates = [],
     svUUID = '''', svPinnedSHA256 = ''''\<rparr>"

section \<open>State\<close>

record coordinatorState =
  csPending :: "(gostring, pendingHandshake) gomap"
  csHistory :: "(gostring, handshakeHistory) gomap"
  csAuthorized :: "(gostring, authorizedNode) gomap"
  csNodes :: "(gostring, discoveredNode) gomap"
  csRevision :: uint64
  csConnections :: "(gostring, connectionRequest) gomap"
  csConnectionIdempotency :: "(gostring, gostring) gomap"
  csConnectionCursors :: "(gostring, uint64) gomap"
  csConnectionAcks :: "(gostring, uint64) gomap"
  csAudit :: "auditEvent list"

definition emptyState :: coordinatorState where
  "emptyState = \<lparr>csPending = [], csHistory = [], csAuthorized = [], csNodes = [], csRevision = 0,
     csConnections = [], csConnectionIdempotency = [], csConnectionCursors = [],
     csConnectionAcks = [], csAudit = []\<rparr>"

record rateWindow =
  rwStarted :: time
  rwCount :: int

text \<open>A file holds a state that was written whole, or bytes that are not one.\<close>

datatype stateFile = StateFile coordinatorState | TornFile

record registry =
  path :: gostring
  adminToken :: gostring
  network :: gostring
  state :: coordinatorState
  nonces :: "(gostring, time) gomap"
  rates :: "(gostring, rateWindow) gomap"
  connectionSignals :: "(gostring, nat) gomap"
  requestSignals :: "(gostring, nat) gomap"
  inboxWaiters :: "(gostring, bool) gomap"
  connectionWait :: duration
  connectionTTL :: duration
  connectionLease :: duration
  connectionMax :: int
  disk :: "gostring \<Rightarrow> stateFile option"
  nextChan :: nat
  closedChans :: "nat list"
  panicked :: bool

text \<open>
  \<open>newRegistry\<close>: an empty state, or the one the file holds (\<open>json.Unmarshal\<close> of what
  \<open>persistLocked\<close> marshalled); a file that does not parse is an error.
\<close>

definition freshRegistry :: "(gostring \<Rightarrow> stateFile option) \<Rightarrow> gostring \<Rightarrow> gostring \<Rightarrow> gostring \<Rightarrow> registry" where
  "freshRegistry files p token net =
     \<lparr>path = p, adminToken = token, network = net, state = emptyState, nonces = [],
      rates = [], connectionSignals = [], requestSignals = [], inboxWaiters = [],
      connectionWait = connectionWaitMaximum, connectionTTL = connectionRequestLifetime,
      connectionLease = connectionOfferLease, connectionMax = maxConnectionRequests,
      disk = files, nextChan = 0, closedChans = [], panicked = False\<rparr>"

definition newRegistry :: "(gostring \<Rightarrow> stateFile option) \<Rightarrow> gostring \<Rightarrow> gostring \<Rightarrow> gostring \<Rightarrow> gostring + registry" where
  "newRegistry files p token net =
     (let r = freshRegistry files p token net
      in case files p of
           None \<Rightarrow> Inr r
         | Some (StateFile st) \<Rightarrow> Inr (r\<lparr>state := st\<rparr>)
         | Some TornFile \<Rightarrow> Inl ''read coordinator state'')"

section \<open>What a request brings, and what it is answered\<close>

text \<open>
  The JSON decoders, one per target type: \<open>Unmarshal\<close> of a whole body, or (\<open>stream\<close>) the first
  value of a body, as \<open>json.NewDecoder(...).Decode\<close> reads it. They are parameters, like the
  cryptography they travel with.
\<close>

record json = lib +
  streamDiscovery :: "gostring \<Rightarrow> discoveryRequest option"
  streamPoll :: "gostring \<Rightarrow> (gostring \<times> gostring) option"
  streamApprove :: "gostring \<Rightarrow> approveRequest option"
  streamRevoke :: "gostring \<Rightarrow> gostring option"
  jsonDiscovery :: "gostring \<Rightarrow> discoveryRequest option"
  jsonSync :: "gostring \<Rightarrow> uint64 option"
  jsonCreate :: "gostring \<Rightarrow> createConnectionInput option"
  jsonWait :: "gostring \<Rightarrow> inboxWaitInput option"
  jsonAck :: "gostring \<Rightarrow> uint64 option"
  jsonID :: "gostring \<Rightarrow> connectionIDInput option"
  jsonStatus :: "gostring \<Rightarrow> connectionStatusWaitInput option"

definition sampleJson :: json where
  "sampleJson = lib.extend sampleLib
     \<lparr>streamDiscovery = (\<lambda>_. None), streamPoll = (\<lambda>_. None), streamApprove = (\<lambda>_. None),
      streamRevoke = (\<lambda>_. None), jsonDiscovery = (\<lambda>_. None), jsonSync = (\<lambda>_. None),
      jsonCreate = (\<lambda>_. None), jsonWait = (\<lambda>_. None), jsonAck = (\<lambda>_. None), jsonID = (\<lambda>_. None),
      jsonStatus = (\<lambda>_. None)\<rparr>"

record httpRequest =
  rqMethod :: gostring
  rqPath :: gostring
  rqRemoteAddr :: gostring
  rqNode :: gostring
  rqTime :: gostring
  rqNonce :: gostring
  rqSignature :: gostring
  rqAuthorization :: gostring
  rqStatusQuery :: gostring
  rqBody :: gostring
  rqBodyFails :: bool

datatype payload =
    EnrollmentPayload enrollmentState
  | PollPayload gostring time gostring
  | HandshakesPayload "handshakeHistory list"
  | AuditPayload "auditEvent list"
  | ApprovedPayload gostring time
  | RejectedPayload gostring
  | RevokedPayload gostring
  | DiscoveryPayload uint64 bool "discoveredNode list"
  | HeartbeatPayload uint64 time
  | ConnectionPayload connectionRequest
  | InboxPayload uint64 "connectionRequest list"
  | AckPayload uint64

datatype response = HttpError gostring int | WriteJSON int payload

text \<open>
  The environment of one request: the successive readings of the clock (and, for the audit events
  a loop appends, the reading taken for each request id), the bytes of the successive reads of the
  random source, the outcome of the successive writes of the state file, and the order in
  which the successive range loops visit the keys of a map.
\<close>

datatype writeOutcome = WroteFile | MkdirFails | MarshalFails | WriteFails | RenameFails

record env =
  clock :: "nat \<Rightarrow> time"
  auditClock :: "gostring \<Rightarrow> time"
  entropy :: "nat \<Rightarrow> gostring"
  writes :: "nat \<Rightarrow> writeOutcome"
  visit :: "nat \<Rightarrow> gostring list \<Rightarrow> gostring list"

end
