(* ===== verification/RegistryOps.thy ===== *)
theory RegistryOps
  imports CoordTypes
begin

text \<open>
  What every handler of the coordinator calls under the registry's lock: the rate limiter
  (src/internal/app/coordinator_http.go), the bounded audit log and the write-and-rename of the
  state file (coordinator_nodes.go), and the wake-up channels of the long polls
  (connection_server.go).
\<close>

definition updState :: "(coordinatorState \<Rightarrow> coordinatorState) \<Rightarrow> registry \<Rightarrow> registry" where
  "updState f r = r\<lparr>state := f (state r)\<rparr>"

lemma updState_sel [simp]:
  "path (updState f r) = path r" "adminToken (updState f r) = adminToken r"
  "network (updState f r) = network r" "state (updState f r) = f (state r)"
  "nonces (updState f r) = nonces r" "rates (updState f r) = rates r"
  "connectionSignals (updState f r) = connectionSignals r"
  "requestSignals (updState f r) = requestSignals r" "inboxWaiters (updState f r) = inboxWaiters r"
  "connectionWait (updState f r) = connectionWait r" "connectionTTL (updState f r) = connectionTTL r"
  "connectionLease (updState f r) = connectionLease r" "connectionMax (updState f r) = connectionMax r"
  "disk (updState f r) = disk r" "nextChan (updState f r) = nextChan r"
  "closedChans (updState f r) = closedChans r" "panicked (updState f r) = panicked r"
  by (simp_all add: updState_def)

section \<open>Rate limiting\<close>

definition allowRequestLocked :: "gostring \<Rightarrow> int \<Rightarrow> time \<Rightarrow> registry \<Rightarrow> bool \<times> registry" where
  "allowRequestLocked key limit now r =
     (let w0 = mgetz \<lparr>rwStarted = 0, rwCount = 0\<rparr> (rates r) key;
          w = (if rwStarted w0 = 0 \<or> nminute \<le> timeSub now (rwStarted w0)
               then \<lparr>rwStarted = now, rwCount = 0\<rparr> else w0)
      in if limit \<le> rwCount w then (False, r)
         else (True, r\<lparr>rates := mput key (w\<lparr>rwCount := rwCount w + 1\<rparr>) (rates r)\<rparr>))"

definition allowRequest :: "env \<Rightarrow> time \<Rightarrow> gostring \<Rightarrow> int \<Rightarrow> registry \<Rightarrow> bool \<times> registry" where
  "allowRequest E now key limit r =
     (let prune = (\<lambda>k m. case mget m k of
                     None \<Rightarrow> m
                   | Some w \<Rightarrow> if 2 * nminute \<le> timeSub now (rwStarted w) then mdel k m else m);
          rs = (if 4096 < length (rates r) then fold prune (rangeKeys (visit E 0) (rates r)) (rates r)
                else rates r)
      in allowRequestLocked key limit now (r\<lparr>rates := rs\<rparr>))"

section \<open>Audit log and persistence\<close>

definition appendAuditLocked :: "time \<Rightarrow> auditEvent \<Rightarrow> registry \<Rightarrow> registry" where
  "appendAuditLocked now event0 r =
     (let event = (if aeTime event0 = 0 then event0\<lparr>aeTime := now\<rparr> else event0);
          audit = csAudit (state r) @ [event]
      in updState (csAudit_update (\<lambda>_.
           if maxAuditEvents < length audit then drop (length audit - maxAuditEvents) audit else audit)) r)"

text \<open>
  The state goes to a temporary file that replaces the state file by a rename; the result is
  whether the error is nil.
\<close>

definition persistLocked :: "writeOutcome \<Rightarrow> registry \<Rightarrow> bool \<times> registry" where
  "persistLocked outcome r =
     (let tmp = path r @ ''.new''
      in case outcome of
           MkdirFails \<Rightarrow> (False, r)
         | MarshalFails \<Rightarrow> (False, r)
         | WriteFails \<Rightarrow> (False, r\<lparr>disk := (disk r)(tmp := Some TornFile)\<rparr>)
         | RenameFails \<Rightarrow> (False, r\<lparr>disk := (disk r)(tmp := Some (StateFile (state r)))\<rparr>)
         | WroteFile \<Rightarrow>
             (True, r\<lparr>disk := ((disk r)(tmp := None))(path r := Some (StateFile (state r)))\<rparr>))"

section \<open>Wake-up channels\<close>

text \<open>Closing a closed channel panics.\<close>

definition closeChan :: "nat \<Rightarrow> registry \<Rightarrow> registry" where
  "closeChan c r =
     (if c \<in> set (closedChans r) then r\<lparr>panicked := True\<rparr> else r\<lparr>closedChans := c # closedChans r\<rparr>)"

definition targetSignalLocked :: "gostring \<Rightarrow> registry \<Rightarrow> nat \<times> registry" where
  "targetSignalLocked nodeID r =
     (case mget (connectionSignals r) nodeID of
        Some c \<Rightarrow> (c, r)
      | None \<Rightarrow> (nextChan r, r\<lparr>nextChan := Suc (nextChan r),
                              connectionSignals := mput nodeID (nextChan r) (connectionSignals r)\<rparr>))"

definition requestSignalLocked :: "gostring \<Rightarrow> registry \<Rightarrow> nat \<times> registry" where
  "requestSignalLocked requestID r =
     (case mget (requestSignals r) requestID of
        Some c \<Rightarrow> (c, r)
      | None \<Rightarrow> (nextChan r, r\<lparr>nextChan := Suc (nextChan r),
                              requestSignals := mput requestID (nextChan r) (requestSignals r)\<rparr>))"

definition notifyTargetLocked :: "gostring \<Rightarrow> registry \<Rightarrow> registry" where
  "notifyTargetLocked nodeID r =
     (case mget (connectionSignals r) nodeID of
        None \<Rightarrow> r
      | Some c \<Rightarrow> (closeChan c r)\<lparr>connectionSignals := mdel nodeID (connectionSignals r)\<rparr>)"

definition notifyRequestLocked :: "gostring \<Rightarrow> registry \<Rightarrow> registry" where
  "notifyRequestLocked requestID r =
     (case mget (requestSignals r) requestID of
        None \<Rightarrow> r
      | Some c \<Rightarrow> (closeChan c r)\<lparr>requestSignals := mdel requestID (requestSignals r)\<rparr>)"

definition connectionTerminal :: "gostring \<Rightarrow> bool" where
  "connectionTerminal st \<longleftrightarrow>
     st \<in> {''accepted'', ''rejected'', ''canceled'', ''expired'', ''closed'', ''failed''}"

section \<open>Frames\<close>

text \<open>Each operation leaves alone every field but the ones named in its definition.\<close>

lemma allowRequestLocked_frame [simp]:
  "state (snd (allowRequestLocked key limit now r)) = state r"
  "disk (snd (allowRequestLocked key limit now r)) = disk r"
  "path (snd (allowRequestLocked key limit now r)) = path r"
  "network (snd (allowRequestLocked key limit now r)) = network r"
  "adminToken (snd (allowRequestLocked key limit now r)) = adminToken r"
  "nonces (snd (allowRequestLocked key limit now r)) = nonces r"
  "connectionSignals (snd (allowRequestLocked key limit now r)) = connectionSignals r"
  "requestSignals (snd (allowRequestLocked key limit now r)) = requestSignals r"
  "inboxWaiters (snd (allowRequestLocked key limit now r)) = inboxWaiters r"
  "closedChans (snd (allowRequestLocked key limit now r)) = closedChans r"
  "nextChan (snd (allowRequestLocked key limit now r)) = nextChan r"
  "panicked (snd (allowRequestLocked key limit now r)) = panicked r"
  "connectionMax (snd (allowRequestLocked key limit now r)) = connectionMax r"
  "connectionTTL (snd (allowRequestLocked key limit now r)) = connectionTTL r"
  "connectionLease (snd (allowRequestLocked key limit now r)) = connectionLease r"
  "connectionWait (snd (allowRequestLocked key limit now r)) = connectionWait r"
  by (simp_all add: allowRequestLocked_def Let_def)

lemma allowRequest_frame [simp]:
  "state (snd (allowRequest E now key limit r)) = state r"
  "disk (snd (allowRequest E now key limit r)) = disk r"
  "path (snd (allowRequest E now key limit r)) = path r"
  "nonces (snd (allowRequest E now key limit r)) = nonces r"
  "connectionSignals (snd (allowRequest E now key limit r)) = connectionSignals r"
  "requestSignals (snd (allowRequest E now key limit r)) = requestSignals r"
  "closedChans (snd (allowRequest E now key limit r)) = closedChans r"
  "nextChan (snd (allowRequest E now key limit r)) = nextChan r"
  "panicked (snd (allowRequest E now key limit r)) = panicked r"
  "network (snd (allowRequest E now key limit r)) = network r"
  "adminToken (snd (allowRequest E now key limit r)) = adminToken r"
  by (simp_all add: allowRequest_def Let_def)

lemma appendAuditLocked_state [simp]:
  "csPending (state (appendAuditLocked t e r)) = csPending (state r)"
  "csHistory (state (appendAuditLocked t e r)) = csHistory (state r)"
  "csAuthorized (state (appendAuditLocked t e r)) = csAuthorized (state r)"
  "csNodes (state (appendAuditLocked t e r)) = csNodes (state r)"
  "csRevision (state (appendAuditLocked t e r)) = csRevision (state r)"
  "csConnections (state (appendAuditLocked t e r)) = csConnections (state r)"
  "csConnectionIdempotency (state (appendAuditLocked t e r)) = csConnectionIdempotency (state r)"
  "csConnectionCursors (state (appendAuditLocked t e r)) = csConnectionCursors (state r)"
  "csConnectionAcks (state (appendAuditLocked t e r)) = csConnectionAcks (state r)"
  by (simp_all add: appendAuditLocked_def Let_def)

lemma appendAuditLocked_frame [simp]:
  "path (appendAuditLocked t e r) = path r" "adminToken (appendAuditLocked t e r) = adminToken r"
  "network (appendAuditLocked t e r) = network r" "nonces (appendAuditLocked t e r) = nonces r"
  "rates (appendAuditLocked t e r) = rates r"
  "connectionSignals (appendAuditLocked t e r) = connectionSignals r"
  "requestSignals (appendAuditLocked t e r) = requestSignals r"
  "inboxWaiters (appendAuditLocked t e r) = inboxWaiters r"
  "connectionWait (appendAuditLocked t e r) = connectionWait r"
  "connectionTTL (appendAuditLocked t e r) = connectionTTL r"
  "connectionLease (appendAuditLocked t e r) = connectionLease r"
  "connectionMax (appendAuditLocked t e r) = connectionMax r"
  "disk (appendAuditLocked t e r) = disk r" "nextChan (appendAuditLocked t e r) = nextChan r"
  "closedChans (appendAuditLocked t e r) = closedChans r" "panicked (appendAuditLocked t e r) = panicked r"
  by (simp_all add: appendAuditLocked_def Let_def)

lemma persistLocked_frame [simp]:
  "state (snd (persistLocked out r)) = state r" "path (snd (persistLocked out r)) = path r"
  "adminToken (snd (persistLocked out r)) = adminToken r" "network (snd (persistLocked out r)) = network r"
  "nonces (snd (persistLocked out r)) = nonces r" "rates (snd (persistLocked out r)) = rates r"
  "connectionSignals (snd (persistLocked out r)) = connectionSignals r"
  "requestSignals (snd (persistLocked out r)) = requestSignals r"
  "inboxWaiters (snd (persistLocked out r)) = inboxWaiters r"
  "connectionWait (snd (persistLocked out r)) = connectionWait r"
  "connectionTTL (snd (persistLocked out r)) = connectionTTL r"
  "connectionLease (snd (persistLocked out r)) = connectionLease r"
  "connectionMax (snd (persistLocked out r)) = connectionMax r"
  "nextChan (snd (persistLocked out r)) = nextChan r" "closedChans (snd (persistLocked out r)) = closedChans r"
  "panicked (snd (persistLocked out r)) = panicked r"
  by (simp_all add: persistLocked_def Let_def split: writeOutcome.splits)

lemma notify_frame [simp]:
  "state (notifyTargetLocked n r) = state r" "state (notifyRequestLocked n r) = state r"
  "disk (notifyTargetLocked n r) = disk r" "disk (notifyRequestLocked n r) = disk r"
  "path (notifyTargetLocked n r) = path r" "path (notifyRequestLocked n r) = path r"
  "network (notifyTargetLocked n r) = network r" "network (notifyRequestLocked n r) = network r"
  "adminToken (notifyTargetLocked n r) = adminToken r" "adminToken (notifyRequestLocked n r) = adminToken r"
  "nonces (notifyTargetLocked n r) = nonces r" "nonces (notifyRequestLocked n r) = nonces r"
  "rates (notifyTargetLocked n r) = rates r" "rates (notifyRequestLocked n r) = rates r"
  "inboxWaiters (notifyTargetLocked n r) = inboxWaiters r" "inboxWaiters (notifyRequestLocked n r) = inboxWaiters r"
  "connectionWait (notifyTargetLocked n r) = connectionWait r" "connectionWait (notifyRequestLocked n r) = connectionWait r"
  "connectionTTL (notifyTargetLocked n r) = connectionTTL r" "connectionTTL (notifyRequestLocked n r) = connectionTTL r"
  "connectionLease (notifyTargetLocked n r) = connectionLease r" "connectionLease (notifyRequestLocked n r) = connectionLease r"
  "connectionMax (notifyTargetLocked n r) = connectionMax r" "connectionMax (notifyRequestLocked n r) = connectionMax r"
  "nextChan (notifyTargetLocked n r) = nextChan r" "nextChan (notifyRequestLocked n r) = nextChan r"
  "requestSignals (notifyTargetLocked n r) = requestSignals r"
  "connectionSignals (notifyRequestLocked n r) = connectionSignals r"
  by (simp_all add: notifyTargetLocked_def notifyRequestLocked_def closeChan_def split: option.splits)

lemma signal_frame [simp]:
  "state (snd (targetSignalLocked n r)) = state r" "state (snd (requestSignalLocked n r)) = state r"
  "disk (snd (targetSignalLocked n r)) = disk r" "disk (snd (requestSignalLocked n r)) = disk r"
  "path (snd (targetSignalLocked n r)) = path r" "path (snd (requestSignalLocked n r)) = path r"
  "inboxWaiters (snd (targetSignalLocked n r)) = inboxWaiters r"
  "inboxWaiters (snd (requestSignalLocked n r)) = inboxWaiters r"
  "closedChans (snd (targetSignalLocked n r)) = closedChans r"
  "closedChans (snd (requestSignalLocked n r)) = closedChans r"
  "panicked (snd (targetSignalLocked n r)) = panicked r" "panicked (snd (requestSignalLocked n r)) = panicked r"
  "requestSignals (snd (targetSignalLocked n r)) = requestSignals r"
  "connectionSignals (snd (requestSignalLocked n r)) = connectionSignals r"
  by (simp_all add: targetSignalLocked_def requestSignalLocked_def split: option.splits)

section \<open>How much the rate limiter lets through\<close>

text \<open>The decisions on a sequence of requests of one key, at the given instants.\<close>

fun rateRun :: "gostring \<Rightarrow> int \<Rightarrow> time list \<Rightarrow> registry \<Rightarrow> bool list" where
  "rateRun key limit [] r = []"
| "rateRun key limit (t # ts) r =
     (case allowRequestLocked key limit t r of (b, r') \<Rightarrow> b # rateRun key limit ts r')"

definition granted :: "bool list \<Rightarrow> int" where
  "granted bs = int (length (filter (\<lambda>b. b) bs))"

lemma granted_simps [simp]: "granted [] = 0" "granted (b # bs) = (if b then 1 else 0) + granted bs"
  by (simp_all add: granted_def)

definition windowOf :: "registry \<Rightarrow> gostring \<Rightarrow> rateWindow" where
  "windowOf r key = mgetz \<lparr>rwStarted = 0, rwCount = 0\<rparr> (rates r) key"

text \<open>A window that the whole sequence falls into grants what is left of its limit.\<close>

lemma granted_in_window:
  assumes "0 < a" and "\<forall>t \<in> set ts. t < a + nminute"
    and "a \<le> rwStarted (windowOf r key)" and "rwCount (windowOf r key) \<le> limit"
  shows "granted (rateRun key limit ts r) \<le> limit - rwCount (windowOf r key)"
  using assms
proof (induction ts arbitrary: r)
  case (Cons t ts)
  let ?w = "windowOf r key"
  have fresh: "\<not> (rwStarted ?w = 0 \<or> nminute \<le> timeSub t (rwStarted ?w))"
    using Cons.prems by (auto simp: timeSub_ge time_units)
  show ?case
  proof (cases "limit \<le> rwCount ?w")
    case True
    have "granted (rateRun key limit ts r) \<le> limit - rwCount ?w"
      using Cons.prems by (intro Cons.IH) auto
    with fresh True show ?thesis
      by (simp add: allowRequestLocked_def windowOf_def [symmetric] Let_def)
  next
    case False
    define r' where "r' = r\<lparr>rates := mput key (?w\<lparr>rwCount := rwCount ?w + 1\<rparr>) (rates r)\<rparr>"
    have w': "windowOf r' key = ?w\<lparr>rwCount := rwCount ?w + 1\<rparr>"
      by (simp add: r'_def windowOf_def mgetz_def)
    have "granted (rateRun key limit ts r') \<le> limit - rwCount (windowOf r' key)"
      using Cons.prems False by (intro Cons.IH) (auto simp: w')
    with fresh False show ?thesis
      by (simp add: allowRequestLocked_def windowOf_def [symmetric] Let_def r'_def [symmetric] w')
  qed
qed simp

lemma granted_bound:
  assumes "0 < a" and "\<forall>t \<in> set ts. a \<le> t \<and> t < a + nminute" and "0 \<le> limit"
    and "0 \<le> rwCount (windowOf r key)"
  shows "granted (rateRun key limit ts r) \<le> max 0 (limit - rwCount (windowOf r key)) + limit"
  using assms(2,4)
proof (induction ts arbitrary: r)
  case Nil
  with assms(3) show ?case by simp
next
  case (Cons t ts)
  let ?w = "windowOf r key"
  show ?case
  proof (cases "rwStarted ?w = 0 \<or> nminute \<le> timeSub t (rwStarted ?w)")
    case True
    define r' where "r' = r\<lparr>rates := mput key \<lparr>rwStarted = t, rwCount = 1\<rparr> (rates r)\<rparr>"
    have w': "windowOf r' key = \<lparr>rwStarted = t, rwCount = 1\<rparr>"
      by (simp add: r'_def windowOf_def mgetz_def)
    show ?thesis
    proof (cases "limit \<le> 0")
      case True
      with \<open>rwStarted ?w = 0 \<or> _\<close> Cons assms(3) show ?thesis
        by (auto simp: allowRequestLocked_def windowOf_def Let_def)
    next
      case False
      have "granted (rateRun key limit ts r') \<le> limit - rwCount (windowOf r' key)"
        using Cons.prems assms(1) False by (intro granted_in_window [of a]) (auto simp: w')
      with True False show ?thesis
        by (simp add: allowRequestLocked_def windowOf_def [symmetric] Let_def r'_def [symmetric] w')
    qed
  next
    case False
    define r' where "r' = r\<lparr>rates := mput key (?w\<lparr>rwCount := rwCount ?w + 1\<rparr>) (rates r)\<rparr>"
    have w': "windowOf r' key = ?w\<lparr>rwCount := rwCount ?w + 1\<rparr>"
      by (simp add: r'_def windowOf_def mgetz_def)
    have ih: "granted (rateRun key limit ts r') \<le> max 0 (limit - rwCount (windowOf r' key)) + limit"
      using Cons.prems by (intro Cons.IH) (auto simp: w')
    have "granted (rateRun key limit ts r) \<le> max 0 (limit - rwCount ?w) + limit"
      using Cons.prems by (intro Cons.IH) auto
    with ih False show ?thesis
      by (auto simp: allowRequestLocked_def windowOf_def [symmetric] Let_def r'_def [symmetric] w')
  qed
qed

text \<open>C8: The rate limiter never grants one key more than twice its limit within any interval of
  one minute, whatever window it started from (a fixed window can be used up at its end and the
  next one at its beginning).\<close>

theorem rate_limit_bound:
  assumes "0 < a" and "\<forall>t \<in> set ts. a \<le> t \<and> t < a + nminute" and "0 \<le> limit"
    and "0 \<le> rwCount (windowOf r key)"
  shows "granted (rateRun key limit ts r) \<le> 2 * limit"
  using granted_bound [OF assms] assms(3,4) by linarith

theorem rate_limit_bound_witness:
  "granted (rateRun ''admin:127.0.0.1'' 1 [7, 8, 9] (freshRegistry (\<lambda>_. None) ''s'' ''t'' ''n'')) \<le> 2
   \<and> rateRun ''admin:127.0.0.1'' 1 [7, 8, 9] (freshRegistry (\<lambda>_. None) ''s'' ''t'' ''n'') = [True, False, False]"
proof -
  let ?r = "freshRegistry (\<lambda>_. None) ''s'' ''t'' ''n''"
  have "granted (rateRun ''admin:127.0.0.1'' 1 [7, 8, 9] ?r) \<le> 2 * 1"
    by (rule rate_limit_bound [of 7]) (simp_all add: time_units windowOf_def mgetz_def freshRegistry_def)
  moreover have "rateRun ''admin:127.0.0.1'' 1 [7, 8, 9] ?r = [True, False, False]"
    by (simp add: allowRequestLocked_def Let_def mgetz_def freshRegistry_def time_units timeSub_def)
  ultimately show ?thesis by simp
qed

end
