(* ===== verification/Cleanup.thy ===== *)
theory Cleanup
  imports RegistryOps
begin

text \<open>
  \<open>cleanupLocked\<close> (src/internal/app/coordinator_nodes.go): the sweep that every handler runs
  before it looks at the state. Each of its range loops is one loop body, folded over the keys in
  the order the environment visits them; the flag beside the registry is the result \<open>changed\<close>.
\<close>

type_synonym sweep = "registry \<times> bool"

section \<open>The loop bodies\<close>

definition expirePending :: "env \<Rightarrow> time \<Rightarrow> gostring \<Rightarrow> sweep \<Rightarrow> sweep" where
  "expirePending E now rid rc =
     (case rc of (r, changed) \<Rightarrow>
       case mget (csPending (state r)) rid of
         None \<Rightarrow> (r, changed)
       | Some pending \<Rightarrow>
           if phExpiresAt pending < now then
             let r1 = updState (csPending_update (mdel rid)) r;
                 history = mgetz zeroHistory (csHistory (state r1)) rid
             in if hhStatusCode history = 100 \<or> hhStatusCode history = 200 then
                  (appendAuditLocked (auditClock E rid)
                     \<lparr>aeTime = 0, aeAction = ''enrollment_expired'', aeNodeID = dnID (phNode pending),
                      aeNodeName = dnName (phNode pending), aeRequestID = rid, aeSource = ''''\<rparr>
                     (updState (csHistory_update (mput rid
                        (history\<lparr>hhStatusCode := 410, hhHandledAt := now\<rparr>))) r1), True)
                else (r1, True)
           else (r, changed))"

definition activeCandidates :: "time \<Rightarrow> publishedService \<Rightarrow> directCandidate list" where
  "activeCandidates now service = filter (\<lambda>c. now < dcExpiresAt c) (svDirectCandidates service)"

definition sweepNode :: "time \<Rightarrow> gostring \<Rightarrow> sweep \<Rightarrow> sweep" where
  "sweepNode now nid rc =
     (case rc of (r, changed) \<Rightarrow>
       case mget (csNodes (state r)) nid of
         None \<Rightarrow> (r, changed)
       | Some node \<Rightarrow>
           if dnLastSeen node < now - 2 * nminute then
             (updState (\<lambda>s. s\<lparr>csNodes := mdel nid (csNodes s), csRevision := csRevision s + 1\<rparr>) r, True)
           else if \<exists>service \<in> set (dnServices node).
                     length (activeCandidates now service) \<noteq> length (svDirectCandidates service) then
             (updState (\<lambda>s. s\<lparr>
                csNodes := mput nid (node\<lparr>dnServices := map (\<lambda>service.
                             service\<lparr>svDirectCandidates := activeCandidates now service\<rparr>)
                             (dnServices node)\<rparr>) (csNodes s),
                csRevision := csRevision s + 1\<rparr>) r, True)
           else (r, changed))"

definition expiredConnection :: "time \<Rightarrow> connectionRequest \<Rightarrow> connectionRequest" where
  "expiredConnection now c =
     c\<lparr>crState := ''expired'', crStatusCode := 410, crReason := ''request expired'',
       crUpdatedAt := now, crOfferLeaseEnds := 0\<rparr>"

definition requeuedConnection :: "time \<Rightarrow> uint64 \<Rightarrow> connectionRequest \<Rightarrow> connectionRequest" where
  "requeuedConnection now cursor c =
     c\<lparr>crState := ''queued'', crStatusCode := 100, crCursor := cursor, crUpdatedAt := now,
       crOfferLeaseEnds := 0\<rparr>"

definition idempotencyIndex :: "gostring \<Rightarrow> gostring \<Rightarrow> gostring" where
  "idempotencyIndex sourceNode key = sourceNode @ [CHR 0x00] @ key"

definition sweepConnection :: "time \<Rightarrow> gostring \<Rightarrow> sweep \<Rightarrow> sweep" where
  "sweepConnection now cid rc =
     (case rc of (r, changed) \<Rightarrow>
       case mget (csConnections (state r)) cid of
         None \<Rightarrow> (r, changed)
       | Some c \<Rightarrow>
           if \<not> connectionTerminal (crState c) \<and> crExpiresAt c < now then
             (notifyRequestLocked cid (notifyTargetLocked (crTargetNode c)
                (updState (csConnections_update (mput cid (expiredConnection now c))) r)), True)
           else if crState c = ''offered'' \<and> crOfferLeaseEnds c \<noteq> 0 \<and> crOfferLeaseEnds c < now then
             let cursor = mgetz 0 (csConnectionCursors (state r)) (crTargetNode c) + 1
             in (notifyRequestLocked cid (notifyTargetLocked (crTargetNode c)
                   (updState (\<lambda>s. s\<lparr>
                      csConnectionCursors := mput (crTargetNode c) cursor (csConnectionCursors s),
                      csConnections := mput cid (requeuedConnection now cursor c) (csConnections s)\<rparr>) r)), True)
           else if connectionTerminal (crState c) \<and> crUpdatedAt c < now - 24 * nhour then
             ((updState (\<lambda>s. s\<lparr>
                 csConnections := mdel cid (csConnections s),
                 csConnectionIdempotency := mdel (idempotencyIndex (crSourceNode c) (crIdempotencyKey c))
                                                (csConnectionIdempotency s)\<rparr>) r)
               \<lparr>requestSignals := mdel cid (requestSignals r)\<rparr>, True)
           else (r, changed))"

definition expireNonce :: "time \<Rightarrow> gostring \<Rightarrow> (gostring, time) gomap \<Rightarrow> (gostring, time) gomap" where
  "expireNonce now nonce m =
     (case mget m nonce of None \<Rightarrow> m | Some expiry \<Rightarrow> if expiry < now then mdel nonce m else m)"

definition cleanNonces :: "env \<Rightarrow> time \<Rightarrow> registry \<Rightarrow> registry" where
  "cleanNonces E now r =
     r\<lparr>nonces := fold (expireNonce now) (rangeKeys (visit E 4) (nonces r)) (nonces r)\<rparr>"

definition pruneHistory :: "env \<Rightarrow> sweep \<Rightarrow> sweep" where
  "pruneHistory E rc =
     (case rc of (r, changed) \<Rightarrow>
       if maxHandshakeHistory < length (csHistory (state r)) then
         let items = sortBy hhCreatedAt (rangeVals (visit E 5) (csHistory (state r)))
         in (updState (csHistory_update
               (fold (\<lambda>history. mdel (hhRequestID history))
                 (take (length items - maxHandshakeHistory) items))) r, True)
       else (r, changed))"

definition pendingSweep :: "env \<Rightarrow> time \<Rightarrow> registry \<Rightarrow> sweep" where
  "pendingSweep E now r =
     fold (expirePending E now) (rangeKeys (visit E 1) (csPending (state r))) (r, False)"

definition nodeSweep :: "env \<Rightarrow> time \<Rightarrow> sweep \<Rightarrow> sweep" where
  "nodeSweep E now rc =
     fold (sweepNode now) (rangeKeys (visit E 2) (csNodes (state (fst rc)))) rc"

definition connectionSweep :: "env \<Rightarrow> time \<Rightarrow> sweep \<Rightarrow> sweep" where
  "connectionSweep E now rc =
     fold (sweepConnection now) (rangeKeys (visit E 3) (csConnections (state (fst rc)))) rc"

definition cleanupLocked :: "env \<Rightarrow> time \<Rightarrow> registry \<Rightarrow> bool \<times> registry" where
  "cleanupLocked E now r0 =
     (let rc = connectionSweep E now (nodeSweep E now (pendingSweep E now r0));
          (r, changed) = pruneHistory E (cleanNonces E now (fst rc), snd rc)
      in (changed, r))"

section \<open>What each loop leaves alone\<close>

text \<open>
  A mask blanks the part of the registry a loop may touch: what the mask keeps is unchanged by
  the loop, in one equation per loop.
\<close>

definition maskEnrollment :: "registry \<Rightarrow> registry" where
  "maskEnrollment = updState (\<lambda>s. s\<lparr>csPending := [], csHistory := [], csAudit := []\<rparr>)"

definition maskNodes :: "registry \<Rightarrow> registry" where
  "maskNodes = updState (\<lambda>s. s\<lparr>csNodes := [], csRevision := 0\<rparr>)"

definition maskConnections :: "registry \<Rightarrow> registry" where
  "maskConnections r =
     (updState (\<lambda>s. s\<lparr>csConnections := [], csConnectionIdempotency := [], csConnectionCursors := []\<rparr>) r)
       \<lparr>connectionSignals := [], requestSignals := [], closedChans := [], panicked := False\<rparr>"

lemma mask_eqD: "m r = m r' \<Longrightarrow> (\<And>r. f (m r) = f r) \<Longrightarrow> f r = f r'"
  by metis

lemma maskEnrollment_frame:
  assumes "maskEnrollment r = maskEnrollment r'"
  shows "csAuthorized (state r) = csAuthorized (state r')" "csNodes (state r) = csNodes (state r')"
    "csRevision (state r) = csRevision (state r')" "csConnections (state r) = csConnections (state r')"
    "csConnectionIdempotency (state r) = csConnectionIdempotency (state r')"
    "csConnectionCursors (state r) = csConnectionCursors (state r')"
    "csConnectionAcks (state r) = csConnectionAcks (state r')" "path r = path r'"
    "adminToken r = adminToken r'" "network r = network r'" "nonces r = nonces r'" "rates r = rates r'"
    "connectionSignals r = connectionSignals r'" "requestSignals r = requestSignals r'"
    "inboxWaiters r = inboxWaiters r'" "connectionWait r = connectionWait r'"
    "connectionTTL r = connectionTTL r'" "connectionLease r = connectionLease r'"
    "connectionMax r = connectionMax r'" "disk r = disk r'" "nextChan r = nextChan r'"
    "closedChans r = closedChans r'" "panicked r = panicked r'"
  by (rule mask_eqD [of maskEnrollment, OF assms], simp add: maskEnrollment_def)+

lemma maskNodes_frame:
  assumes "maskNodes r = maskNodes r'"
  shows "csPending (state r) = csPending (state r')" "csHistory (state r) = csHistory (state r')"
    "csAuthorized (state r) = csAuthorized (state r')" "csAudit (state r) = csAudit (state r')"
    "csConnections (state r) = csConnections (state r')"
    "csConnectionIdempotency (state r) = csConnectionIdempotency (state r')"
    "csConnectionCursors (state r) = csConnectionCursors (state r')"
    "csConnectionAcks (state r) = csConnectionAcks (state r')" "path r = path r'"
    "adminToken r = adminToken r'" "network r = network r'" "nonces r = nonces r'" "rates r = rates r'"
    "connectionSignals r = connectionSignals r'" "requestSignals r = requestSignals r'"
    "inboxWaiters r = inboxWaiters r'" "connectionWait r = connectionWait r'"
    "connectionTTL r = connectionTTL r'" "connectionLease r = connectionLease r'"
    "connectionMax r = connectionMax r'" "disk r = disk r'" "nextChan r = nextChan r'"
    "closedChans r = closedChans r'" "panicked r = panicked r'"
  by (rule mask_eqD [of maskNodes, OF assms], simp add: maskNodes_def)+

lemma maskConnections_frame:
  assumes "maskConnections r = maskConnections r'"
  shows "csPending (state r) = csPending (state r')" "csHistory (state r) = csHistory (state r')"
    "csAuthorized (state r) = csAuthorized (state r')" "csAudit (state r) = csAudit (state r')"
    "csNodes (state r) = csNodes (state r')" "csRevision (state r) = csRevision (state r')"
    "csConnectionAcks (state r) = csConnectionAcks (state r')" "path r = path r'"
    "adminToken r = adminToken r'" "network r = network r'" "nonces r = nonces r'" "rates r = rates r'"
    "inboxWaiters r = inboxWaiters r'" "connectionWait r = connectionWait r'"
    "connectionTTL r = connectionTTL r'" "connectionLease r = connectionLease r'"
    "connectionMax r = connectionMax r'" "disk r = disk r'" "nextChan r = nextChan r'"
  by (rule mask_eqD [of maskConnections, OF assms], simp add: maskConnections_def)+

lemma expirePending_mask: "maskEnrollment (fst (expirePending E now k rc)) = maskEnrollment (fst rc)"
  by (auto simp: expirePending_def maskEnrollment_def appendAuditLocked_def updState_def Let_def
      split: prod.split option.split)

lemma sweepNode_mask: "maskNodes (fst (sweepNode now k rc)) = maskNodes (fst rc)"
  by (auto simp: sweepNode_def maskNodes_def updState_def split: prod.split option.split)

lemma maskConnections_simps:
  "maskConnections (notifyTargetLocked n r) = maskConnections r"
  "maskConnections (notifyRequestLocked n r) = maskConnections r"
  "maskConnections (r\<lparr>requestSignals := sigs\<rparr>) = maskConnections r"
  "maskConnections (updState (\<lambda>s. s\<lparr>csConnections := cs\<rparr>) r) = maskConnections r"
  "maskConnections (updState (csConnections_update f) r) = maskConnections r"
  "maskConnections (updState (\<lambda>s. s\<lparr>csConnectionCursors := f3 s, csConnections := f4 s\<rparr>) r) = maskConnections r"
  "maskConnections (updState (\<lambda>s. s\<lparr>csConnections := f1 s, csConnectionIdempotency := f2 s\<rparr>) r) = maskConnections r"
  by (simp_all add: maskConnections_def updState_def notifyTargetLocked_def notifyRequestLocked_def
      closeChan_def split: option.split)

lemma sweepConnection_mask: "maskConnections (fst (sweepConnection now k rc)) = maskConnections (fst rc)"
  by (simp add: sweepConnection_def maskConnections_simps Let_def split: prod.split option.split)

section \<open>The sweep, table by table\<close>

lemma cleanup_stages:
  obtains rc where "rc = connectionSweep E now (nodeSweep E now (pendingSweep E now r))"
    and "snd (cleanupLocked E now r) = fst (pruneHistory E (cleanNonces E now (fst rc), snd rc))"
  by (simp add: cleanupLocked_def Let_def split: prod.split)

lemma pendingSweep_mask: "maskEnrollment (fst (pendingSweep E now r)) = maskEnrollment r"
  unfolding pendingSweep_def
  by (subst fold_same [where f = "\<lambda>rc. maskEnrollment (fst rc)"]) (simp_all add: expirePending_mask)

lemma nodeSweep_mask: "maskNodes (fst (nodeSweep E now rc)) = maskNodes (fst rc)"
  unfolding nodeSweep_def
  by (rule fold_same [where f = "\<lambda>rc. maskNodes (fst rc)"]) (rule sweepNode_mask)

lemma connectionSweep_mask: "maskConnections (fst (connectionSweep E now rc)) = maskConnections (fst rc)"
  unfolding connectionSweep_def
  by (rule fold_same [where f = "\<lambda>rc. maskConnections (fst rc)"]) (rule sweepConnection_mask)

lemmas pendingSweep_frame = maskEnrollment_frame [OF pendingSweep_mask]
lemmas nodeSweep_frame = maskNodes_frame [OF nodeSweep_mask]
lemmas connectionSweep_frame = maskConnections_frame [OF connectionSweep_mask]

lemma cleanNonces_sel [simp]:
  "state (cleanNonces E now r) = state r" "path (cleanNonces E now r) = path r"
  "adminToken (cleanNonces E now r) = adminToken r" "network (cleanNonces E now r) = network r"
  "rates (cleanNonces E now r) = rates r" "connectionSignals (cleanNonces E now r) = connectionSignals r"
  "requestSignals (cleanNonces E now r) = requestSignals r" "inboxWaiters (cleanNonces E now r) = inboxWaiters r"
  "connectionWait (cleanNonces E now r) = connectionWait r" "connectionTTL (cleanNonces E now r) = connectionTTL r"
  "connectionLease (cleanNonces E now r) = connectionLease r" "connectionMax (cleanNonces E now r) = connectionMax r"
  "disk (cleanNonces E now r) = disk r" "nextChan (cleanNonces E now r) = nextChan r"
  "closedChans (cleanNonces E now r) = closedChans r" "panicked (cleanNonces E now r) = panicked r"
  by (simp_all add: cleanNonces_def)

lemma pruneHistory_sel [simp]:
  "csPending (state (fst (pruneHistory E rc))) = csPending (state (fst rc))"
  "csAuthorized (state (fst (pruneHistory E rc))) = csAuthorized (state (fst rc))"
  "csNodes (state (fst (pruneHistory E rc))) = csNodes (state (fst rc))"
  "csRevision (state (fst (pruneHistory E rc))) = csRevision (state (fst rc))"
  "csConnections (state (fst (pruneHistory E rc))) = csConnections (state (fst rc))"
  "csConnectionIdempotency (state (fst (pruneHistory E rc))) = csConnectionIdempotency (state (fst rc))"
  "csConnectionCursors (state (fst (pruneHistory E rc))) = csConnectionCursors (state (fst rc))"
  "csConnectionAcks (state (fst (pruneHistory E rc))) = csConnectionAcks (state (fst rc))"
  "csAudit (state (fst (pruneHistory E rc))) = csAudit (state (fst rc))"
  "path (fst (pruneHistory E rc)) = path (fst rc)" "adminToken (fst (pruneHistory E rc)) = adminToken (fst rc)"
  "network (fst (pruneHistory E rc)) = network (fst rc)" "nonces (fst (pruneHistory E rc)) = nonces (fst rc)"
  "rates (fst (pruneHistory E rc)) = rates (fst rc)"
  "connectionSignals (fst (pruneHistory E rc)) = connectionSignals (fst rc)"
  "requestSignals (fst (pruneHistory E rc)) = requestSignals (fst rc)"
  "inboxWaiters (fst (pruneHistory E rc)) = inboxWaiters (fst rc)"
  "connectionWait (fst (pruneHistory E rc)) = connectionWait (fst rc)"
  "connectionTTL (fst (pruneHistory E rc)) = connectionTTL (fst rc)"
  "connectionLease (fst (pruneHistory E rc)) = connectionLease (fst rc)"
  "connectionMax (fst (pruneHistory E rc)) = connectionMax (fst rc)"
  "disk (fst (pruneHistory E rc)) = disk (fst rc)" "nextChan (fst (pruneHistory E rc)) = nextChan (fst rc)"
  "closedChans (fst (pruneHistory E rc)) = closedChans (fst rc)"
  "panicked (fst (pruneHistory E rc)) = panicked (fst rc)"
  by (simp_all add: pruneHistory_def Let_def split: prod.split)

lemma cleanup_frame [simp]:
  "csAuthorized (state (snd (cleanupLocked E now r))) = csAuthorized (state r)"
  "csConnectionAcks (state (snd (cleanupLocked E now r))) = csConnectionAcks (state r)"
  "path (snd (cleanupLocked E now r)) = path r" "adminToken (snd (cleanupLocked E now r)) = adminToken r"
  "network (snd (cleanupLocked E now r)) = network r" "rates (snd (cleanupLocked E now r)) = rates r"
  "inboxWaiters (snd (cleanupLocked E now r)) = inboxWaiters r"
  "connectionWait (snd (cleanupLocked E now r)) = connectionWait r"
  "connectionTTL (snd (cleanupLocked E now r)) = connectionTTL r"
  "connectionLease (snd (cleanupLocked E now r)) = connectionLease r"
  "connectionMax (snd (cleanupLocked E now r)) = connectionMax r"
  "disk (snd (cleanupLocked E now r)) = disk r" "nextChan (snd (cleanupLocked E now r)) = nextChan r"
  by (rule cleanup_stages [of E now r];
      simp add: connectionSweep_frame nodeSweep_frame pendingSweep_frame)+


text \<open>
  Each of the three loops visits an entry once and looks at nothing but that entry (and, to hand
  out a cursor, the target's counter), so what it leaves of a table can be said entry by entry.
\<close>

definition sweptPending :: "time \<Rightarrow> pendingHandshake option \<Rightarrow> pendingHandshake option" where
  "sweptPending now p = Option.bind p (\<lambda>p. if phExpiresAt p < now then None else Some p)"

definition sweptNode :: "time \<Rightarrow> discoveredNode option \<Rightarrow> discoveredNode option" where
  "sweptNode now n = Option.bind n (\<lambda>n. if dnLastSeen n < now - 2 * nminute then None
     else Some (n\<lparr>dnServices := map (\<lambda>sv. sv\<lparr>svDirectCandidates := activeCandidates now sv\<rparr>) (dnServices n)\<rparr>))"

lemma swept_None [simp]: "sweptPending now None = None" 
  and sweptNode_None [simp]: "sweptNode now None = None"
  by (simp_all add: sweptPending_def sweptNode_def)

definition sweptConnection :: "time \<Rightarrow> uint64 \<Rightarrow> connectionRequest \<Rightarrow> connectionRequest option" where
  "sweptConnection now cursor c =
     (if \<not> connectionTerminal (crState c) \<and> crExpiresAt c < now then Some (expiredConnection now c)
      else if crState c = ''offered'' \<and> crOfferLeaseEnds c \<noteq> 0 \<and> crOfferLeaseEnds c < now
        then Some (requeuedConnection now cursor c)
      else if connectionTerminal (crState c) \<and> crUpdatedAt c < now - 24 * nhour then None
      else Some c)"

lemma activeCandidates_all:
  "length (activeCandidates now sv) = length (svDirectCandidates sv) \<longleftrightarrow>
   sv\<lparr>svDirectCandidates := activeCandidates now sv\<rparr> = sv"
proof
  assume "length (activeCandidates now sv) = length (svDirectCandidates sv)"
  then have "activeCandidates now sv = svDirectCandidates sv"
    unfolding activeCandidates_def by (metis filter_True length_filter_less less_irrefl)
  then show "sv\<lparr>svDirectCandidates := activeCandidates now sv\<rparr> = sv" by simp
next
  assume "sv\<lparr>svDirectCandidates := activeCandidates now sv\<rparr> = sv"
  then show "length (activeCandidates now sv) = length (svDirectCandidates sv)"
    by (metis publishedService.select_convs(4) publishedService.update_convs(4) publishedService.surjective)
qed

lemma services_all_active:
  assumes "\<forall>sv \<in> set (dnServices n). length (activeCandidates now sv) = length (svDirectCandidates sv)"
  shows "n\<lparr>dnServices := map (\<lambda>sv. sv\<lparr>svDirectCandidates := activeCandidates now sv\<rparr>) (dnServices n)\<rparr> = n"
  using assms by (simp add: activeCandidates_all map_idI)

definition sweptConnections :: "time \<Rightarrow> connectionRequest option \<Rightarrow> connectionRequest option \<Rightarrow> bool" where
  "sweptConnections now c c' \<longleftrightarrow> (\<exists>cursor. c' = Option.bind c (sweptConnection now cursor))"

interpretation pending_loop: range_loop "expirePending E now"
  "\<lambda>rc. mget (csPending (state (fst rc)))" "\<lambda>_ p p'. p' = sweptPending now p"
  by unfold_locales
    (auto simp: expirePending_def sweptPending_def Let_def split: prod.split option.split)

interpretation node_loop: range_loop "sweepNode now"
  "\<lambda>rc. mget (csNodes (state (fst rc)))" "\<lambda>_ n n'. n' = sweptNode now n"
  by unfold_locales
    (auto simp: sweepNode_def sweptNode_def services_all_active split: prod.split option.split)

interpretation connection_loop: range_loop "sweepConnection now"
  "\<lambda>rc. mget (csConnections (state (fst rc)))" "\<lambda>_. sweptConnections now"
  by unfold_locales
    (auto simp: sweepConnection_def sweptConnections_def sweptConnection_def Let_def
      split: prod.split option.split)

text \<open>The tables keep their keys distinct.\<close>

lemma gomap_ok_fold_mdel: "gomap_ok m \<Longrightarrow> gomap_ok (fold (\<lambda>x. mdel (f x)) xs m)"
  by (induction xs arbitrary: m) auto

lemma sweep_ok:
  "gomap_ok (csPending (state (fst rc))) \<Longrightarrow> gomap_ok (csPending (state (fst (expirePending E now k rc))))"
  "gomap_ok (csHistory (state (fst rc))) \<Longrightarrow> gomap_ok (csHistory (state (fst (expirePending E now k rc))))"
  "gomap_ok (csNodes (state (fst rc))) \<Longrightarrow> gomap_ok (csNodes (state (fst (sweepNode now k rc))))"
  "gomap_ok (csConnections (state (fst rc))) \<Longrightarrow> gomap_ok (csConnections (state (fst (sweepConnection now k rc))))"
  "gomap_ok (csConnectionIdempotency (state (fst rc))) \<Longrightarrow>
     gomap_ok (csConnectionIdempotency (state (fst (sweepConnection now k rc))))"
  "gomap_ok (csConnectionCursors (state (fst rc))) \<Longrightarrow>
     gomap_ok (csConnectionCursors (state (fst (sweepConnection now k rc))))"
  by (auto simp: expirePending_def sweepNode_def sweepConnection_def Let_def
      split: prod.split option.split)

lemma cleanup_ok:
  "gomap_ok (csPending (state r)) \<Longrightarrow> gomap_ok (csPending (state (snd (cleanupLocked E now r))))"
  "gomap_ok (csHistory (state r)) \<Longrightarrow> gomap_ok (csHistory (state (snd (cleanupLocked E now r))))"
  "gomap_ok (csNodes (state r)) \<Longrightarrow> gomap_ok (csNodes (state (snd (cleanupLocked E now r))))"
  "gomap_ok (csConnections (state r)) \<Longrightarrow> gomap_ok (csConnections (state (snd (cleanupLocked E now r))))"
  "gomap_ok (csConnectionIdempotency (state r)) \<Longrightarrow>
     gomap_ok (csConnectionIdempotency (state (snd (cleanupLocked E now r))))"
  "gomap_ok (csConnectionCursors (state r)) \<Longrightarrow>
     gomap_ok (csConnectionCursors (state (snd (cleanupLocked E now r))))"
proof -
  note stages = connectionSweep_def nodeSweep_def pendingSweep_def
  show "gomap_ok (csPending (state r)) \<Longrightarrow> gomap_ok (csPending (state (snd (cleanupLocked E now r))))"
    by (rule cleanup_stages [of E now r]; simp add: connectionSweep_frame nodeSweep_frame)
      (simp add: pendingSweep_def fold_keeps [where P = "\<lambda>rc. gomap_ok (csPending (state (fst rc)))"] sweep_ok)
  show "gomap_ok (csNodes (state r)) \<Longrightarrow> gomap_ok (csNodes (state (snd (cleanupLocked E now r))))"
    by (rule cleanup_stages [of E now r]; simp add: connectionSweep_frame)
      (simp add: nodeSweep_def pendingSweep_frame sweep_ok
        fold_keeps [where P = "\<lambda>rc. gomap_ok (csNodes (state (fst rc)))"])
  show "gomap_ok (csConnections (state r)) \<Longrightarrow> gomap_ok (csConnections (state (snd (cleanupLocked E now r))))"
    by (rule cleanup_stages [of E now r]; simp)
      (simp add: connectionSweep_def nodeSweep_frame pendingSweep_frame sweep_ok
        fold_keeps [where P = "\<lambda>rc. gomap_ok (csConnections (state (fst rc)))"])
  show "gomap_ok (csConnectionIdempotency (state r)) \<Longrightarrow>
     gomap_ok (csConnectionIdempotency (state (snd (cleanupLocked E now r))))"
    by (rule cleanup_stages [of E now r]; simp)
      (simp add: connectionSweep_def nodeSweep_frame pendingSweep_frame sweep_ok
        fold_keeps [where P = "\<lambda>rc. gomap_ok (csConnectionIdempotency (state (fst rc)))"])
  show "gomap_ok (csConnectionCursors (state r)) \<Longrightarrow>
     gomap_ok (csConnectionCursors (state (snd (cleanupLocked E now r))))"
    by (rule cleanup_stages [of E now r]; simp)
      (simp add: connectionSweep_def nodeSweep_frame pendingSweep_frame sweep_ok
        fold_keeps [where P = "\<lambda>rc. gomap_ok (csConnectionCursors (state (fst rc)))"])
  show "gomap_ok (csHistory (state r)) \<Longrightarrow> gomap_ok (csHistory (state (snd (cleanupLocked E now r))))"
    by (rule cleanup_stages [of E now r])
      (simp add: pruneHistory_def Let_def gomap_ok_fold_mdel connectionSweep_frame nodeSweep_frame,
       simp add: pendingSweep_def gomap_ok_fold_mdel sweep_ok
         fold_keeps [where P = "\<lambda>rc. gomap_ok (csHistory (state (fst rc)))"])
qed

text \<open>What the sweep leaves of a table, entry by entry.\<close>

lemma cleanup_pending:
  assumes "gomap_ok (csPending (state r))"
  shows "mget (csPending (state (snd (cleanupLocked E now r)))) k = sweptPending now (mget (csPending (state r)) k)"
  using pending_loop.loop_all [OF assms, where now = now and s = "(r, False)" and j = k and E = E
      and v = "visit E 1"]
  by (rule_tac cleanup_stages [of E now r])
    (simp add: connectionSweep_frame nodeSweep_frame, simp add: pendingSweep_def sweptPending_def)

lemma cleanup_nodes:
  assumes "gomap_ok (csNodes (state r))"
  shows "mget (csNodes (state (snd (cleanupLocked E now r)))) k = sweptNode now (mget (csNodes (state r)) k)"
  using node_loop.loop_all [where m = "csNodes (state r)" and now = now and j = k
      and s = "pendingSweep E now r" and v = "visit E 2"] assms
  by (rule_tac cleanup_stages [of E now r])
    (simp add: connectionSweep_frame, simp add: pendingSweep_frame nodeSweep_def sweptNode_def)

lemma cleanup_connections:
  assumes "gomap_ok (csConnections (state r))"
  shows "sweptConnections now (mget (csConnections (state r)) k)
           (mget (csConnections (state (snd (cleanupLocked E now r)))) k)"
  using connection_loop.loop_all [where m = "csConnections (state r)" and now = now and j = k
      and s = "nodeSweep E now (pendingSweep E now r)" and v = "visit E 3"] assms
  by (rule_tac cleanup_stages [of E now r])
    (simp, simp add: nodeSweep_frame pendingSweep_frame connectionSweep_def sweptConnections_def)

lemma cleanup_nothing:
  assumes "csPending (state r) = []" "csNodes (state r) = []" "csConnections (state r) = []" "nonces r = []"
    and "length (csHistory (state r)) \<le> maxHandshakeHistory"
  shows "cleanupLocked E now r = (False, r)"
  using assms by (simp add: cleanupLocked_def pendingSweep_def nodeSweep_def connectionSweep_def cleanNonces_def
      pruneHistory_def)

section \<open>What the sweep promises\<close>


definition sampleNode :: "gostring \<Rightarrow> time \<Rightarrow> discoveredNode" where
  "sampleNode nid seen = zeroNode\<lparr>dnID := nid, dnName := nid, dnLastSeen := seen\<rparr>"

definition quietEnv :: "time \<Rightarrow> env" where
  "quietEnv now = \<lparr>clock = (\<lambda>_. now), auditClock = (\<lambda>_. now), entropy = (\<lambda>_. ''''),
     writes = (\<lambda>_. WroteFile), visit = (\<lambda>_ ks. ks)\<rparr>"

definition staleRegistry :: registry where
  "staleRegistry = updState (\<lambda>s. s\<lparr>csNodes := [(''a'', sampleNode ''a'' 0), (''b'', sampleNode ''b'' nhour)]\<rparr>)
     (freshRegistry (\<lambda>_. None) ''s'' ''t'' ''n'')"

lemma staleRegistry_ok:
  "gomap_ok (csPending (state staleRegistry))" "gomap_ok (csNodes (state staleRegistry))"
  "gomap_ok (csConnections (state staleRegistry))"
  by (simp_all add: staleRegistry_def freshRegistry_def emptyState_def gomap_ok_def)

lemma staleRegistry_swept:
  "mget (csNodes (state (snd (cleanupLocked E nhour staleRegistry)))) ''b'' = Some (sampleNode ''b'' nhour)"
  by (simp add: cleanup_nodes staleRegistry_ok)
    (simp add: staleRegistry_def go_simps sweptNode_def sampleNode_def zeroNode_def time_units)


text \<open>The revision counts the node entries the sweep touched.\<close>

lemma sweepNode_revision:
  "csRevision (state (fst (sweepNode now k rc))) = csRevision (state (fst rc)) +
     (if sweptNode now (mget (csNodes (state (fst rc))) k) \<noteq> mget (csNodes (state (fst rc))) k then 1 else 0)"
proof -
  obtain r changed where rc: "rc = (r, changed)" by fastforce
  show ?thesis
  proof (cases "mget (csNodes (state r)) k")
    case None
    then show ?thesis by (simp add: rc sweepNode_def sweptNode_def)
  next
    case (Some n)
    let ?n' = "n\<lparr>dnServices := map (\<lambda>sv. sv\<lparr>svDirectCandidates := activeCandidates now sv\<rparr>) (dnServices n)\<rparr>"
    have "?n' = n \<longleftrightarrow> map (\<lambda>sv. sv\<lparr>svDirectCandidates := activeCandidates now sv\<rparr>) (dnServices n) = dnServices n"
      by (cases n) simp
    also have "\<dots> \<longleftrightarrow> (\<forall>sv \<in> set (dnServices n). length (activeCandidates now sv) = length (svDirectCandidates sv))"
      by (simp add: activeCandidates_all map_eq_conv [where g = id, simplified])
    finally have "?n' = n \<longleftrightarrow> (\<forall>sv \<in> set (dnServices n).
      length (activeCandidates now sv) = length (svDirectCandidates sv))" .
    with Some show ?thesis by (auto simp: rc sweepNode_def sweptNode_def)
  qed
qed

lemma nodeSweep_revision:
  "distinct ks \<Longrightarrow> csRevision (state (fst (fold (sweepNode now) ks rc))) = csRevision (state (fst rc)) +
     of_nat (length (filter (\<lambda>k. sweptNode now (mget (csNodes (state (fst rc))) k) \<noteq> mget (csNodes (state (fst rc))) k) ks))"
proof (induction ks arbitrary: rc)
  case (Cons k ks)
  let ?touched = "\<lambda>rc k. sweptNode now (mget (csNodes (state (fst rc))) k) \<noteq> mget (csNodes (state (fst rc))) k"
  have "filter (?touched (sweepNode now k rc)) ks = filter (?touched rc) ks"
    using Cons.prems by (intro filter_cong refl) (metis node_loop.body_other distinct.simps(2))
  with Cons show ?case by (simp add: sweepNode_revision)
qed simp

lemma cleanup_revision:
  assumes "gomap_ok (csNodes (state r))" and "r' = snd (cleanupLocked E now r)"
  shows "csRevision (state r') = csRevision (state r) +
    of_nat (card {k. mget (csNodes (state r')) k \<noteq> mget (csNodes (state r)) k})"
proof -
  define ks where "ks = rangeKeys (visit E 2) (csNodes (state r))"
  define touched where "touched = (\<lambda>k. sweptNode now (mget (csNodes (state r)) k) \<noteq> mget (csNodes (state r)) k)"
  have ks: "distinct ks" using assms(1) by (simp add: ks_def)
  have "csRevision (state r') = csRevision (state (fst (nodeSweep E now (pendingSweep E now r))))"
    unfolding assms(2) by (rule cleanup_stages [of E now r]) (simp add: connectionSweep_frame)
  also have "\<dots> = csRevision (state r) + of_nat (length (filter touched ks))"
    using nodeSweep_revision [OF ks, of now "pendingSweep E now r"]
    by (simp add: nodeSweep_def ks_def touched_def pendingSweep_frame)
  also have "length (filter touched ks) = card (set (filter touched ks))"
    using ks by (metis distinct_card distinct_filter)
  also have "set (filter touched ks) = {k. mget (csNodes (state r')) k \<noteq> mget (csNodes (state r)) k}"
    unfolding assms(2) cleanup_nodes [OF assms(1)]
    by (auto simp: ks_def touched_def) (metis sweptNode_None option.exhaust)
  finally show ?thesis .
qed

text \<open>\<open>cleanupLocked\<close> advances the topology revision by exactly the number of nodes whose entry
  it drops or whose direct candidates it withdraws, so a peer that synchronises by revision
  learns of every node the sweep touched.\<close>

theorem cleanup_counts_revisions:
  assumes "gomap_ok (csNodes (state r))" and "r' = snd (cleanupLocked E now r)"
  shows "csRevision (state r') = csRevision (state r) +
    of_nat (card {k. mget (csNodes (state r')) k \<noteq> mget (csNodes (state r)) k})"
  by (rule cleanup_revision [OF assms])

theorem cleanup_counts_revisions_witness:
  "csRevision (state (snd (cleanupLocked (quietEnv nhour) nhour staleRegistry))) = 1"
proof -
  let ?r' = "snd (cleanupLocked (quietEnv nhour) nhour staleRegistry)"
  have old: "mget (csNodes (state staleRegistry)) k =
      (if k = ''a'' then Some (sampleNode ''a'' 0) else if k = ''b'' then Some (sampleNode ''b'' nhour) else None)" for k
    by (simp add: staleRegistry_def go_simps)
  have "sweptNode nhour (Some (sampleNode ''a'' 0)) = None"
    and "sweptNode nhour (Some (sampleNode ''b'' nhour)) = Some (sampleNode ''b'' nhour)"
    by (simp_all add: sweptNode_def sampleNode_def zeroNode_def time_units)
  then have "{k. mget (csNodes (state ?r')) k \<noteq> mget (csNodes (state staleRegistry)) k} = {''a''}"
    by (simp add: cleanup_nodes [OF staleRegistry_ok(2)] old) auto
  with cleanup_counts_revisions [OF staleRegistry_ok(2) refl, where E = "quietEnv nhour" and now = nhour]
  show ?thesis by (simp add: staleRegistry_def freshRegistry_def emptyState_def)
qed

end
