(* ===== verification/Authentication.thy ===== *)
theory Authentication
  imports Cleanup
begin

text \<open>
  How a request is read and who it comes from: \<open>decodeJSON\<close> (src/internal/app/coordinator_http.go),
  the signature of a node with its time window and its nonce (\<open>verifySignatureLocked\<close>,
  coordinator_nodes.go), the authenticated body of the connection protocol
  (\<open>authenticatedConnectionBody\<close>, connection_server.go) and the administrator's token
  (\<open>adminAuthorized\<close>, coordinator_enrollment.go).
\<close>

section \<open>Bodies\<close>

definition maxBody :: nat where "maxBody = 65536"

text \<open>\<open>io.ReadAll(http.MaxBytesReader(w, req.Body, 64<<10))\<close>.\<close>

definition readBody :: "httpRequest \<Rightarrow> gostring option" where
  "readBody req = (if rqBodyFails req \<or> maxBody < length (rqBody req) then None else Some (rqBody req))"

text \<open>
  The stream decoder sees at most 64 KiB of the body and needs no more than the first value of it;
  the handler's target type chooses the decoder.
\<close>

definition decodeJSON :: "(gostring \<Rightarrow> 'a option) \<Rightarrow> httpRequest \<Rightarrow> response + 'a" where
  "decodeJSON decode req =
     (case decode (take maxBody (rqBody req)) of
        None \<Rightarrow> Inl (HttpError ''invalid JSON'' 400)
      | Some input \<Rightarrow> Inr input)"

section \<open>Node signatures\<close>

definition newline :: char where "newline = CHR 0x0A"

definition signedMessage :: "'z lib_scheme \<Rightarrow> gostring \<Rightarrow> gostring \<Rightarrow> gostring \<Rightarrow> gostring \<Rightarrow> gostring \<Rightarrow> gostring" where
  "signedMessage L method urlPath timestamp nonce body =
     method @ [newline] @ urlPath @ [newline] @ timestamp @ [newline] @ nonce @ [newline]
       @ hexEncode (sha256 L body)"

definition verifySignatureLocked ::
    "'z lib_scheme \<Rightarrow> time \<Rightarrow> httpRequest \<Rightarrow> gostring \<Rightarrow> gostring \<Rightarrow> registry \<Rightarrow> bool \<times> registry" where
  "verifySignatureLocked L now req body publicText r =
     (let timestampText = rqTime req; nonce = rqNonce req; signatureText = rqSignature req;
          (timestamp, err) = parseInt64 timestampText
      in if err \<noteq> None \<or> nonce = '''' \<or> signatureText = '''' then (False, r)
         else let sent = unixTime timestamp
         in if sent < now - 2 * nminute \<or> now + 2 * nminute < sent then (False, r)
         else if (case mget (nonces r) nonce of None \<Rightarrow> False | Some expiry \<Rightarrow> now < expiry) then (False, r)
         else case b64Decode publicText of
           None \<Rightarrow> (False, r)
         | Some publicKey \<Rightarrow>
             if length publicKey \<noteq> 32 then (False, r)
             else (case b64Decode signatureText of
               None \<Rightarrow> (False, r)
             | Some signature \<Rightarrow>
                 if \<not> ed25519Verify L publicKey
                      (signedMessage L (rqMethod req) (rqPath req) timestampText nonce body) signature
                 then (False, r)
                 else (True, r\<lparr>nonces := mput nonce (now + 2 * nminute) (nonces r)\<rparr>)))"

text \<open>
  The locked section every connection handler begins with, and the only one in which it
  looks at the credential; its result is an answer, or the body and the node it came from.
\<close>

definition authenticatedConnectionBody ::
    "'z lib_scheme \<Rightarrow> env \<Rightarrow> httpRequest \<Rightarrow> registry \<Rightarrow> (response + gostring \<times> gostring) \<times> registry" where
  "authenticatedConnectionBody L E req r =
     (case readBody req of
        None \<Rightarrow> (Inl (HttpError ''invalid body'' 400), r)
      | Some body \<Rightarrow>
          let nodeID = rqNode req
          in case mget (csAuthorized (state r)) nodeID of
               None \<Rightarrow> (Inl (HttpError ''invalid node signature'' 401), r)
             | Some authorized \<Rightarrow>
                 (case verifySignatureLocked L (clock E 0) req body (auPublicKey authorized) r of
                    (False, r1) \<Rightarrow> (Inl (HttpError ''invalid node signature'' 401), r1)
                  | (True, r1) \<Rightarrow>
                      (case allowRequestLocked (''connection-node:'' @ nodeID) (publicRequestsPerMinute * 5)
                              (clock E 1) r1 of
                         (False, r2) \<Rightarrow> (Inl (HttpError ''node rate limit exceeded'' 429), r2)
                       | (True, r2) \<Rightarrow> (Inr (body, nodeID), r2))))"

section \<open>The administrator\<close>

definition adminAuthorized :: "httpRequest \<Rightarrow> registry \<Rightarrow> bool" where
  "adminAuthorized req r \<longleftrightarrow>
     (let token = trimPrefix (rqAuthorization req) ''Bearer ''
      in length token = length (adminToken r) \<and> token = adminToken r)"

section \<open>Frames\<close>

text \<open>A verification touches the nonces and nothing else.\<close>

lemma verify_cases:
  assumes "P r" and "P (r\<lparr>nonces := mput (rqNonce req) (now + 2 * nminute) (nonces r)\<rparr>)"
  shows "P (snd (verifySignatureLocked L now req body key r))"
  using assms by (simp add: verifySignatureLocked_def Let_def split: prod.split option.split)

lemma verify_touches:
  "snd (verifySignatureLocked L now req body key r) = r
   \<or> snd (verifySignatureLocked L now req body key r)
       = r\<lparr>nonces := mput (rqNonce req) (now + 2 * nminute) (nonces r)\<rparr>"
  by (rule verify_cases [where P = "\<lambda>r'. r' = r \<or> r' = r\<lparr>nonces := mput (rqNonce req) (now + 2 * nminute) (nonces r)\<rparr>"])
    blast+

lemma verify_mask: "(snd (verifySignatureLocked L now req body key r))\<lparr>nonces := []\<rparr> = r\<lparr>nonces := []\<rparr>"
  using verify_touches [of L now req body key r] by auto

lemma verify_frame [simp]:
  "state (snd (verifySignatureLocked L now req body key r)) = state r"
  "path (snd (verifySignatureLocked L now req body key r)) = path r"
  "network (snd (verifySignatureLocked L now req body key r)) = network r"
  "adminToken (snd (verifySignatureLocked L now req body key r)) = adminToken r"
  "disk (snd (verifySignatureLocked L now req body key r)) = disk r"
  "rates (snd (verifySignatureLocked L now req body key r)) = rates r"
  "connectionSignals (snd (verifySignatureLocked L now req body key r)) = connectionSignals r"
  "requestSignals (snd (verifySignatureLocked L now req body key r)) = requestSignals r"
  "inboxWaiters (snd (verifySignatureLocked L now req body key r)) = inboxWaiters r"
  "connectionWait (snd (verifySignatureLocked L now req body key r)) = connectionWait r"
  "connectionTTL (snd (verifySignatureLocked L now req body key r)) = connectionTTL r"
  "connectionLease (snd (verifySignatureLocked L now req body key r)) = connectionLease r"
  "connectionMax (snd (verifySignatureLocked L now req body key r)) = connectionMax r"
  "nextChan (snd (verifySignatureLocked L now req body key r)) = nextChan r"
  "closedChans (snd (verifySignatureLocked L now req body key r)) = closedChans r"
  "panicked (snd (verifySignatureLocked L now req body key r)) = panicked r"
  by (rule mask_eqD [of "\<lambda>r. r\<lparr>nonces := []\<rparr>", OF verify_mask], simp)+

text \<open>An accepted signature: fresh, over this very request, under the key given.\<close>

lemma verify_accepts:
  assumes "verifySignatureLocked L now req body key r = (True, r')"
  obtains timestamp publicKey signature
  where "parseInt64 (rqTime req) = (timestamp, None)"
    and "now - 2 * nminute \<le> unixTime timestamp" and "unixTime timestamp \<le> now + 2 * nminute"
    and "\<forall>expiry. mget (nonces r) (rqNonce req) = Some expiry \<longrightarrow> expiry \<le> now"
    and "b64Decode key = Some publicKey" and "length publicKey = 32"
    and "b64Decode (rqSignature req) = Some signature"
    and "ed25519Verify L publicKey (signedMessage L (rqMethod req) (rqPath req) (rqTime req) (rqNonce req) body) signature"
    and "r' = r\<lparr>nonces := mput (rqNonce req) (now + 2 * nminute) (nonces r)\<rparr>"
proof -
  obtain timestamp err where p: "parseInt64 (rqTime req) = (timestamp, err)" by fastforce
  show thesis
    using assms
    by (auto simp: verifySignatureLocked_def p Let_def split: if_splits option.splits intro!: that)
qed

lemma signed_split:
  assumes "newline \<notin> set a" and "newline \<notin> set a'" and "a @ [newline] @ b = a' @ [newline] @ b'"
  shows "a = a' \<and> b = b'"
proof -
  have "takeWhile (\<lambda>c. c \<noteq> newline) (a @ newline # b) = a"
    and "takeWhile (\<lambda>c. c \<noteq> newline) (a' @ newline # b') = a'"
    using assms(1,2) by (subst takeWhile_append2; force)+
  with assms(3) show ?thesis by auto
qed

lemma hexEncode_inject: "hexEncode a = hexEncode b \<longleftrightarrow> a = b"
  by (metis hexDecode_hexEncode option.inject)

text \<open>A signed message determines what was signed: two requests whose header fields contain no
  line break have the same message only if method, path, timestamp, nonce and body digest agree,
  so with a collision-free digest a signature authenticates exactly one request.\<close>

theorem signedMessage_binds:
  assumes "\<forall>s \<in> {method, urlPath, timestamp, nonce, method', urlPath', timestamp', nonce'}. newline \<notin> set s"
    and "sha256 L body = sha256 L body' \<Longrightarrow> body = body'"
    and "signedMessage L method urlPath timestamp nonce body = signedMessage L method' urlPath' timestamp' nonce' body'"
  shows "method = method' \<and> urlPath = urlPath' \<and> timestamp = timestamp' \<and> nonce = nonce' \<and> body = body'"
proof -
  have plain: "newline \<notin> set s"
    if "s \<in> {method, urlPath, timestamp, nonce, method', urlPath', timestamp', nonce'}" for s
    using assms(1) that by blast
  note message = assms(3) [unfolded signedMessage_def]
  have 1: "method = method' \<and> urlPath @ [newline] @ timestamp @ [newline] @ nonce @ [newline] @ hexEncode (sha256 L body)
      = urlPath' @ [newline] @ timestamp' @ [newline] @ nonce' @ [newline] @ hexEncode (sha256 L body')"
    by (rule signed_split [OF _ _ message]) (simp_all add: plain)
  have 2: "urlPath = urlPath' \<and> timestamp @ [newline] @ nonce @ [newline] @ hexEncode (sha256 L body)
      = timestamp' @ [newline] @ nonce' @ [newline] @ hexEncode (sha256 L body')"
    by (rule signed_split [OF _ _ 1 [THEN conjunct2]]) (simp_all add: plain)
  have 3: "timestamp = timestamp' \<and> nonce @ [newline] @ hexEncode (sha256 L body)
      = nonce' @ [newline] @ hexEncode (sha256 L body')"
    by (rule signed_split [OF _ _ 2 [THEN conjunct2]]) (simp_all add: plain)
  have 4: "nonce = nonce' \<and> hexEncode (sha256 L body) = hexEncode (sha256 L body')"
    by (rule signed_split [OF _ _ 3 [THEN conjunct2]]) (simp_all add: plain)
  from 1 2 3 4 assms(2) show ?thesis by (simp add: hexEncode_inject)
qed

theorem signedMessage_binds_witness:
  "signedMessage sampleLib ''POST'' ''/p'' ''1'' ''n'' ''body''
     = signedMessage sampleLib ''POST'' ''/p'' ''1'' ''n'' ''body''
   \<and> signedMessage sampleLib ''POST'' ''/p'' ''1'' ''n'' ''body'' \<noteq> signedMessage sampleLib ''POST'' ''/p'' ''1'' ''m'' ''body''"
proof -
  have "newline \<notin> set s" if "s \<in> {''POST'', ''/p'', ''1'', ''n'', ''POST'', ''/p'', ''1'', ''m''}" for s
    using that by (auto simp: newline_def)
  then have "signedMessage sampleLib ''POST'' ''/p'' ''1'' ''n'' ''body'' = signedMessage sampleLib ''POST'' ''/p'' ''1'' ''m'' ''body''
      \<Longrightarrow> ''n'' = ''m''"
    using signedMessage_binds [of "''POST''" "''/p''" "''1''" "''n''" "''POST''" "''/p''" "''1''" "''m''" sampleLib
        "''body''" "''body''"] by blast
  then show ?thesis by auto
qed

section \<open>Replays\<close>

text \<open>
  What happens to the nonces while requests come in: signatures are verified and the state is
  swept, each at its time.
\<close>

datatype authEvent = Verify time httpRequest gostring gostring | Sweep env time

fun eventTime :: "authEvent \<Rightarrow> time" where
  "eventTime (Verify t req body key) = t"
| "eventTime (Sweep E t) = t"

fun authStep :: "'z lib_scheme \<Rightarrow> authEvent \<Rightarrow> registry \<Rightarrow> registry" where
  "authStep L (Verify t req body key) r = snd (verifySignatureLocked L t req body key r)"
| "authStep L (Sweep E t) r = snd (cleanupLocked E t r)"

definition authRun :: "'z lib_scheme \<Rightarrow> authEvent list \<Rightarrow> registry \<Rightarrow> registry" where
  "authRun L evs r = fold (authStep L) evs r"

lemma cleanup_nonce:
  "mget (nonces (snd (cleanupLocked E now r))) k = mget (nonces r) k
   \<or> (\<exists>e. mget (nonces r) k = Some e \<and> e < now)"
proof (rule cleanup_stages [of E now r])
  fix rc assume rc: "rc = connectionSweep E now (nodeSweep E now (pendingSweep E now r))"
    and end_state: "snd (cleanupLocked E now r) = fst (pruneHistory E (cleanNonces E now (fst rc), snd rc))"
  let ?P = "\<lambda>m. mget m k = mget (nonces r) k \<or> (\<exists>e. mget (nonces r) k = Some e \<and> e < now)"
  have "?P (fold (expireNonce now) ks (nonces r))" for ks
    by (rule fold_keeps) (auto simp: expireNonce_def split: option.splits)
  then show ?thesis
    by (simp add: end_state cleanNonces_def rc connectionSweep_frame nodeSweep_frame pendingSweep_frame)
qed

text \<open>A spent nonce: remembered past the life of its timestamp, or its timestamp is stale.\<close>

definition spent :: "gostring \<Rightarrow> time \<Rightarrow> time \<Rightarrow> registry \<Rightarrow> bool" where
  "spent nonce sent now r \<longleftrightarrow> sent < now \<and>
     ((\<exists>e. mget (nonces r) nonce = Some e \<and> sent + 2 * nminute < e) \<or> sent + 2 * nminute < now)"

lemma spent_step:
  assumes "spent nonce sent now r" and "now \<le> eventTime ev"
  shows "spent nonce sent (eventTime ev) (authStep L ev r)"
proof (cases ev)
  case (Verify t req body key)
  with assms verify_touches [of L t req body key r] show ?thesis
    by (auto simp: spent_def)
next
  case (Sweep E t)
  with assms cleanup_nonce [of E t r nonce] show ?thesis
    by (auto simp: spent_def)
qed

lemma spent_run:
  "spent nonce sent now r \<Longrightarrow> sorted (now # map eventTime evs) \<Longrightarrow>
   \<exists>last \<in> set (now # map eventTime evs). spent nonce sent last (authRun L evs r)"
proof (induction evs arbitrary: now r)
  case (Cons ev evs)
  then have "spent nonce sent (eventTime ev) (authStep L ev r)" by (intro spent_step) auto
  then obtain last where "last \<in> set (eventTime ev # map eventTime evs)"
      "spent nonce sent last (authRun L evs (authStep L ev r))"
    using Cons.IH [of "eventTime ev" "authStep L ev r"] Cons.prems by auto
  then show ?case by (auto simp: authRun_def)
qed (auto simp: authRun_def)


text \<open>A request of node \<open>n1\<close> on the sample library, where a key signs with itself.\<close>

definition sampleKey :: gostring where "sampleKey = replicate 43 (CHR ''A'')"

definition sampleRequest :: "gostring \<Rightarrow> gostring \<Rightarrow> gostring \<Rightarrow> httpRequest" where
  "sampleRequest urlPath timestamp nonce =
     \<lparr>rqMethod = ''POST'', rqPath = urlPath, rqRemoteAddr = ''127.0.0.1:9'', rqNode = ''n1'',
      rqTime = timestamp, rqNonce = nonce, rqSignature = sampleKey, rqAuthorization = ''Bearer token'',
      rqStatusQuery = '''', rqBody = '''', rqBodyFails = False\<rparr>"

definition sampleRegistry :: registry where
  "sampleRegistry = freshRegistry (\<lambda>_. None) ''/s.json'' ''token'' ''net''"

lemma sampleKey_decodes: "b64Decode sampleKey = Some (replicate 32 (CHR 0x00))"
  by code_simp

lemma sampleVerify:
  assumes "ed25519Verify L = ed25519Verify sampleLib"
    and "parseInt64 timestamp = (ts, None)" and "nonce \<noteq> ''''"
    and "now - 2 * nminute \<le> unixTime ts" and "unixTime ts \<le> now + 2 * nminute"
    and "\<forall>expiry. mget (nonces r) nonce = Some expiry \<longrightarrow> expiry \<le> now"
  shows "verifySignatureLocked L now (sampleRequest p timestamp nonce) body sampleKey r
    = (True, r\<lparr>nonces := mput nonce (now + 2 * nminute) (nonces r)\<rparr>)"
proof -
  have "sampleKey \<noteq> ''''" by (simp add: sampleKey_def)
  with assms show ?thesis
    by (auto simp: verifySignatureLocked_def sampleRequest_def sampleKey_decodes sampleLib_def Let_def
        split: option.split)
qed


text \<open>A timestamp may lie up to two minutes ahead, and stays in its window for up to four
  minutes, while the nonce is remembered for two: a request dated ahead is accepted twice.\<close>

theorem future_request_replayed:
  "\<exists>r0 r1. verifySignatureLocked sampleLib (unixTime 100) (sampleRequest ''/p'' ''220'' ''x'') '''' sampleKey
         sampleRegistry = (True, r0)
     \<and> verifySignatureLocked sampleLib (unixTime 221) (sampleRequest ''/p'' ''220'' ''x'') '''' sampleKey r0 = (True, r1)"
proof -
  have p: "parseInt64 ''220'' = (220, None)" by code_simp
  show ?thesis
    by (intro exI conjI; rule sampleVerify [OF refl p])
      (auto simp: sampleRegistry_def freshRegistry_def time_units unixTime_def)
qed

end
