(* ===== verification/Enrollment.thy ===== *)
theory Enrollment
  imports Authentication
begin

text \<open>
  The enrollment handlers (src/internal/app/coordinator_enrollment.go). A handler is a function
  of the environment, the request and the registry; the part it runs under the lock is a
  definition of its own where decoding and checking come before the lock is taken.
\<close>

section \<open>Allocating identifiers\<close>

text \<open>A bounded number of draws, each of which may fail, until one is not taken.\<close>

fun drawFresh :: "(nat \<Rightarrow> 'a option) \<Rightarrow> ('a \<Rightarrow> bool) \<Rightarrow> nat \<Rightarrow> nat \<Rightarrow> 'a option" where
  "drawFresh draw taken attempt 0 = None"
| "drawFresh draw taken attempt (Suc n) =
     (case draw attempt of
        None \<Rightarrow> None
      | Some x \<Rightarrow> if taken x then drawFresh draw taken (Suc attempt) n else Some x)"

locale fresh_draw =
  fixes draw :: "nat \<Rightarrow> 'a option" and well_formed :: "'a \<Rightarrow> bool"
  assumes drawn: "draw n = Some x \<Longrightarrow> well_formed x"
begin

lemma fresh: "drawFresh draw taken attempt n = Some x \<Longrightarrow> well_formed x \<and> \<not> taken x"
  by (induction n arbitrary: attempt) (auto split: option.splits if_splits intro: drawn)

end

definition allocateRequestIDLocked :: "env \<Rightarrow> coordinatorState \<Rightarrow> gostring option" where
  "allocateRequestIDLocked E st =
     drawFresh (\<lambda>attempt. randomToken (entropy E (1 + attempt)))
       (\<lambda>requestID. mget (csPending st) requestID \<noteq> None \<or> mget (csHistory st) requestID \<noteq> None)
       0 deviceCodeAttempts"

definition allocateDeviceCodeLocked :: "env \<Rightarrow> coordinatorState \<Rightarrow> gostring option" where
  "allocateDeviceCodeLocked E st =
     drawFresh (\<lambda>attempt. randomDeviceCode (entropy E (33 + attempt)))
       (\<lambda>code. \<exists>existing \<in> set (map snd (csPending st)). phDeviceCode existing = code)
       0 deviceCodeAttempts"

interpretation request_ids: fresh_draw "\<lambda>attempt. randomToken (entropy E (1 + attempt))" "\<lambda>x. length x = 64"
  by unfold_locales (auto simp: randomToken_def readFull_def split: if_splits)

interpretation device_codes: fresh_draw "\<lambda>attempt. randomDeviceCode (entropy E (33 + attempt))"
  "\<lambda>code. \<exists>supply. randomDeviceCode supply = Some code"
  by unfold_locales blast

section \<open>The node's side\<close>

definition activeUpstream :: "(gostring, discoveredNode) gomap \<Rightarrow> discoveredNode \<Rightarrow> bool" where
  "activeUpstream nodes n =
     (case mget nodes (dnUpstreamRelay n) of
        None \<Rightarrow> False
      | Some upstream \<Rightarrow> dnRole upstream = ''relay'' \<and> dnSegment upstream = dnSegment n
                         \<and> dnVirtualNetwork upstream = dnVirtualNetwork n)"

definition sourcePending :: "gostring \<Rightarrow> coordinatorState \<Rightarrow> nat" where
  "sourcePending source st = mcount (\<lambda>existing. phSource existing = source) (csPending st)"

definition addPending :: "env \<Rightarrow> pendingHandshake \<Rightarrow> registry \<Rightarrow> registry" where
  "addPending E pending r =
     appendAuditLocked (clock E 3)
       \<lparr>aeTime = 0, aeAction = ''enrollment_requested'', aeNodeID = dnID (phNode pending),
        aeNodeName = dnName (phNode pending), aeRequestID = phRequestID pending, aeSource = phSource pending\<rparr>
       (updState (\<lambda>s. s\<lparr>
          csPending := mput (phRequestID pending) pending (csPending s),
          csHistory := mput (phRequestID pending)
            \<lparr>hhRequestID = phRequestID pending, hhDeviceCode = phDeviceCode pending, hhNode = phNode pending,
             hhStatusCode = 100, hhReason = '''', hhCreatedAt = clock E 2, hhExpiresAt = phExpiresAt pending,
             hhHandledAt = 0\<rparr> (csHistory s)\<rparr>) r)"

definition enrollLocked :: "env \<Rightarrow> pendingHandshake \<Rightarrow> gostring \<Rightarrow> registry \<Rightarrow> response \<times> registry" where
  "enrollLocked E pending0 secret r0 =
     (let r = snd (cleanupLocked E (clock E 1) r0);
          n = phNode pending0
      in if dnRole n = ''subnode'' \<and> \<not> activeUpstream (csNodes (state r)) n then
           (HttpError ''subnode upstream is not an active relay in the same segment'' 400, r)
         else if maxPendingHandshakes \<le> length (csPending (state r)) then
           (HttpError ''too many pending handshakes'' 503, r)
         else if maxPendingPerSource \<le> sourcePending (phSource pending0) (state r) then
           (HttpError ''too many pending handshakes from this source'' 429, r)
         else case allocateRequestIDLocked E (state r) of
           None \<Rightarrow> (HttpError ''unable to allocate handshake request id'' 503, r)
         | Some requestID \<Rightarrow>
             (case allocateDeviceCodeLocked E (state r) of
                None \<Rightarrow> (HttpError ''unable to allocate device code'' 503, r)
              | Some deviceCode \<Rightarrow>
                  let pending = pending0\<lparr>phRequestID := requestID, phDeviceCode := deviceCode\<rparr>;
                      (ok, r') = persistLocked (writes E 0) (addPending E pending r)
                  in if \<not> ok then (HttpError ''failed to persist handshake'' 500, r')
                     else (WriteJSON 201 (EnrollmentPayload
                             \<lparr>esRequestID = requestID, esSecret = secret, esDeviceCode = deviceCode,
                              esExpiresAt = phExpiresAt pending, esStatus = '''', esCredential = None\<rparr>), r')))"

definition requestEnrollment :: "'z json_scheme \<Rightarrow> env \<Rightarrow> httpRequest \<Rightarrow> registry \<Rightarrow> response \<times> registry" where
  "requestEnrollment L E req r =
     (case decodeJSON (streamDiscovery L) req of
        Inl err \<Rightarrow> (err, r)
      | Inr input \<Rightarrow>
          let n = drNode input
          in if dnID n = '''' \<or> dnName n = '''' \<or> dnVirtualNetwork n \<noteq> network r then
               (HttpError ''valid node id, name, and virtual network are required'' 403, r)
             else case b64Decode (drPublicKey input) of
               None \<Rightarrow> (HttpError ''valid node public key is required'' 400, r)
             | Some publicKey \<Rightarrow>
                 if length publicKey \<noteq> 32 then (HttpError ''valid node public key is required'' 400, r)
                 else (case randomToken (entropy E 0) of
                   None \<Rightarrow> (HttpError ''secure random source unavailable'' 500, r)
                 | Some secret \<Rightarrow>
                     enrollLocked E
                       \<lparr>phRequestID = '''', phSecretHash = hexEncode (sha256 L secret), phDeviceCode = '''',
                        phNode = n, phPublicKey = drPublicKey input, phSource = requestSource (rqRemoteAddr req),
                        phExpiresAt = clock E 0 + handshakeLifetime, phApproved = False, phRejected = False\<rparr>
                       secret r))"

definition pollStatus :: "pendingHandshake \<Rightarrow> gostring" where
  "pollStatus pending =
     (let status = ''pending'';
          status = (if phApproved pending then ''approved'' else status)
      in if phRejected pending then ''rejected'' else status)"

definition pollEnrollment :: "'z json_scheme \<Rightarrow> env \<Rightarrow> httpRequest \<Rightarrow> registry \<Rightarrow> response \<times> registry" where
  "pollEnrollment L E req r0 =
     (case decodeJSON (streamPoll L) req of
        Inl err \<Rightarrow> (err, r0)
      | Inr (requestID, secret) \<Rightarrow>
          let r = snd (persistLocked (writes E 0) (snd (cleanupLocked E (clock E 0) r0)))
          in case mget (csPending (state r)) requestID of
               None \<Rightarrow> (HttpError ''handshake not found or expired'' 404, r)
             | Some pending \<Rightarrow>
                 if \<not> matchesHash L secret (phSecretHash pending)
                 then (HttpError ''handshake not found or expired'' 404, r)
                 else (WriteJSON 200 (PollPayload (pollStatus pending) (phExpiresAt pending)
                         (hhReason (mgetz zeroHistory (csHistory (state r)) requestID))), r))"

section \<open>The administrator's side\<close>

definition listHandshakes :: "env \<Rightarrow> httpRequest \<Rightarrow> registry \<Rightarrow> response \<times> registry" where
  "listHandshakes E req r0 =
     (if \<not> adminAuthorized req r0 then (HttpError ''unauthorized'' 401, r0)
      else let r = snd (cleanupLocked E (clock E 0) r0);
               statusFilter = (if rqStatusQuery req \<noteq> '''' then fst (parseInt64 (rqStatusQuery req)) else 0);
               items = filter (\<lambda>item. statusFilter = 0 \<or> hhStatusCode item = statusFilter)
                         (rangeVals (visit E 6) (csHistory (state r)));
               r' = snd (persistLocked (writes E 0) r)
           in (WriteJSON 200 (HandshakesPayload (sortBy (\<lambda>item. - hhCreatedAt item) items)), r'))"

definition listAudit :: "httpRequest \<Rightarrow> registry \<Rightarrow> response \<times> registry" where
  "listAudit req r =
     (if \<not> adminAuthorized req r then (HttpError ''unauthorized'' 401, r)
      else (WriteJSON 200 (AuditPayload (sortBy (\<lambda>event. - aeTime event) (csAudit (state r)))), r))"

text \<open>The handshake a device code names; an empty request id counts as not found.\<close>

definition findByCode :: "env \<Rightarrow> gostring \<Rightarrow> coordinatorState \<Rightarrow> (gostring \<times> pendingHandshake) option" where
  "findByCode E code st =
     (case find (\<lambda>rid. \<exists>candidate \<in> set_option (mget (csPending st) rid). phDeviceCode candidate = code)
             (rangeKeys (visit E 6) (csPending st)) of
        None \<Rightarrow> None
      | Some requestID \<Rightarrow>
          if requestID = '''' then None
          else map_option (\<lambda>pending. (requestID, pending)) (mget (csPending st) requestID))"

definition markHandled :: "gostring \<Rightarrow> int \<Rightarrow> time \<Rightarrow> coordinatorState \<Rightarrow> coordinatorState" where
  "markHandled requestID code now st =
     st\<lparr>csHistory := mput requestID
          ((mgetz zeroHistory (csHistory st) requestID)\<lparr>hhStatusCode := code, hhHandledAt := now\<rparr>)
          (csHistory st)\<rparr>"

definition approvePending :: "env \<Rightarrow> httpRequest \<Rightarrow> gostring \<Rightarrow> pendingHandshake \<Rightarrow> registry \<Rightarrow> registry" where
  "approvePending E req requestID pending r =
     (let action = (if mget (csAuthorized (state r)) (dnID (phNode pending)) \<noteq> None
                    then ''credential_replaced'' else ''credential_approved'')
      in appendAuditLocked (clock E 2)
           \<lparr>aeTime = 0, aeAction = action, aeNodeID = dnID (phNode pending),
            aeNodeName = dnName (phNode pending), aeRequestID = requestID,
            aeSource = requestSource (rqRemoteAddr req)\<rparr>
           (updState (\<lambda>s. markHandled requestID 200 (clock E 1) (s\<lparr>
              csPending := mput requestID (pending\<lparr>phApproved := True\<rparr>) (csPending s),
              csAuthorized := mput (dnID (phNode pending)) \<lparr>auPublicKey = phPublicKey pending\<rparr>
                                (csAuthorized s)\<rparr>)) r))"

definition approveHandshake :: "'z json_scheme \<Rightarrow> env \<Rightarrow> httpRequest \<Rightarrow> registry \<Rightarrow> response \<times> registry" where
  "approveHandshake L E req r0 =
     (if \<not> adminAuthorized req r0 then (HttpError ''unauthorized'' 401, r0)
      else case decodeJSON (streamApprove L) req of
        Inl err \<Rightarrow> (err, r0)
      | Inr input \<Rightarrow>
          let code = normalizeDeviceCode L (arDeviceCode input);
              r = snd (cleanupLocked E (clock E 0) r0)
          in case findByCode E code (state r) of
               None \<Rightarrow> (HttpError ''unexpired handshake not found'' 404, r)
             | Some (requestID, pending) \<Rightarrow>
                 if phRejected pending then (HttpError ''handshake was rejected'' 409, r)
                 else if (case mget (csAuthorized (state r)) (dnID (phNode pending)) of
                            None \<Rightarrow> False
                          | Some existing \<Rightarrow> auPublicKey existing \<noteq> phPublicKey pending \<and> \<not> arReplace input)
                 then (HttpError ''node id is already authorized; explicit replacement is required'' 409, r)
                 else if phApproved pending then
                   (WriteJSON 200 (ApprovedPayload (dnName (phNode pending)) (phExpiresAt pending)), r)
                 else (case persistLocked (writes E 0) (approvePending E req requestID pending r) of
                     (False, r') \<Rightarrow> (HttpError ''failed to persist credential'' 500, r')
                   | (True, r') \<Rightarrow>
                       (WriteJSON 200 (ApprovedPayload (dnName (phNode pending)) (phExpiresAt pending)), r')))"

definition rejectPending ::
    "env \<Rightarrow> httpRequest \<Rightarrow> gostring \<Rightarrow> gostring \<Rightarrow> pendingHandshake \<Rightarrow> registry \<Rightarrow> registry" where
  "rejectPending E req reason requestID pending r =
     appendAuditLocked (clock E 2)
       \<lparr>aeTime = 0, aeAction = ''enrollment_rejected'', aeNodeID = dnID (phNode pending),
        aeNodeName = dnName (phNode pending), aeRequestID = requestID,
        aeSource = requestSource (rqRemoteAddr req)\<rparr>
       (updState (\<lambda>s. s\<lparr>
          csPending := mput requestID (pending\<lparr>phRejected := True\<rparr>) (csPending s),
          csHistory := mput requestID
            ((mgetz zeroHistory (csHistory s) requestID)
               \<lparr>hhStatusCode := 403, hhReason := trimSpace reason, hhHandledAt := clock E 1\<rparr>) (csHistory s)\<rparr>) r)"

definition rejectHandshake :: "'z json_scheme \<Rightarrow> env \<Rightarrow> httpRequest \<Rightarrow> registry \<Rightarrow> response \<times> registry" where
  "rejectHandshake L E req r0 =
     (if \<not> adminAuthorized req r0 then (HttpError ''unauthorized'' 401, r0)
      else case decodeJSON (streamApprove L) req of
        Inl err \<Rightarrow> (err, r0)
      | Inr input \<Rightarrow>
          if maxEnrollmentReason < length (trimSpace (arReason input))
          then (HttpError ''enrollment reason is too long'' 400, r0)
          else let code = normalizeDeviceCode L (arDeviceCode input);
                   r = snd (cleanupLocked E (clock E 0) r0)
          in case findByCode E code (state r) of
               None \<Rightarrow> (HttpError ''unexpired handshake not found'' 404, r)
             | Some (requestID, pending) \<Rightarrow>
                 if phApproved pending then (HttpError ''handshake was already approved'' 409, r)
                 else (case persistLocked (writes E 0) (rejectPending E req (arReason input) requestID pending r) of
                     (False, r') \<Rightarrow> (HttpError ''failed to persist rejection'' 500, r')
                   | (True, r') \<Rightarrow> (WriteJSON 200 (RejectedPayload (dnName (phNode pending))), r')))"

definition revokePending :: "env \<Rightarrow> gostring \<Rightarrow> gostring \<Rightarrow> registry \<Rightarrow> registry" where
  "revokePending E nodeID rid r =
     (case mget (csPending (state r)) rid of
        None \<Rightarrow> r
      | Some pending \<Rightarrow>
          if dnID (phNode pending) = nodeID then
            updState (\<lambda>s. markHandled rid 403 (auditClock E rid) (s\<lparr>csPending := mdel rid (csPending s)\<rparr>)) r
          else r)"

definition dropCredential :: "env \<Rightarrow> httpRequest \<Rightarrow> gostring \<Rightarrow> registry \<Rightarrow> registry" where
  "dropCredential E req nodeID r =
     appendAuditLocked (clock E 0)
       \<lparr>aeTime = 0, aeAction = ''credential_revoked'', aeNodeID = nodeID, aeNodeName = '''',
        aeRequestID = '''', aeSource = requestSource (rqRemoteAddr req)\<rparr>
       (updState (\<lambda>s. s\<lparr>csAuthorized := mdel nodeID (csAuthorized s), csNodes := mdel nodeID (csNodes s)\<rparr>) r)"

definition revokeNode :: "'z json_scheme \<Rightarrow> env \<Rightarrow> httpRequest \<Rightarrow> registry \<Rightarrow> response \<times> registry" where
  "revokeNode L E req r =
     (if \<not> adminAuthorized req r then (HttpError ''unauthorized'' 401, r)
      else case decodeJSON (streamRevoke L) req of
        Inl err \<Rightarrow> (err, r)
      | Inr nodeID \<Rightarrow>
          if trimSpace nodeID = '''' then (HttpError ''node_id is required'' 400, r)
          else if mget (csAuthorized (state r)) nodeID = None
          then (HttpError ''authorized node not found'' 404, r)
          else let r1 = dropCredential E req nodeID r;
                   r2 = fold (revokePending E nodeID) (rangeKeys (visit E 6) (csPending (state r1))) r1
               in case persistLocked (writes E 0) r2 of
                    (False, r') \<Rightarrow> (HttpError ''failed to persist revocation'' 500, r')
                  | (True, r') \<Rightarrow> (WriteJSON 200 (RevokedPayload nodeID), r'))"

section \<open>Case rules\<close>

text \<open>
  One rule per handler: a predicate of the answer and the registry after it holds if it holds on
  every path of the handler, with what the guards on that path have established. The proofs
  below, and those of the server's invariants, go through these rules.
\<close>

definition persistOr :: "writeOutcome \<Rightarrow> response \<Rightarrow> gostring \<Rightarrow> registry \<Rightarrow> response \<times> registry" where
  "persistOr outcome answer failure r =
     (if fst (persistLocked outcome r) then answer else HttpError failure 500, snd (persistLocked outcome r))"

lemma persistOr_eqs:
  "(case persistLocked out r of (ok, r') \<Rightarrow> if \<not> ok then (HttpError m 500, r') else (a, r')) = persistOr out a m r"
  "(case persistLocked out r of (False, r') \<Rightarrow> (HttpError m 500, r') | (True, r') \<Rightarrow> (a, r')) = persistOr out a m r"
  by (auto simp: persistOr_def split: prod.split bool.split)

lemma drawn_request_id:
  "allocateRequestIDLocked E st = Some rid \<Longrightarrow>
     length rid = 64 \<and> mget (csPending st) rid = None \<and> mget (csHistory st) rid = None"
  unfolding allocateRequestIDLocked_def by (drule request_ids.fresh) simp

lemma drawn_device_code:
  "allocateDeviceCodeLocked E st = Some code \<Longrightarrow>
     (\<exists>supply. randomDeviceCode supply = Some code) \<and>
     (\<forall>k p. mget (csPending st) k = Some p \<longrightarrow> phDeviceCode p \<noteq> code)"
  unfolding allocateDeviceCodeLocked_def by (drule device_codes.fresh) (force dest: mget_in_set)

lemma enrollLocked_cases:
  fixes E r0 defines "r \<equiv> snd (cleanupLocked E (clock E 1) r0)"
  assumes "\<And>m c. 400 \<le> c \<Longrightarrow> P (HttpError m c, r)"
    and "\<And>rid code. \<lbrakk>allocateRequestIDLocked E (state r) = Some rid;
          allocateDeviceCodeLocked E (state r) = Some code;
          dnRole (phNode pending0) = ''subnode'' \<longrightarrow> activeUpstream (csNodes (state r)) (phNode pending0);
          length (csPending (state r)) < maxPendingHandshakes;
          sourcePending (phSource pending0) (state r) < maxPendingPerSource\<rbrakk>
        \<Longrightarrow> P (persistOr (writes E 0) (WriteJSON 201 (EnrollmentPayload
                    \<lparr>esRequestID = rid, esSecret = secret, esDeviceCode = code,
                     esExpiresAt = phExpiresAt pending0, esStatus = '''', esCredential = None\<rparr>))
               ''failed to persist handshake''
               (addPending E (pending0\<lparr>phRequestID := rid, phDeviceCode := code\<rparr>) r))"
  shows "P (enrollLocked E pending0 secret r0)"
  unfolding enrollLocked_def r_def [symmetric] Let_def persistOr_eqs
  using assms(3) by (simp add: assms(2) split: option.split)

lemma requestEnrollment_cases:
  assumes "\<And>m c. 400 \<le> c \<Longrightarrow> P (HttpError m c, r)"
    and "\<And>input secret pending0. \<lbrakk>streamDiscovery L (take maxBody (rqBody req)) = Some input;
          dnID (drNode input) \<noteq> ''''; dnName (drNode input) \<noteq> ''''; dnVirtualNetwork (drNode input) = network r;
          randomToken (entropy E 0) = Some secret;
          pending0 = \<lparr>phRequestID = '''', phSecretHash = hexEncode (sha256 L secret), phDeviceCode = '''',
            phNode = drNode input, phPublicKey = drPublicKey input, phSource = requestSource (rqRemoteAddr req),
            phExpiresAt = clock E 0 + handshakeLifetime, phApproved = False, phRejected = False\<rparr>\<rbrakk>
        \<Longrightarrow> P (enrollLocked E pending0 secret r)"
  shows "P (requestEnrollment L E req r)"
  using assms by (simp add: requestEnrollment_def decodeJSON_def Let_def split: option.split)

lemma pollEnrollment_cases:
  assumes "\<And>m c. 400 \<le> c \<Longrightarrow> P (HttpError m c, r0)"
    and "\<And>resp r. r = snd (persistLocked (writes E 0) (snd (cleanupLocked E (clock E 0) r0))) \<Longrightarrow>
          (\<exists>m c. resp = HttpError m c \<and> 400 \<le> c)
          \<or> (\<exists>rid secret pending. streamPoll L (take maxBody (rqBody req)) = Some (rid, secret)
              \<and> mget (csPending (state r)) rid = Some pending \<and> matchesHash L secret (phSecretHash pending)
              \<and> resp = WriteJSON 200 (PollPayload (pollStatus pending) (phExpiresAt pending)
                       (hhReason (mgetz zeroHistory (csHistory (state r)) rid))))
        \<Longrightarrow> P (resp, r)"
  shows "P (pollEnrollment L E req r0)"
  using assms by (simp add: pollEnrollment_def decodeJSON_def Let_def split: option.split)

lemma listHandshakes_cases:
  assumes "P (HttpError ''unauthorized'' 401, r0)"
    and "\<And>items. adminAuthorized req r0 \<Longrightarrow> P (WriteJSON 200 (HandshakesPayload items),
           snd (persistLocked (writes E 0) (snd (cleanupLocked E (clock E 0) r0))))"
  shows "P (listHandshakes E req r0)"
  using assms by (simp add: listHandshakes_def Let_def)

lemma listAudit_cases:
  assumes "P (HttpError ''unauthorized'' 401, r)"
    and "\<And>items. adminAuthorized req r \<Longrightarrow> P (WriteJSON 200 (AuditPayload items), r)"
  shows "P (listAudit req r)"
  using assms by (simp add: listAudit_def)

lemma findByCode_Some:
  "findByCode E code st = Some (rid, pending) \<Longrightarrow>
     mget (csPending st) rid = Some pending \<and> phDeviceCode pending = code \<and> rid \<noteq> ''''"
  by (auto simp: findByCode_def find_Some_iff split: option.splits if_splits)

lemma approveHandshake_cases:
  fixes E r0 defines "r \<equiv> snd (cleanupLocked E (clock E 0) r0)"
  assumes "\<And>m c. 400 \<le> c \<Longrightarrow> P (HttpError m c, r0)"
    and "\<And>m c. adminAuthorized req r0 \<Longrightarrow> 400 \<le> c \<Longrightarrow> P (HttpError m c, r)"
    and "\<And>input rid pending. \<lbrakk>adminAuthorized req r0; mget (csPending (state r)) rid = Some pending;
          phApproved pending\<rbrakk>
        \<Longrightarrow> P (WriteJSON 200 (ApprovedPayload (dnName (phNode pending)) (phExpiresAt pending)), r)"
    and "\<And>input rid pending. \<lbrakk>adminAuthorized req r0;
          streamApprove L (take maxBody (rqBody req)) = Some input;
          mget (csPending (state r)) rid = Some pending; rid \<noteq> '''';
          phDeviceCode pending = normalizeDeviceCode L (arDeviceCode input);
          \<not> phRejected pending; \<not> phApproved pending;
          \<forall>existing. mget (csAuthorized (state r)) (dnID (phNode pending)) = Some existing \<longrightarrow>
             auPublicKey existing = phPublicKey pending \<or> arReplace input\<rbrakk>
        \<Longrightarrow> P (persistOr (writes E 0)
               (WriteJSON 200 (ApprovedPayload (dnName (phNode pending)) (phExpiresAt pending)))
               ''failed to persist credential'' (approvePending E req rid pending r))"
  shows "P (approveHandshake L E req r0)"
  unfolding approveHandshake_def decodeJSON_def r_def [symmetric] Let_def persistOr_eqs
  using assms(4,5)
  by (auto simp: assms(2,3) split: option.split dest!: findByCode_Some)

lemma rejectHandshake_cases:
  fixes E r0 defines "r \<equiv> snd (cleanupLocked E (clock E 0) r0)"
  assumes "\<And>m c. 400 \<le> c \<Longrightarrow> P (HttpError m c, r0)"
    and "\<And>m c. adminAuthorized req r0 \<Longrightarrow> 400 \<le> c \<Longrightarrow> P (HttpError m c, r)"
    and "\<And>input rid pending. \<lbrakk>adminAuthorized req r0;
          streamApprove L (take maxBody (rqBody req)) = Some input;
          mget (csPending (state r)) rid = Some pending; rid \<noteq> '''';
          phDeviceCode pending = normalizeDeviceCode L (arDeviceCode input); \<not> phApproved pending;
          length (trimSpace (arReason input)) \<le> maxEnrollmentReason\<rbrakk>
        \<Longrightarrow> P (persistOr (writes E 0) (WriteJSON 200 (RejectedPayload (dnName (phNode pending))))
               ''failed to persist rejection'' (rejectPending E req (arReason input) rid pending r))"
  shows "P (rejectHandshake L E req r0)"
  unfolding rejectHandshake_def decodeJSON_def r_def [symmetric] Let_def persistOr_eqs
  using assms(4)
  by (auto simp: assms(2,3) not_less split: option.split dest!: findByCode_Some)

definition revoked :: "env \<Rightarrow> httpRequest \<Rightarrow> gostring \<Rightarrow> registry \<Rightarrow> registry" where
  "revoked E req nodeID r =
     fold (revokePending E nodeID) (rangeKeys (visit E 6) (csPending (state r))) (dropCredential E req nodeID r)"

lemma dropCredential_pending [simp]:
  "csPending (state (dropCredential E req nodeID r)) = csPending (state r)"
  by (simp add: dropCredential_def)

lemma revokeNode_cases:
  assumes "\<And>m c. 400 \<le> c \<Longrightarrow> P (HttpError m c, r)"
    and "\<And>nodeID. \<lbrakk>adminAuthorized req r; streamRevoke L (take maxBody (rqBody req)) = Some nodeID;
          mget (csAuthorized (state r)) nodeID \<noteq> None\<rbrakk>
        \<Longrightarrow> P (persistOr (writes E 0) (WriteJSON 200 (RevokedPayload nodeID))
               ''failed to persist revocation'' (revoked E req nodeID r))"
  shows "P (revokeNode L E req r)"
  unfolding revokeNode_def decodeJSON_def Let_def dropCredential_pending revoked_def [symmetric] persistOr_eqs
  using assms(2) by (auto simp: assms(1) split: option.split)

end
