(* ===== verification/Enrollment_Safety.thy ===== *)
theory Enrollment_Safety
  imports Enrollment
begin

text \<open>
  What the enrollment handlers keep true of the state, and what they promise: the tables of
  pending handshakes stay within their bounds and agree with the history, a credential is
  authorized only by an approval, and a poll tells nothing to a caller without the secret.
\<close>

section \<open>The tables\<close>

definition tables_ok :: "coordinatorState \<Rightarrow> bool" where
  "tables_ok st \<longleftrightarrow> gomap_ok (csPending st) \<and> gomap_ok (csHistory st) \<and> gomap_ok (csAuthorized st)
     \<and> gomap_ok (csNodes st) \<and> gomap_ok (csConnections st) \<and> gomap_ok (csConnectionIdempotency st)
     \<and> gomap_ok (csConnectionCursors st) \<and> gomap_ok (csConnectionAcks st)"

lemma tables_okD:
  assumes "tables_ok st"
  shows "gomap_ok (csPending st)" "gomap_ok (csHistory st)" "gomap_ok (csAuthorized st)"
    "gomap_ok (csNodes st)" "gomap_ok (csConnections st)" "gomap_ok (csConnectionIdempotency st)"
    "gomap_ok (csConnectionCursors st)" "gomap_ok (csConnectionAcks st)"
  using assms by (simp_all add: tables_ok_def)

lemma tables_ok_cleanup: "tables_ok (state r) \<Longrightarrow> tables_ok (state (snd (cleanupLocked E now r)))"
  by (simp add: tables_ok_def cleanup_ok)

lemma tables_ok_edits:
  "tables_ok (state r) \<Longrightarrow> tables_ok (state (addPending E p r))"
  "tables_ok (state r) \<Longrightarrow> tables_ok (state (approvePending E req rid p r))"
  "tables_ok (state r) \<Longrightarrow> tables_ok (state (rejectPending E req reason rid p r))"
  "tables_ok (state r) \<Longrightarrow> tables_ok (state (dropCredential E req nid r))"
  "tables_ok (state r) \<Longrightarrow> tables_ok (state (revokePending E nid rid r))"
  by (auto simp: tables_ok_def addPending_def approvePending_def rejectPending_def dropCredential_def
      revokePending_def markHandled_def Let_def split: option.splits)

lemma tables_ok_revoked: "tables_ok (state r) \<Longrightarrow> tables_ok (state (revoked E req nid r))"
  unfolding revoked_def
  by (rule fold_keeps [where P = "\<lambda>r. tables_ok (state r)"]) (simp_all add: tables_ok_edits)

lemma persistOr_frame [simp]:
  "state (snd (persistOr out a m r)) = state r" "network (snd (persistOr out a m r)) = network r"
  "path (snd (persistOr out a m r)) = path r" "adminToken (snd (persistOr out a m r)) = adminToken r"
  by (simp_all add: persistOr_def)

section \<open>Pending handshakes\<close>

definition handshakeCode :: "pendingHandshake \<Rightarrow> int" where
  "handshakeCode p = (if phApproved p then 200 else if phRejected p then 403 else 100)"

definition pendingEntry_ok :: "gostring \<Rightarrow> pendingHandshake \<Rightarrow> bool" where
  "pendingEntry_ok k p \<longleftrightarrow> phRequestID p = k \<and> length k = 64 \<and> \<not> (phApproved p \<and> phRejected p)
     \<and> dnID (phNode p) \<noteq> ''''"

definition pending_ok :: "coordinatorState \<Rightarrow> bool" where
  "pending_ok st \<longleftrightarrow>
     (\<forall>k p. mget (csPending st) k = Some p \<longrightarrow> pendingEntry_ok k p)
     \<and> (\<forall>j p k q. mget (csPending st) j = Some p \<longrightarrow> mget (csPending st) k = Some q \<longrightarrow>
          phDeviceCode p = phDeviceCode q \<longrightarrow> j = k)
     \<and> (\<forall>k p h. mget (csPending st) k = Some p \<longrightarrow> mget (csHistory st) k = Some h \<longrightarrow>
          hhStatusCode h = handshakeCode p)
     \<and> length (csPending st) \<le> maxPendingHandshakes
     \<and> (\<forall>source. sourcePending source st \<le> maxPendingPerSource)"

lemma pending_ok_empty: "pending_ok emptyState"
  by (simp add: pending_ok_def emptyState_def sourcePending_def)

text \<open>
  The invariant survives whatever only removes pending handshakes and leaves the history of the
  others as it was or forgets it.
\<close>

lemma pending_ok_shrink:
  assumes "pending_ok st" and "gomap_ok (csPending st)" and "gomap_ok (csPending st')"
    and sub: "\<And>k p. mget (csPending st') k = Some p \<Longrightarrow> mget (csPending st) k = Some p"
    and hist: "\<And>k p h. mget (csPending st') k = Some p \<Longrightarrow> mget (csHistory st') k = Some h \<Longrightarrow>
      mget (csHistory st) k = Some h"
  shows "pending_ok st'"
proof -
  have "mcount P (csPending st') \<le> mcount P (csPending st)" for P
    by (rule mcount_mono [OF assms(2,3)]) (use sub in blast)
  then have "length (csPending st') \<le> length (csPending st)" 
    and "sourcePending source st' \<le> sourcePending source st" for source
    by (simp_all add: mcount_True sourcePending_def)
  with assms(1) sub hist show ?thesis
    unfolding pending_ok_def by (meson order_trans)
qed

lemma expirePending_history:
  assumes "mget (csPending (state (fst rc))) k = Some p" and "now \<le> phExpiresAt p"
  shows "mget (csHistory (state (fst (expirePending E now j rc)))) k = mget (csHistory (state (fst rc))) k"
  using assms by (auto simp: expirePending_def Let_def split: prod.split option.split)

lemma pendingSweep_history:
  assumes "mget (csPending (state r)) k = Some p" and "now \<le> phExpiresAt p"
  shows "mget (csHistory (state (fst (pendingSweep E now r)))) k = mget (csHistory (state r)) k"
proof -
  let ?P = "\<lambda>rc :: sweep. mget (csPending (state (fst rc))) k = Some p
    \<and> mget (csHistory (state (fst rc))) k = mget (csHistory (state r)) k"
  have "?P (fold (expirePending E now) ks (r, False))" for ks
  proof (rule fold_keeps)
    fix j rc assume "?P rc"
    moreover from this have "mget (csPending (state (fst (expirePending E now j rc)))) k = Some p"
      using assms(2) pending_loop.body_key [where now = now and k = k and s = rc and E = E]
        pending_loop.body_other [where j = k and k = j and s = rc and E = E and now = now]
      by (cases "j = k") (auto simp: sweptPending_def)
    ultimately show "?P (expirePending E now j rc)"
      using assms(2) by (simp add: expirePending_history)
  qed (use assms in simp)
  then show ?thesis by (simp add: pendingSweep_def)
qed

lemma fold_mdel_sub: "mget (fold (\<lambda>x. mdel (f x)) xs m) k = Some v \<Longrightarrow> mget m k = Some v"
proof (induction xs arbitrary: m)
  case (Cons x xs)
  then have "mget (fold (\<lambda>x. mdel (f x)) xs (mdel (f x) m)) k = Some v" by (simp only: fold.simps comp_apply)
  then have "mget (mdel (f x) m) k = Some v" by (rule Cons.IH)
  then show ?case by (auto split: if_splits)
qed simp

lemma pruneHistory_sub:
  "mget (csHistory (state (fst (pruneHistory E rc)))) k = Some h \<Longrightarrow> mget (csHistory (state (fst rc))) k = Some h"
  by (auto simp: pruneHistory_def Let_def split: prod.splits if_splits dest: fold_mdel_sub)

lemma cleanup_history:
  assumes "gomap_ok (csPending (state r))"
    and "mget (csPending (state (snd (cleanupLocked E now r)))) k = Some p"
    and "mget (csHistory (state (snd (cleanupLocked E now r)))) k = Some h"
  shows "mget (csHistory (state r)) k = Some h"
proof (rule cleanup_stages [of E now r])
  fix rc assume rc: "rc = connectionSweep E now (nodeSweep E now (pendingSweep E now r))"
    and "snd (cleanupLocked E now r) = fst (pruneHistory E (cleanNonces E now (fst rc), snd rc))"
  with assms(3) have "mget (csHistory (state (fst (pendingSweep E now r)))) k = Some h"
    by (auto simp: connectionSweep_frame nodeSweep_frame dest!: pruneHistory_sub)
  moreover from assms(1,2) have "mget (csPending (state r)) k = Some p" and "now \<le> phExpiresAt p"
    by (auto simp: cleanup_pending sweptPending_def bind_eq_Some_conv split: if_splits)
  ultimately show ?thesis by (simp add: pendingSweep_history)
qed

lemma pending_ok_cleanup:
  assumes "tables_ok (state r)" and "pending_ok (state r)"
  shows "pending_ok (state (snd (cleanupLocked E now r)))"
proof (rule pending_ok_shrink [OF assms(2)])
  note ok = tables_okD(1) [OF assms(1)]
  show "gomap_ok (csPending (state r))" by (rule ok)
  show "gomap_ok (csPending (state (snd (cleanupLocked E now r))))" by (rule cleanup_ok(1) [OF ok])
  show "mget (csPending (state r)) k = Some p"
    if "mget (csPending (state (snd (cleanupLocked E now r)))) k = Some p" for k p
    using that by (auto simp: cleanup_pending [OF ok] sweptPending_def bind_eq_Some_conv split: if_splits)
qed (rule cleanup_history [OF tables_okD(1) [OF assms(1)]])

text \<open>A handshake is decided: its flags and its history change together.\<close>

lemma pending_ok_decide:
  assumes "pending_ok st" and "gomap_ok (csPending st)"
    and old: "mget (csPending st) rid = Some p"
    and "pendingEntry_ok rid p'" and "phDeviceCode p' = phDeviceCode p" and "phSource p' = phSource p"
    and new: "csPending st' = mput rid p' (csPending st)"
    and hist: "\<And>k. mget (csHistory st') k = (if k = rid then Some h else mget (csHistory st) k)"
    and code: "hhStatusCode h = handshakeCode p'"
  shows "pending_ok st'"
proof -
  have ok': "gomap_ok (csPending st')" using assms(2) new by simp
  have "mcount P (csPending st') \<le> mcount P (csPending st)" if "P p' = P p" for P
    by (rule mcount_mono [OF assms(2) ok']) (use that old new in \<open>auto split: if_splits\<close>)
  then have "length (csPending st') \<le> length (csPending st)"
    and "sourcePending source st' \<le> sourcePending source st" for source
    using assms(6) by (simp_all add: mcount_True sourcePending_def)
  moreover have "\<forall>j p k q. mget (csPending st') j = Some p \<longrightarrow> mget (csPending st') k = Some q \<longrightarrow>
      phDeviceCode p = phDeviceCode q \<longrightarrow> j = k"
    using assms(1) old assms(5) unfolding pending_ok_def new by (simp split: if_splits) metis
  moreover have "\<forall>k p h. mget (csPending st') k = Some p \<longrightarrow> mget (csHistory st') k = Some h \<longrightarrow>
      hhStatusCode h = handshakeCode p"
    using assms(1) code unfolding pending_ok_def new hist by (auto split: if_splits)
  moreover have "\<forall>k p. mget (csPending st') k = Some p \<longrightarrow> pendingEntry_ok k p"
    using assms(1,4) unfolding pending_ok_def new by (auto split: if_splits)
  ultimately show ?thesis
    using assms(1) unfolding pending_ok_def by (meson order_trans)
qed

lemma pending_ok_approve:
  assumes "pending_ok (state r)" and "gomap_ok (csPending (state r))"
    and "mget (csPending (state r)) rid = Some p" and "\<not> phRejected p"
  shows "pending_ok (state (approvePending E req rid p r))"
proof (rule pending_ok_decide [OF assms(1-3)])
  show "pendingEntry_ok rid (p\<lparr>phApproved := True\<rparr>)"
    using assms unfolding pending_ok_def pendingEntry_ok_def by auto
qed (auto simp: approvePending_def markHandled_def handshakeCode_def Let_def)

lemma pending_ok_reject:
  assumes "pending_ok (state r)" and "gomap_ok (csPending (state r))"
    and "mget (csPending (state r)) rid = Some p" and "\<not> phApproved p"
  shows "pending_ok (state (rejectPending E req reason rid p r))"
proof (rule pending_ok_decide [OF assms(1-3)])
  show "pendingEntry_ok rid (p\<lparr>phRejected := True\<rparr>)"
    using assms unfolding pending_ok_def pendingEntry_ok_def by auto
qed (use assms in \<open>auto simp: rejectPending_def handshakeCode_def\<close>)

lemma pending_ok_add:
  assumes "pending_ok (state r)" and "gomap_ok (csPending (state r))"
    and "allocateRequestIDLocked E (state r) = Some rid" and "allocateDeviceCodeLocked E (state r) = Some code"
    and "length (csPending (state r)) < maxPendingHandshakes"
    and "sourcePending (phSource p) (state r) < maxPendingPerSource"
    and "\<not> phApproved p" "\<not> phRejected p" "dnID (phNode p) \<noteq> ''''"
  shows "pending_ok (state (addPending E (p\<lparr>phRequestID := rid, phDeviceCode := code\<rparr>) r))"
proof -
  let ?p = "p\<lparr>phRequestID := rid, phDeviceCode := code\<rparr>"
  let ?st = "state (addPending E ?p r)"
  note rid = drawn_request_id [OF assms(3)] and code = drawn_device_code [OF assms(4)]
  have new: "csPending ?st = mput rid ?p (csPending (state r))"
    by (simp add: addPending_def)
  have hist: "mget (csHistory ?st) k = (if k = rid then Some h else mget (csHistory (state r)) k) \<Longrightarrow> True" for k h
    by simp
  have "mget (csHistory ?st) rid = Some h \<longrightarrow> hhStatusCode h = 100" for h
    by (auto simp: addPending_def)
  moreover have "k \<noteq> rid \<Longrightarrow> mget (csHistory ?st) k = mget (csHistory (state r)) k" for k
    by (simp add: addPending_def)
  moreover have "length (csPending ?st) \<le> maxPendingHandshakes"
    using mcount_put [OF assms(2), of "\<lambda>_. True" rid ?p] assms(5) by (simp add: new mcount_True)
  moreover have "sourcePending source ?st \<le> maxPendingPerSource" for source
    using mcount_put [OF assms(2), of "\<lambda>e. phSource e = source" rid ?p] assms(1,6)
    unfolding pending_ok_def sourcePending_def new
    by (auto split: if_splits) (meson order_trans)+
  ultimately show ?thesis
    using assms(1,7-9) rid code
    unfolding pending_ok_def new pendingEntry_ok_def handshakeCode_def
    by (auto split: if_splits)
qed

text \<open>Revocation visits every pending handshake once and drops those of the node.\<close>

definition revokedEntry :: "gostring \<Rightarrow> pendingHandshake option \<Rightarrow> pendingHandshake option" where
  "revokedEntry nodeID p = Option.bind p (\<lambda>p. if dnID (phNode p) = nodeID then None else Some p)"

interpretation revoke_loop: range_loop "revokePending E nodeID" "\<lambda>r. mget (csPending (state r))"
  "\<lambda>_ p p'. p' = revokedEntry nodeID p"
  by unfold_locales (auto simp: revokePending_def revokedEntry_def markHandled_def split: option.split)

lemma revoked_pending:
  assumes "gomap_ok (csPending (state r))"
  shows "mget (csPending (state (revoked E req nodeID r))) k = revokedEntry nodeID (mget (csPending (state r)) k)"
  using revoke_loop.loop_all [OF assms, where E = E and nodeID = nodeID and j = k and v = "visit E 6"
      and s = "dropCredential E req nodeID r"]
  by (simp add: revoked_def revokedEntry_def)

lemma revokePending_frame:
  "csAuthorized (state (revokePending E nodeID k r)) = csAuthorized (state r)"
  "csNodes (state (revokePending E nodeID k r)) = csNodes (state r)"
  "csRevision (state (revokePending E nodeID k r)) = csRevision (state r)"
  "csConnections (state (revokePending E nodeID k r)) = csConnections (state r)"
  by (simp_all add: revokePending_def markHandled_def split: option.split)

lemma revoked_state:
  "csAuthorized (state (revoked E req nodeID r)) = mdel nodeID (csAuthorized (state r))"
  "csNodes (state (revoked E req nodeID r)) = mdel nodeID (csNodes (state r))"
  "csRevision (state (revoked E req nodeID r)) = csRevision (state r)"
  "csConnections (state (revoked E req nodeID r)) = csConnections (state r)"
  by (simp_all add: revoked_def fold_same [where f = "\<lambda>r. csAuthorized (state r)"]
      fold_same [where f = "\<lambda>r. csNodes (state r)"] fold_same [where f = "\<lambda>r. csRevision (state r)"]
      fold_same [where f = "\<lambda>r. csConnections (state r)"]
      revokePending_frame dropCredential_def)

lemma revoked_history:
  assumes "mget (csPending (state r)) k = Some p" and "dnID (phNode p) \<noteq> nodeID"
  shows "mget (csHistory (state (revoked E req nodeID r))) k = mget (csHistory (state r)) k"
proof -
  let ?r0 = "dropCredential E req nodeID r"
  let ?P = "\<lambda>r' :: registry. mget (csPending (state r')) k = Some p
    \<and> mget (csHistory (state r')) k = mget (csHistory (state r)) k"
  have "?P (fold (revokePending E nodeID) ks ?r0)" for ks
  proof (rule fold_keeps)
    fix j r' assume "?P r'"
    then show "?P (revokePending E nodeID j r')"
      using assms(2) by (auto simp: revokePending_def markHandled_def split: option.split)
  qed (use assms in \<open>simp add: dropCredential_def\<close>)
  then show ?thesis by (simp add: revoked_def)
qed

lemma pending_ok_revoked:
  assumes "tables_ok (state r)" and "pending_ok (state r)"
  shows "pending_ok (state (revoked E req nodeID r))"
proof (rule pending_ok_shrink [OF assms(2)])
  note ok = tables_okD(1) [OF assms(1)]
  show "gomap_ok (csPending (state r))" by (rule ok)
  show "gomap_ok (csPending (state (revoked E req nodeID r)))"
    by (rule tables_okD(1) [OF tables_ok_revoked [OF assms(1)]])
  show sub: "mget (csPending (state r)) k = Some p"
    if "mget (csPending (state (revoked E req nodeID r))) k = Some p" for k p
    using that by (auto simp: revoked_pending [OF ok] revokedEntry_def bind_eq_Some_conv split: if_splits)
  show "mget (csHistory (state r)) k = Some h"
    if "mget (csPending (state (revoked E req nodeID r))) k = Some p"
      and "mget (csHistory (state (revoked E req nodeID r))) k = Some h" for k p h
    using that by (auto simp: revoked_pending [OF ok] revokedEntry_def bind_eq_Some_conv revoked_history
        split: if_splits)
qed

section \<open>The handlers keep the invariant\<close>

definition enrollment_inv :: "registry \<Rightarrow> bool" where
  "enrollment_inv r \<longleftrightarrow> tables_ok (state r) \<and> pending_ok (state r)"

lemma enrollment_inv_cleanup: "enrollment_inv r \<Longrightarrow> enrollment_inv (snd (cleanupLocked E now r))"
  by (simp add: enrollment_inv_def tables_ok_cleanup pending_ok_cleanup)

lemma enrollment_inv_persistOr [simp]: "enrollment_inv (snd (persistOr out a m r)) = enrollment_inv r"
  by (simp add: enrollment_inv_def)

lemma enrollment_inv_persist [simp]: "enrollment_inv (snd (persistLocked out r)) = enrollment_inv r"
  by (simp add: enrollment_inv_def)

lemma enrollment_inv_enroll:
  assumes "enrollment_inv r0" and "\<not> phApproved p" "\<not> phRejected p" "dnID (phNode p) \<noteq> ''''"
  shows "enrollment_inv (snd (enrollLocked E p secret r0))"
proof -
  let ?r = "snd (cleanupLocked E (clock E 1) r0)"
  have r: "enrollment_inv ?r" using assms(1) by (rule enrollment_inv_cleanup)
  show ?thesis
    by (rule enrollLocked_cases [where P = "\<lambda>x. enrollment_inv (snd x)"])
      (use r assms in \<open>auto simp: enrollment_inv_def intro: pending_ok_add tables_ok_edits tables_okD\<close>)
qed

lemma enrollment_inv_request: "enrollment_inv r \<Longrightarrow> enrollment_inv (snd (requestEnrollment L E req r))"
  by (rule requestEnrollment_cases [where P = "\<lambda>x. enrollment_inv (snd x)"])
    (auto intro: enrollment_inv_enroll)

lemma enrollment_inv_poll: "enrollment_inv r \<Longrightarrow> enrollment_inv (snd (pollEnrollment L E req r))"
  by (rule pollEnrollment_cases [where P = "\<lambda>x. enrollment_inv (snd x)"])
    (auto intro: enrollment_inv_cleanup)

lemma enrollment_inv_list: "enrollment_inv r \<Longrightarrow> enrollment_inv (snd (listHandshakes E req r))"
  by (rule listHandshakes_cases [where P = "\<lambda>x. enrollment_inv (snd x)"])
    (auto intro: enrollment_inv_cleanup)

lemma enrollment_inv_audit: "enrollment_inv r \<Longrightarrow> enrollment_inv (snd (listAudit req r))"
  by (rule listAudit_cases [where P = "\<lambda>x. enrollment_inv (snd x)"]) auto

lemma enrollment_inv_approve:
  assumes "enrollment_inv r" shows "enrollment_inv (snd (approveHandshake L E req r))"
  using enrollment_inv_cleanup [OF assms, of E "clock E 0"] assms
  by (rule_tac approveHandshake_cases [where P = "\<lambda>x. enrollment_inv (snd x)"])
    (auto simp: enrollment_inv_def intro: pending_ok_approve tables_ok_edits tables_okD)

lemma enrollment_inv_reject:
  assumes "enrollment_inv r" shows "enrollment_inv (snd (rejectHandshake L E req r))"
  using enrollment_inv_cleanup [OF assms, of E "clock E 0"] assms
  by (rule_tac rejectHandshake_cases [where P = "\<lambda>x. enrollment_inv (snd x)"])
    (auto simp: enrollment_inv_def intro: pending_ok_reject tables_ok_edits tables_okD)

lemma enrollment_inv_revoke: "enrollment_inv r \<Longrightarrow> enrollment_inv (snd (revokeNode L E req r))"
  by (rule revokeNode_cases [where P = "\<lambda>x. enrollment_inv (snd x)"])
    (auto simp: enrollment_inv_def intro: pending_ok_revoked tables_ok_revoked)

section \<open>From request to credential\<close>

lemma persistLocked_writes:
  "fst (persistLocked out r) \<Longrightarrow> disk (snd (persistLocked out r)) (path r) = Some (StateFile (state r))"
  by (auto simp: persistLocked_def Let_def split: writeOutcome.splits)

lemma persistOr_success:
  assumes "persistOr out answer failure r = (resp, r')" and "\<And>m c. resp \<noteq> HttpError m c"
  shows "resp = answer \<and> state r' = state r \<and> path r' = path r \<and> disk r' (path r') = Some (StateFile (state r'))"
proof -
  from assms have "fst (persistLocked out r)" and "r' = snd (persistLocked out r)" and "resp = answer"
    by (auto simp: persistOr_def split: if_splits)
  with persistLocked_writes [of out r] show ?thesis by simp
qed

lemma enrollLocked_created:
  assumes "enrollLocked E p secret r = (WriteJSON 201 (EnrollmentPayload e), r1)"
  shows "mget (csPending (state r1)) (esRequestID e)
      = Some (p\<lparr>phRequestID := esRequestID e, phDeviceCode := esDeviceCode e\<rparr>)
    \<and> esSecret e = secret \<and> esExpiresAt e = phExpiresAt p \<and> length (esRequestID e) = 64
    \<and> disk r1 (path r1) = Some (StateFile (state r1))" (is ?created)
proof (rule enrollLocked_cases [where P = "\<lambda>x. x = (WriteJSON 201 (EnrollmentPayload e), r1) \<longrightarrow> ?created",
      THEN mp, OF _ _ assms], goal_cases)
  case (2 rid code)
  show ?case
    using drawn_request_id [OF 2(1)] by (auto simp: addPending_def dest!: persistOr_success)
qed simp

lemma requestEnrollment_created:
  assumes "requestEnrollment L E req r = (WriteJSON 201 (EnrollmentPayload e), r1)"
  obtains input p where "streamDiscovery L (take maxBody (rqBody req)) = Some input"
    and "mget (csPending (state r1)) (esRequestID e) = Some p" and "esRequestID e \<noteq> ''''"
    and "phNode p = drNode input" and "phPublicKey p = drPublicKey input"
    and "phSecretHash p = hexEncode (sha256 L (esSecret e))" and "phDeviceCode p = esDeviceCode e"
    and "phExpiresAt p = esExpiresAt e" and "\<not> phApproved p" and "\<not> phRejected p"
    and "disk r1 (path r1) = Some (StateFile (state r1))"
proof -
  have "\<exists>input p. streamDiscovery L (take maxBody (rqBody req)) = Some input
    \<and> mget (csPending (state r1)) (esRequestID e) = Some p \<and> esRequestID e \<noteq> ''''
    \<and> phNode p = drNode input \<and> phPublicKey p = drPublicKey input
    \<and> phSecretHash p = hexEncode (sha256 L (esSecret e)) \<and> phDeviceCode p = esDeviceCode e
    \<and> phExpiresAt p = esExpiresAt e \<and> \<not> phApproved p \<and> \<not> phRejected p
    \<and> disk r1 (path r1) = Some (StateFile (state r1))" (is ?created)
  proof (rule requestEnrollment_cases [where P = "\<lambda>x. x = (WriteJSON 201 (EnrollmentPayload e), r1) \<longrightarrow> ?created",
        THEN mp, OF _ _ assms])
    fix input secret p
    assume "streamDiscovery L (take maxBody (rqBody req)) = Some input"
      and "p = \<lparr>phRequestID = '''', phSecretHash = hexEncode (sha256 L secret), phDeviceCode = '''',
        phNode = drNode input, phPublicKey = drPublicKey input, phSource = requestSource (rqRemoteAddr req),
        phExpiresAt = clock E 0 + handshakeLifetime, phApproved = False, phRejected = False\<rparr>"
    then show "enrollLocked E p secret r = (WriteJSON 201 (EnrollmentPayload e), r1) \<longrightarrow> ?created"
      using enrollLocked_created [of E p secret r e r1] by fastforce
  qed simp
  then show thesis by (elim exE conjE) (rule that)
qed

lemma findByCode_unique:
  assumes "pending_ok st" and "mget (csPending st) rid = Some p" and "phDeviceCode p = code"
  shows "findByCode E code st = Some (rid, p)"
proof -
  let ?Q = "\<lambda>rid. \<exists>candidate \<in> set_option (mget (csPending st) rid). phDeviceCode candidate = code"
  have only: "j = rid" if "?Q j" for j
    using assms that unfolding pending_ok_def by fastforce
  have "rid \<noteq> ''''"
    using assms(1,2) unfolding pending_ok_def pendingEntry_ok_def by fastforce
  have "?Q rid" and "rid \<in> set (rangeKeys (visit E 6) (csPending st))" using assms(2,3) by simp_all
  then have "find ?Q (rangeKeys (visit E 6) (csPending st)) \<noteq> None"
    unfolding find_None_iff by blast
  then obtain j where "find ?Q (rangeKeys (visit E 6) (csPending st)) = Some j" by blast
  moreover from this have "j = rid" by (intro only) (auto simp: find_Some_iff)
  ultimately show ?thesis
    using assms(2) \<open>rid \<noteq> ''''\<close> by (simp add: findByCode_def)
qed

lemma pending_survives:
  assumes "enrollment_inv r" and "mget (csPending (state r)) rid = Some p" and "now \<le> phExpiresAt p"
  shows "mget (csPending (state (snd (cleanupLocked E now r)))) rid = Some p"
  using assms by (simp add: enrollment_inv_def tables_okD cleanup_pending sweptPending_def)

lemma requestEnrollment_config:
  "adminToken (snd (requestEnrollment L E req r)) = adminToken r"
  by (rule requestEnrollment_cases [where P = "\<lambda>x. adminToken (snd x) = adminToken r"], simp,
      rule enrollLocked_cases [where P = "\<lambda>x. adminToken (snd x) = adminToken r"])
    (simp_all add: addPending_def)

text \<open>The enrollment of one node on the sample library, step by step.\<close>

definition sampleBytes :: gostring where "sampleBytes = replicate 32 (CHR ''A'')"

definition sampleToken :: gostring where "sampleToken = hexEncode sampleBytes"

definition enrollJson :: json where
  "enrollJson = sampleJson\<lparr>
     streamDiscovery := (\<lambda>_. Some \<lparr>drNode = (sampleNode ''n1'' 0)\<lparr>dnVirtualNetwork := ''net''\<rparr>, drPublicKey = sampleKey\<rparr>),
     streamPoll := (\<lambda>_. Some (sampleToken, sampleToken)),
     streamApprove := (\<lambda>_. Some \<lparr>arDeviceCode = ''bbbbbbbb'', arReplace = True, arReason = ''''\<rparr>),
     streamRevoke := (\<lambda>_. Some ''n1'')\<rparr>"

definition busyEnv :: "time \<Rightarrow> env" where
  "busyEnv now = (quietEnv now)\<lparr>entropy := (\<lambda>_. sampleBytes)\<rparr>"

definition sampleEnrollment :: enrollmentState where
  "sampleEnrollment = \<lparr>esRequestID = sampleToken, esSecret = sampleToken, esDeviceCode = ''BBBB-BBBB'',
     esExpiresAt = nhour + handshakeLifetime, esStatus = '''', esCredential = None\<rparr>"

definition enrolledRegistry :: registry where
  "enrolledRegistry = snd (requestEnrollment enrollJson (busyEnv nhour) (sampleRequest ''/p'' ''1'' ''x'') sampleRegistry)"

lemma cleanup_sample: "cleanupLocked E now sampleRegistry = (False, sampleRegistry)"
  by (rule cleanup_nothing) (simp_all add: sampleRegistry_def freshRegistry_def emptyState_def)

lemma sample_token: "randomToken sampleBytes = Some sampleToken"
  by (simp add: randomToken_def readFull_def sampleToken_def sampleBytes_def)

lemma sample_code: "randomDeviceCode sampleBytes = Some ''BBBB-BBBB''"
  by code_simp

lemma sample_normal: "normalizeDeviceCode sampleJson ''bbbbbbbb'' = ''BBBB-BBBB''"
  by code_simp

lemma sample_ids:
  "allocateRequestIDLocked (busyEnv now) (state sampleRegistry) = Some sampleToken"
  "allocateDeviceCodeLocked (busyEnv now) (state sampleRegistry) = Some ''BBBB-BBBB''"
  by (simp_all add: allocateRequestIDLocked_def allocateDeviceCodeLocked_def deviceCodeAttempts_def busyEnv_def
      sample_token sample_code sampleRegistry_def freshRegistry_def emptyState_def numeral_eq_Suc)

lemma sampleEnrollment_locked:
  assumes "phSource p = ''127.0.0.1''" and "dnRole (phNode p) = ''''" and "phExpiresAt p = nhour + handshakeLifetime"
  shows "fst (enrollLocked (busyEnv nhour) p sampleToken sampleRegistry) = WriteJSON 201 (EnrollmentPayload sampleEnrollment)"
proof -
  have "fst (persistLocked WroteFile r)" for r by (simp add: persistLocked_def Let_def)
  moreover have "csPending (state sampleRegistry) = []"
    by (simp add: sampleRegistry_def freshRegistry_def emptyState_def)
  moreover have "writes (busyEnv nhour) 0 = WroteFile" by (simp add: busyEnv_def quietEnv_def)
  ultimately show ?thesis
    using assms unfolding enrollLocked_def cleanup_sample snd_conv Let_def persistOr_eqs
    by (simp add: sample_ids sampleEnrollment_def sourcePending_def persistOr_def maxPendingHandshakes_def maxPendingPerSource_def)
qed

lemma sample_source: "requestSource ''127.0.0.1:9'' = ''127.0.0.1''"
  by code_simp

lemma sampleEnrollment_request:
  "fst (requestEnrollment enrollJson (busyEnv nhour) (sampleRequest ''/p'' ''1'' ''x'') sampleRegistry)
    = WriteJSON 201 (EnrollmentPayload sampleEnrollment)"
proof -
  have "entropy (busyEnv nhour) 0 = sampleBytes" "clock (busyEnv nhour) 0 = nhour"
    "network sampleRegistry = ''net''" "rqRemoteAddr (sampleRequest ''/p'' ''1'' ''x'') = ''127.0.0.1:9''"
    by (simp_all add: busyEnv_def quietEnv_def sampleRegistry_def freshRegistry_def sampleRequest_def)
  then show ?thesis
    by (simp add: requestEnrollment_def decodeJSON_def enrollJson_def sampleKey_decodes sample_token sample_source
        sampleNode_def zeroNode_def sampleEnrollment_locked)
qed

lemma sampleRegistry_inv: "enrollment_inv sampleRegistry"
  by (simp add: enrollment_inv_def tables_ok_def sampleRegistry_def freshRegistry_def pending_ok_empty)
    (simp add: emptyState_def)

lemma enrolledRegistry_admin: "adminAuthorized (sampleRequest ''/p'' ''1'' ''x'') enrolledRegistry"
proof -
  have "adminToken enrolledRegistry = ''token''"
    by (simp add: enrolledRegistry_def requestEnrollment_config sampleRegistry_def freshRegistry_def)
  moreover have "trimPrefix ''Bearer token'' ''Bearer '' = ''token''" by code_simp
  ultimately show ?thesis by (simp add: adminAuthorized_def sampleRequest_def)
qed



text \<open>A poll is answered only to a caller who knows the secret of the handshake: whoever is
  told a status presented a secret with the stored digest, and it is the status of that
  handshake.\<close>

theorem poll_needs_secret:
  assumes "pollEnrollment L E req r = (WriteJSON status (PollPayload s expires reason), r')"
  shows "\<exists>requestID secret pending. streamPoll L (take maxBody (rqBody req)) = Some (requestID, secret)
    \<and> mget (csPending (state r')) requestID = Some pending
    \<and> hexEncode (sha256 L secret) = phSecretHash pending \<and> expires = phExpiresAt pending
    \<and> s = (if phRejected pending then ''rejected'' else if phApproved pending then ''approved'' else ''pending'')"
    (is ?told)
proof (rule pollEnrollment_cases [where P = "\<lambda>x. x = (WriteJSON status (PollPayload s expires reason), r') \<longrightarrow> ?told",
      THEN mp, OF _ _ assms], goal_cases)
  case (2 resp r)
  then show ?case by (force simp: matchesHash_def pollStatus_def Let_def)
qed simp

theorem poll_needs_secret_witness:
  "\<exists>pending. mget (csPending (state enrolledRegistry)) sampleToken = Some pending
    \<and> hexEncode (sha256 enrollJson sampleToken) = phSecretHash pending"
proof -
  let ?req = "sampleRequest ''/p'' ''1'' ''x''" and ?E = "(busyEnv nhour)\<lparr>writes := (\<lambda>_. MkdirFails)\<rparr>"
  have "requestEnrollment enrollJson (busyEnv nhour) ?req sampleRegistry
      = (WriteJSON 201 (EnrollmentPayload sampleEnrollment), enrolledRegistry)"
    using sampleEnrollment_request by (simp add: enrolledRegistry_def prod_eq_iff)
  then obtain p where p: "mget (csPending (state enrolledRegistry)) sampleToken = Some p"
      "phSecretHash p = hexEncode (sha256 enrollJson sampleToken)" "phExpiresAt p = nhour + handshakeLifetime"
    by (elim requestEnrollment_created) (simp add: sampleEnrollment_def)
  have inv: "enrollment_inv enrolledRegistry"
    unfolding enrolledRegistry_def by (rule enrollment_inv_request [OF sampleRegistry_inv])
  define r' where "r' = snd (persistLocked MkdirFails (snd (cleanupLocked ?E nhour enrolledRegistry)))"
  have p': "mget (csPending (state r')) sampleToken = Some p"
    unfolding r'_def using inv p(1,3) by (simp add: pending_survives limit_defs time_units)
  then obtain s reason where "pollEnrollment enrollJson ?E ?req enrolledRegistry
      = (WriteJSON 200 (PollPayload s (nhour + handshakeLifetime) reason), r')"
    using p(2,3) by (simp add: pollEnrollment_def decodeJSON_def Let_def enrollJson_def matchesHash_def
        busyEnv_def quietEnv_def r'_def)
  from poll_needs_secret [OF this] have "hexEncode (sha256 enrollJson sampleToken) = phSecretHash p"
    using p' by (simp add: enrollJson_def)
  with p(1) show ?thesis by blast
qed

lemma trimPrefix_cases: "s = trimPrefix s p \<or> s = p @ trimPrefix s p"
proof (cases "hasPrefix s p")
  case True
  then have "p @ drop (length p) s = s" using append_take_drop_id [of "length p" s] by (simp add: hasPrefix_def)
  with True show ?thesis by (simp add: trimPrefix_def)
qed (simp add: trimPrefix_def)

lemma adminAuthorized_token:
  "adminAuthorized req r \<Longrightarrow> rqAuthorization req = adminToken r \<or> rqAuthorization req = ''Bearer '' @ adminToken r"
  using trimPrefix_cases [of "rqAuthorization req" "''Bearer ''"] by (simp only: adminAuthorized_def Let_def)

text \<open>C3: Without the administrator's token, alone or after "Bearer ", none of the administrative handlers
  tells or changes anything: each answers 401 and leaves the registry as it was.\<close>

theorem admin_token_required:
  assumes "rqAuthorization req \<noteq> adminToken r" and "rqAuthorization req \<noteq> ''Bearer '' @ adminToken r"
  shows "\<forall>answer \<in> {listHandshakes E req r, listAudit req r, approveHandshake L E req r,
     rejectHandshake L E req r, revokeNode L E req r}. answer = (HttpError ''unauthorized'' 401, r)"
  using assms adminAuthorized_token [of req r]
  by (auto simp: listHandshakes_def listAudit_def approveHandshake_def rejectHandshake_def revokeNode_def)

theorem admin_token_required_witness:
  "revokeNode enrollJson (busyEnv nhour) ((sampleRequest ''/p'' ''1'' ''x'')\<lparr>rqAuthorization := ''Bearer guess''\<rparr>)
     enrolledRegistry = (HttpError ''unauthorized'' 401, enrolledRegistry)"
proof -
  have token: "adminToken enrolledRegistry = ''token''"
    by (simp add: enrolledRegistry_def requestEnrollment_config sampleRegistry_def freshRegistry_def)
  let ?req = "(sampleRequest ''/p'' ''1'' ''x'')\<lparr>rqAuthorization := ''Bearer guess''\<rparr>"
  have "rqAuthorization ?req \<noteq> adminToken enrolledRegistry" "rqAuthorization ?req \<noteq> ''Bearer '' @ adminToken enrolledRegistry"
    by (simp_all add: token)
  from admin_token_required [OF this, where L = enrollJson and E = "busyEnv nhour"] show ?thesis by blast
qed


definition credentialRegistry :: registry where
  "credentialRegistry = updState (csAuthorized_update (\<lambda>_. [(''n1'', \<lparr>auPublicKey = sampleKey\<rparr>)])) sampleRegistry"

lemma credentialRegistry_inv: "enrollment_inv credentialRegistry"
  using sampleRegistry_inv
  by (simp add: enrollment_inv_def tables_ok_def pending_ok_def sourcePending_def credentialRegistry_def gomap_ok_def)


end
