(* ===== verification/Nodes.thy ===== *)
theory Nodes
  imports Enrollment_Safety
begin

text \<open>
  Registration, heartbeats and discovery (src/internal/app/coordinator_nodes.go).
  \<open>updateNode\<close> checks and normalises what a node reports, stores it, decides whether the topology
  revision moves and completes approved enrollments; \<open>discoverNodes\<close> tells a node about its peers.
\<close>

section \<open>Direct candidates and services\<close>

datatype candidateListError = TooManyCandidates | BadCandidate candidateError

fun candidateLoop :: "time \<Rightarrow> gostring set \<Rightarrow> directCandidate list \<Rightarrow> directCandidate list \<Rightarrow>
    candidateListError + directCandidate list" where
  "candidateLoop expiry seen output [] = Inr output"
| "candidateLoop expiry seen output (candidate # rest) =
     (case validateDirectCandidate (dcAddress candidate) of
        Some err \<Rightarrow> Inl (BadCandidate err)
      | None \<Rightarrow>
          if dcAddress candidate \<in> seen then candidateLoop expiry seen output rest
          else candidateLoop expiry (insert (dcAddress candidate) seen)
                 (output @ [\<lparr>dcAddress = dcAddress candidate, dcExpiresAt = expiry\<rparr>]) rest)"

definition managedDirectCandidates ::
    "directCandidate list \<Rightarrow> time \<Rightarrow> candidateListError + directCandidate list" where
  "managedDirectCandidates input expiry =
     (if maxDirectCandidates < length input then Inl TooManyCandidates
      else map_sum id (sortBy dcAddress) (candidateLoop expiry {} [] input))"

text \<open>One round of the service loop of \<open>updateNode\<close>, and the loop.\<close>

definition prepareService ::
    "'z lib_scheme \<Rightarrow> time \<Rightarrow> discoveredNode \<Rightarrow> publishedService \<Rightarrow> publishedService option" where
  "prepareService L now n service =
     (case managedDirectCandidates (svDirectCandidates service) (now + directCandidateLease) of
        Inl _ \<Rightarrow> None
      | Inr candidates \<Rightarrow>
          if svName service = '''' \<or> svUUID service = '''' \<or> \<not> validSHA256Pin L (svPinnedSHA256 service) then None
          else Some (service\<lparr>svNodeID := dnID n, svSegment := dnSegment n, svDirectCandidates := candidates\<rparr>))"

fun prepareServices ::
    "'z lib_scheme \<Rightarrow> time \<Rightarrow> discoveredNode \<Rightarrow> publishedService list \<Rightarrow> publishedService list option" where
  "prepareServices L now n [] = Some []"
| "prepareServices L now n (service # rest) =
     (case prepareService L now n service of
        None \<Rightarrow> None
      | Some prepared \<Rightarrow> map_option ((#) prepared) (prepareServices L now n rest))"

definition checkRelay :: "'z lib_scheme \<Rightarrow> discoveredNode \<Rightarrow> response + discoveredNode" where
  "checkRelay L n =
     (if dnRole n = ''relay'' then
        (case dnRelay n of
           None \<Rightarrow> Inl (HttpError ''invalid relay advertisement'' 400)
         | Some relay \<Rightarrow>
             if validateHostPort (raEndpoint relay) \<noteq> None \<or> \<not> validSHA256Pin L (raPinnedSHA256 relay)
                \<or> raPriority relay < 0
             then Inl (HttpError ''invalid relay advertisement'' 400)
             else Inr n)
      else Inr (n\<lparr>dnRelay := None\<rparr>))"

definition checkUpstream :: "(gostring, discoveredNode) gomap \<Rightarrow> discoveredNode \<Rightarrow> response + discoveredNode" where
  "checkUpstream nodes n =
     (if dnRole n = ''subnode'' then
        (if dnUpstreamRelay n = '''' then Inl (HttpError ''subnode has no upstream relay'' 400)
         else if \<not> activeUpstream nodes n
         then Inl (HttpError ''subnode upstream is not an active relay in the same segment'' 400)
         else Inr n)
      else Inr (n\<lparr>dnUpstreamRelay := ''''\<rparr>))"

section \<open>Topology\<close>

definition topologyWithoutLeases :: "discoveredNode \<Rightarrow> discoveredNode" where
  "topologyWithoutLeases node =
     node\<lparr>dnLastSeen := 0,
          dnServices := map (\<lambda>service. service\<lparr>svDirectCandidates :=
            map (\<lambda>candidate. candidate\<lparr>dcExpiresAt := 0\<rparr>) (svDirectCandidates service)\<rparr>) (dnServices node)\<rparr>"

text \<open>Equality of the marshalled nodes is equality of every field, all of which are marshalled.\<close>

definition sameNodeTopology :: "discoveredNode \<Rightarrow> discoveredNode \<Rightarrow> bool" where
  "sameNodeTopology left right \<longleftrightarrow> topologyWithoutLeases left = topologyWithoutLeases right"

definition directCandidateRenewalDue :: "discoveredNode \<Rightarrow> time \<Rightarrow> bool" where
  "directCandidateRenewalDue node now \<longleftrightarrow>
     (let refreshAt = now + directCandidateLease div 2
      in \<exists>service \<in> set (dnServices node). \<exists>candidate \<in> set (svDirectCandidates service).
           dcExpiresAt candidate \<noteq> 0 \<and> dcExpiresAt candidate \<le> refreshAt)"

definition nodeForDiscovery :: "discoveredNode \<Rightarrow> discoveredNode \<Rightarrow> discoveredNode" where
  "nodeForDiscovery requester candidate =
     (if dnSegment requester = dnSegment candidate then candidate
      else candidate\<lparr>dnServices := map (svDirectCandidates_update (\<lambda>_. [])) (dnServices candidate)\<rparr>)"

definition peersOf :: "env \<Rightarrow> discoveredNode \<Rightarrow> gostring \<Rightarrow> coordinatorState \<Rightarrow> discoveredNode list" where
  "peersOf E requester nodeID st =
     map (nodeForDiscovery requester)
       (filter (\<lambda>candidate. dnVirtualNetwork candidate = dnVirtualNetwork requester \<and> dnID candidate \<noteq> nodeID)
         (rangeVals (visit E 7) (csNodes st)))"

section \<open>Updating a node\<close>

definition completeEnrollment ::
    "env \<Rightarrow> httpRequest \<Rightarrow> discoveredNode \<Rightarrow> gostring \<Rightarrow> time \<Rightarrow> gostring \<Rightarrow> registry \<Rightarrow> registry" where
  "completeEnrollment E req n publicKey now rid r =
     (case mget (csPending (state r)) rid of
        None \<Rightarrow> r
      | Some pending \<Rightarrow>
          if dnID (phNode pending) = dnID n \<and> phApproved pending \<and> phPublicKey pending = publicKey then
            appendAuditLocked (auditClock E rid)
              \<lparr>aeTime = 0, aeAction = ''enrollment_completed'', aeNodeID = dnID n, aeNodeName = dnName n,
               aeRequestID = rid, aeSource = requestSource (rqRemoteAddr req)\<rparr>
              (updState (\<lambda>s. markHandled rid 201 now (s\<lparr>csPending := mdel rid (csPending s)\<rparr>)) r)
          else r)"

definition storeNode :: "discoveredNode \<Rightarrow> time \<Rightarrow> registry \<Rightarrow> registry" where
  "storeNode n now r =
     updState (\<lambda>s. s\<lparr>csNodes := mput (dnID n) n (csNodes s),
        csRevision :=
          (case mget (csNodes s) (dnID n) of
             None \<Rightarrow> csRevision s + 1
           | Some old \<Rightarrow> if \<not> sameNodeTopology old n \<or> directCandidateRenewalDue old now
                         then csRevision s + 1 else csRevision s)\<rparr>) r"

definition admitNode ::
    "env \<Rightarrow> httpRequest \<Rightarrow> gostring \<Rightarrow> time \<Rightarrow> discoveredNode \<Rightarrow> registry \<Rightarrow> registry" where
  "admitNode E req publicKey now n r =
     (let r1 = storeNode n now r;
          r2 = fold (completeEnrollment E req n publicKey now) (rangeKeys (visit E 6) (csPending (state r1))) r1
      in snd (cleanupLocked E now r2))"

text \<open>What the node reported, checked and normalised, as it will be stored.\<close>

definition acceptNode ::
    "'z lib_scheme \<Rightarrow> coordinatorState \<Rightarrow> gostring \<Rightarrow> gostring \<Rightarrow> time \<Rightarrow> discoveredNode \<Rightarrow> response + discoveredNode" where
  "acceptNode L st net publicKey now input =
     (if dnName input = '''' \<or> dnVirtualNetwork input \<noteq> net
      then Inl (HttpError ''virtual network is not allowed'' 403)
      else let n = input\<lparr>dnIdentityKey := publicKey\<rparr>
      in case prepareServices L now n (dnServices n) of
           None \<Rightarrow> Inl (HttpError ''invalid published service'' 400)
         | Some services \<Rightarrow>
             (case checkRelay L (n\<lparr>dnServices := services\<rparr>) of
                Inl err \<Rightarrow> Inl err
              | Inr n1 \<Rightarrow>
                  (case checkUpstream (csNodes st) n1 of
                     Inl err \<Rightarrow> Inl err
                   | Inr n2 \<Rightarrow> Inr (n2\<lparr>dnLastSeen := now\<rparr>))))"

definition updateNode ::
    "'z json_scheme \<Rightarrow> env \<Rightarrow> httpRequest \<Rightarrow> registry \<Rightarrow>
      (response + discoveredNode \<times> discoveredNode list \<times> uint64) \<times> registry" where
  "updateNode L E req r0 =
     (case readBody req of
        None \<Rightarrow> (Inl (HttpError ''invalid body'' 400), r0)
      | Some body \<Rightarrow>
          let nodeID = rqNode req
          in case mget (csAuthorized (state r0)) nodeID of
            None \<Rightarrow> (Inl (HttpError ''invalid node signature'' 401), r0)
          | Some authorized \<Rightarrow>
              (case verifySignatureLocked L (clock E 0) req body (auPublicKey authorized) r0 of
                 (False, r1) \<Rightarrow> (Inl (HttpError ''invalid node signature'' 401), r1)
               | (True, r1) \<Rightarrow>
                   (case allowRequestLocked (''node:'' @ nodeID) publicRequestsPerMinute (clock E 1) r1 of
                      (False, r2) \<Rightarrow> (Inl (HttpError ''node rate limit exceeded'' 429), r2)
                    | (True, r2) \<Rightarrow>
                        (case jsonDiscovery L body of
                           None \<Rightarrow> (Inl (HttpError ''invalid JSON or node id'' 400), r2)
                         | Some input \<Rightarrow>
                             if dnID (drNode input) \<noteq> nodeID
                             then (Inl (HttpError ''invalid JSON or node id'' 400), r2)
                             else let now = clock E 2
                             in case acceptNode L (state r2) (network r2) (auPublicKey authorized) now (drNode input) of
                                  Inl err \<Rightarrow> (Inl err, r2)
                                | Inr n \<Rightarrow>
                                    let r3 = admitNode E req (auPublicKey authorized) now n r2;
                                        nodes = peersOf E n (dnID n) (state r3);
                                        (ok, r4) = persistLocked (writes E 0) r3
                                    in if \<not> ok then (Inl (HttpError ''failed to persist registry'' 500), r4)
                                       else (Inr (n, sortBy dnName nodes, csRevision (state r4)), r4)))))"

definition registerNode :: "'z json_scheme \<Rightarrow> env \<Rightarrow> httpRequest \<Rightarrow> registry \<Rightarrow> response \<times> registry" where
  "registerNode L E req r =
     (case updateNode L E req r of
        (Inl err, r') \<Rightarrow> (err, r')
      | (Inr (_, nodes, revision), r') \<Rightarrow> (WriteJSON 200 (DiscoveryPayload revision True nodes), r'))"

definition heartbeatNode :: "'z json_scheme \<Rightarrow> env \<Rightarrow> httpRequest \<Rightarrow> registry \<Rightarrow> response \<times> registry" where
  "heartbeatNode L E req r =
     (case updateNode L E req r of
        (Inl err, r') \<Rightarrow> (err, r')
      | (Inr (_, _, revision), r') \<Rightarrow> (WriteJSON 200 (HeartbeatPayload revision (clock E 3)), r'))"

section \<open>Discovery\<close>

definition discoverLocked :: "env \<Rightarrow> gostring \<Rightarrow> uint64 \<Rightarrow> registry \<Rightarrow> response \<times> registry" where
  "discoverLocked E nodeID afterRevision r0 =
     (let r = snd (cleanupLocked E (clock E 2) r0)
      in case mget (csNodes (state r)) nodeID of
           None \<Rightarrow> (HttpError ''node must heartbeat before discovery'' 409, r)
         | Some node \<Rightarrow>
             let revision = csRevision (state r)
             in if afterRevision = revision then (WriteJSON 200 (DiscoveryPayload revision False []), r)
                else (WriteJSON 200 (DiscoveryPayload revision True
                        (sortBy dnName (peersOf E node nodeID (state r)))), r))"

definition discoverBody :: "'z json_scheme \<Rightarrow> env \<Rightarrow> gostring \<Rightarrow> gostring \<Rightarrow> registry \<Rightarrow> response \<times> registry" where
  "discoverBody L E body nodeID r =
     (case jsonSync L body of
        None \<Rightarrow> (HttpError ''invalid JSON'' 400, r)
      | Some afterRevision \<Rightarrow> discoverLocked E nodeID afterRevision r)"

definition discoverNodes :: "'z json_scheme \<Rightarrow> env \<Rightarrow> httpRequest \<Rightarrow> registry \<Rightarrow> response \<times> registry" where
  "discoverNodes L E req r =
     (case authenticatedConnectionBody L E req r of
        (Inl err, r1) \<Rightarrow> (err, r1)
      | (Inr (body, nodeID), r1) \<Rightarrow> discoverBody L E body nodeID r1)"

end
