(* ===== verification/Nodes_Safety.thy ===== *)
theory Nodes_Safety
  imports Nodes
begin

text \<open>
  What registration and discovery promise: stored nodes are well formed and authorized, the
  revision moves exactly when peers have something to learn (with one exception), registration
  completes the enrollment, and discovery never tells a peer in another segment a direct address.
\<close>

section \<open>Case rules\<close>

text \<open>Authentication touches the nonces and the rate windows.\<close>

lemma verify_nonces:
  obtains ns where "snd (verifySignatureLocked L now req body key r) = r\<lparr>nonces := ns\<rparr>"
proof (rule verify_touches [of L now req body key r, THEN disjE])
  assume "snd (verifySignatureLocked L now req body key r) = r"
  then show thesis by (intro that [of "nonces r"]) simp
qed (rule that)

lemma allow_rates:
  obtains rs where "snd (allowRequestLocked key limit now r) = r\<lparr>rates := rs\<rparr>"
proof -
  have "P (snd (allowRequestLocked key limit now r))" if "P r" and "\<And>rs. P (r\<lparr>rates := rs\<rparr>)" for P
    using that by (simp add: allowRequestLocked_def Let_def)
  from this [of "\<lambda>r'. \<exists>rs. r' = r\<lparr>rates := rs\<rparr>"] have "\<exists>rs. snd (allowRequestLocked key limit now r) = r\<lparr>rates := rs\<rparr>"
    by (metis registry.surjective registry.update_convs(6))
  with that show thesis by blast
qed

lemma auth_rates:
  obtains ns rs where "snd (allowRequestLocked key limit now' (snd (verifySignatureLocked L now req body k r)))
    = r\<lparr>nonces := ns, rates := rs\<rparr>"
proof -
  obtain ns where ns: "snd (verifySignatureLocked L now req body k r) = r\<lparr>nonces := ns\<rparr>" by (rule verify_nonces)
  obtain rs where "snd (allowRequestLocked key limit now' (r\<lparr>nonces := ns\<rparr>)) = r\<lparr>nonces := ns, rates := rs\<rparr>"
    by (rule allow_rates)
  with ns that show thesis by simp
qed

lemma authenticatedConnectionBody_cases:
  assumes "\<And>m c ns rs. 400 \<le> c \<Longrightarrow> P (Inl (HttpError m c), r\<lparr>nonces := ns, rates := rs\<rparr>)"
    and "\<And>body authorized ns rs. \<lbrakk>readBody req = Some body;
          mget (csAuthorized (state r)) (rqNode req) = Some authorized;
          fst (verifySignatureLocked L (clock E 0) req body (auPublicKey authorized) r)\<rbrakk>
        \<Longrightarrow> P (Inr (body, rqNode req), r\<lparr>nonces := ns, rates := rs\<rparr>)"
  shows "P (authenticatedConnectionBody L E req r)"
proof -
  have r: "r = r\<lparr>nonces := nonces r, rates := rates r\<rparr>" by simp
  have refused: "400 \<le> c \<Longrightarrow> P (Inl (HttpError m c), r)" for m c
    by (subst r) (rule assms(1))
  show ?thesis
  proof (cases "readBody req")
    case None
    then show ?thesis by (simp add: authenticatedConnectionBody_def refused)
  next
    case (Some body)
    note body = this
    show ?thesis
    proof (cases "mget (csAuthorized (state r)) (rqNode req)")
      case None
      with body show ?thesis by (simp add: authenticatedConnectionBody_def refused)
    next
      case (Some authorized)
      define v where "v = verifySignatureLocked L (clock E 0) req body (auPublicKey authorized) r"
      define a where "a = allowRequestLocked (''connection-node:'' @ rqNode req) (publicRequestsPerMinute * 5) (clock E 1) (snd v)"
      obtain ns where ns: "snd v = r\<lparr>nonces := ns\<rparr>" unfolding v_def by (rule verify_nonces)
      have refused': "400 \<le> c \<Longrightarrow> P (Inl (HttpError m c), r\<lparr>nonces := ns\<rparr>)" for m c
        using assms(1) [where c = c and m = m and ns = ns and rs = "rates r"] by simp
      obtain ns' rs where a: "snd a = r\<lparr>nonces := ns', rates := rs\<rparr>"
        unfolding a_def v_def by (rule auth_rates)
      have "authenticatedConnectionBody L E req r =
          (if fst v then (if fst a then (Inr (body, rqNode req), snd a)
             else (Inl (HttpError ''node rate limit exceeded'' 429), snd a))
           else (Inl (HttpError ''invalid node signature'' 401), snd v))"
        by (simp add: authenticatedConnectionBody_def body Some Let_def v_def a_def split: prod.split bool.split)
      then show ?thesis
        using assms(2) [OF body Some, folded v_def] by (simp add: a ns assms(1) refused')
    qed
  qed
qed

lemma checkRelay_Inl: "checkRelay L n = Inl err \<Longrightarrow> err = HttpError ''invalid relay advertisement'' 400"
  by (auto simp: checkRelay_def split: if_splits option.splits)

lemma checkUpstream_Inl: "checkUpstream nodes n = Inl err \<Longrightarrow> \<exists>m. err = HttpError m 400"
  by (auto simp: checkUpstream_def split: if_splits)

lemma acceptNode_Inl: "acceptNode L st net key now input = Inl err \<Longrightarrow> \<exists>m c. err = HttpError m c \<and> 400 \<le> c"
  by (auto simp: acceptNode_def Let_def split: if_splits option.splits sum.splits
      dest: checkRelay_Inl checkUpstream_Inl)

definition updateAnswer ::
    "env \<Rightarrow> discoveredNode \<Rightarrow> registry \<Rightarrow> (response + discoveredNode \<times> discoveredNode list \<times> uint64) \<times> registry" where
  "updateAnswer E n r =
     (if fst (persistLocked (writes E 0) r)
      then Inr (n, sortBy dnName (peersOf E n (dnID n) (state r)), csRevision (state r))
      else Inl (HttpError ''failed to persist registry'' 500), snd (persistLocked (writes E 0) r))"

lemma updateNode_cases:
  assumes "\<And>m c ns rs. 400 \<le> c \<Longrightarrow> P (Inl (HttpError m c), r\<lparr>nonces := ns, rates := rs\<rparr>)"
    and "\<And>body authorized input n ns rs. \<lbrakk>readBody req = Some body;
          mget (csAuthorized (state r)) (rqNode req) = Some authorized;
          fst (verifySignatureLocked L (clock E 0) req body (auPublicKey authorized) r);
          jsonDiscovery L body = Some input; dnID (drNode input) = rqNode req;
          acceptNode L (state r) (network r) (auPublicKey authorized) (clock E 2) (drNode input) = Inr n\<rbrakk>
        \<Longrightarrow> P (updateAnswer E n (admitNode E req (auPublicKey authorized) (clock E 2) n
                 (r\<lparr>nonces := ns, rates := rs\<rparr>)))"
  shows "P (updateNode L E req r)"
proof -
  have r: "r = r\<lparr>nonces := nonces r, rates := rates r\<rparr>" by simp
  have refused: "400 \<le> c \<Longrightarrow> P (Inl (HttpError m c), r)" for m c
    by (subst r) (rule assms(1))
  show ?thesis
  proof (cases "readBody req")
    case None
    then show ?thesis by (simp add: updateNode_def refused)
  next
    case (Some body)
    note body = this
    show ?thesis
    proof (cases "mget (csAuthorized (state r)) (rqNode req)")
      case None
      with body show ?thesis by (simp add: updateNode_def refused)
    next
      case (Some authorized)
      define v where "v = verifySignatureLocked L (clock E 0) req body (auPublicKey authorized) r"
      define a where "a = allowRequestLocked (''node:'' @ rqNode req) publicRequestsPerMinute (clock E 1) (snd v)"
      obtain ns where ns: "snd v = r\<lparr>nonces := ns\<rparr>" unfolding v_def by (rule verify_nonces)
      have refused': "400 \<le> c \<Longrightarrow> P (Inl (HttpError m c), r\<lparr>nonces := ns\<rparr>)" for m c
        using assms(1) [where c = c and m = m and ns = ns and rs = "rates r"] by simp
      obtain ns' rs where a: "snd a = r\<lparr>nonces := ns', rates := rs\<rparr>"
        unfolding a_def v_def by (rule auth_rates)
      have "updateNode L E req r =
          (if fst v then (if fst a then
             (case jsonDiscovery L body of
                None \<Rightarrow> (Inl (HttpError ''invalid JSON or node id'' 400), snd a)
              | Some input \<Rightarrow>
                  if dnID (drNode input) \<noteq> rqNode req then (Inl (HttpError ''invalid JSON or node id'' 400), snd a)
                  else (case acceptNode L (state (snd a)) (network (snd a)) (auPublicKey authorized) (clock E 2)
                          (drNode input) of
                     Inl err \<Rightarrow> (Inl err, snd a)
                   | Inr n \<Rightarrow> updateAnswer E n (admitNode E req (auPublicKey authorized) (clock E 2) n (snd a))))
             else (Inl (HttpError ''node rate limit exceeded'' 429), snd a))
           else (Inl (HttpError ''invalid node signature'' 401), snd v))"
        by (simp add: updateNode_def body Some Let_def updateAnswer_def v_def a_def split: prod.split bool.split option.split sum.split)
          (metis persistLocked_frame(1) snd_conv)
      then show ?thesis
        using assms(2) [OF body Some, folded v_def]
        by (auto simp: a ns assms(1) refused' split: option.split sum.split dest!: acceptNode_Inl)
    qed
  qed
qed


section \<open>Direct candidates\<close>

lemma candidateLoop_Inr:
  assumes "candidateLoop expiry seen out input = Inr result" and "seen = dcAddress ` set out"
    and "distinct (map dcAddress out)"
    and "\<forall>c \<in> set out. validateDirectCandidate (dcAddress c) = None \<and> dcExpiresAt c = expiry"
  shows "dcAddress ` set result = dcAddress ` set out \<union> dcAddress ` set input
    \<and> distinct (map dcAddress result) \<and> length result \<le> length out + length input
    \<and> (\<forall>c \<in> set result. validateDirectCandidate (dcAddress c) = None \<and> dcExpiresAt c = expiry)"
  using assms
proof (induction expiry seen out input rule: candidateLoop.induct)
  case (2 expiry seen out candidate rest)
  show ?case
  proof (cases "dcAddress candidate \<in> seen")
    case True
    from 2(3) True have valid: "validateDirectCandidate (dcAddress candidate) = None"
      and loop: "candidateLoop expiry seen out rest = Inr result"
      by (auto split: option.splits)
    show ?thesis
      using 2(1) [OF valid True loop 2(4-6)] True 2(4) by (simp add: insert_absorb)
  next
    case False
    let ?out = "out @ [\<lparr>dcAddress = dcAddress candidate, dcExpiresAt = expiry\<rparr>]"
    from 2(3) False have valid: "validateDirectCandidate (dcAddress candidate) = None"
      and loop: "candidateLoop expiry (insert (dcAddress candidate) seen) ?out rest = Inr result"
      by (auto split: option.splits)
    have "dcAddress ` set result = dcAddress ` set ?out \<union> dcAddress ` set rest
      \<and> distinct (map dcAddress result) \<and> length result \<le> length ?out + length rest
      \<and> (\<forall>c \<in> set result. validateDirectCandidate (dcAddress c) = None \<and> dcExpiresAt c = expiry)"
      by (rule 2(2) [OF valid False loop]) (use 2(4-6) False valid in auto)
    then show ?thesis by auto
  qed
qed auto

lemma candidateLoop_Inl:
  "(\<exists>err. candidateLoop expiry seen out input = Inl err) \<longleftrightarrow>
     (\<exists>c \<in> set input. validateDirectCandidate (dcAddress c) \<noteq> None)"
  by (induction expiry seen out input rule: candidateLoop.induct) (auto split: option.splits)

lemma managed_Inr:
  assumes "managedDirectCandidates input expiry = Inr result"
  shows "length input \<le> maxDirectCandidates \<and> dcAddress ` set result = dcAddress ` set input
    \<and> sorted (map dcAddress result) \<and> distinct (map dcAddress result) \<and> length result \<le> length input
    \<and> (\<forall>c \<in> set result. validateDirectCandidate (dcAddress c) = None \<and> dcExpiresAt c = expiry)"
proof -
  from assms obtain res where res: "candidateLoop expiry {} [] input = Inr res"
    and short: "length input \<le> maxDirectCandidates" and result: "result = sortBy dcAddress res"
    by (cases "candidateLoop expiry {} [] input") (auto simp: managedDirectCandidates_def split: if_splits)
  from candidateLoop_Inr [OF res] short show ?thesis
    by (simp add: result distinct_map)
qed

lemma validated_candidate:
  "validateDirectCandidate address = None \<Longrightarrow>
     \<exists>host port a. splitHostPort address = Inr (host, port) \<and> portNumber port \<noteq> None \<and> parseIP host = Some a
       \<and> isPrivateIP a \<and> \<not> isLoopbackIP a \<and> \<not> isUnspecifiedIP a \<and> \<not> isMulticastIP a"
  by (auto simp: validateDirectCandidate_def validateHostPort_def hostOf_def split: option.splits sum.splits if_splits)

text \<open>The direct candidates the coordinator manages are exactly the addresses the node
  reported, each once and in order, at most sixteen, all with the lease the coordinator granted
  and all private unicast addresses with a port; a list is refused just when it is too long or has
  an address that is not one.\<close>

theorem managed_candidates:
  "case managedDirectCandidates input expiry of
     Inr result \<Rightarrow> dcAddress ` set result = dcAddress ` set input \<and> sorted (map dcAddress result)
       \<and> distinct (map dcAddress result) \<and> length result \<le> 16
       \<and> (\<forall>c \<in> set result. dcExpiresAt c = expiry
            \<and> (\<exists>host port a. splitHostPort (dcAddress c) = Inr (host, port) \<and> portNumber port \<noteq> None
                 \<and> parseIP host = Some a \<and> isPrivateIP a \<and> \<not> isLoopbackIP a \<and> \<not> isUnspecifiedIP a
                 \<and> \<not> isMulticastIP a))
   | Inl err \<Rightarrow> 16 < length input \<or> (\<exists>c \<in> set input. validateDirectCandidate (dcAddress c) \<noteq> None)"
proof (cases "managedDirectCandidates input expiry")
  case (Inl err)
  then show ?thesis
    using candidateLoop_Inl [of expiry "{}" "[]" input]
    by (auto simp: managedDirectCandidates_def maxDirectCandidates_def split: if_splits sum.splits)
      (cases "candidateLoop expiry {} [] input"; auto)+
next
  case (Inr result)
  note facts = managed_Inr [OF this]
  then have "\<forall>c \<in> set result. \<exists>host port a. splitHostPort (dcAddress c) = Inr (host, port) \<and> portNumber port \<noteq> None
      \<and> parseIP host = Some a \<and> isPrivateIP a \<and> \<not> isLoopbackIP a \<and> \<not> isUnspecifiedIP a \<and> \<not> isMulticastIP a"
    using validated_candidate by blast
  with Inr facts show ?thesis by (simp add: maxDirectCandidates_def)
qed

theorem managed_candidates_witness:
  "\<exists>result. managedDirectCandidates [\<lparr>dcAddress = ''10.0.0.9:80'', dcExpiresAt = 0\<rparr>,
        \<lparr>dcAddress = ''10.0.0.2:80'', dcExpiresAt = 0\<rparr>, \<lparr>dcAddress = ''10.0.0.9:80'', dcExpiresAt = 0\<rparr>] 7 = Inr result
     \<and> dcAddress ` set result = {''10.0.0.2:80'', ''10.0.0.9:80''} \<and> sorted (map dcAddress result)"
proof -
  let ?input = "[\<lparr>dcAddress = ''10.0.0.9:80'', dcExpiresAt = 0\<rparr>, \<lparr>dcAddress = ''10.0.0.2:80'', dcExpiresAt = 0\<rparr>,
    \<lparr>dcAddress = ''10.0.0.9:80'', dcExpiresAt = 0\<rparr>] :: directCandidate list"
  have "validateDirectCandidate ''10.0.0.9:80'' = None" and "validateDirectCandidate ''10.0.0.2:80'' = None"
    by code_simp+
  then obtain result where result: "managedDirectCandidates ?input 7 = Inr result"
    by (simp add: managedDirectCandidates_def maxDirectCandidates_def)
  with managed_candidates [of ?input 7] show ?thesis by auto
qed

section \<open>Stored nodes\<close>

definition service_ok :: "'z lib_scheme \<Rightarrow> discoveredNode \<Rightarrow> publishedService \<Rightarrow> bool" where
  "service_ok L n sv \<longleftrightarrow> svNodeID sv = dnID n \<and> svSegment sv = dnSegment n \<and> svName sv \<noteq> '''' \<and> svUUID sv \<noteq> ''''
     \<and> validSHA256Pin L (svPinnedSHA256 sv) \<and> length (svDirectCandidates sv) \<le> maxDirectCandidates
     \<and> distinct (map dcAddress (svDirectCandidates sv))
     \<and> (\<forall>c \<in> set (svDirectCandidates sv). validateDirectCandidate (dcAddress c) = None)"

definition node_ok :: "'z lib_scheme \<Rightarrow> gostring \<Rightarrow> discoveredNode \<Rightarrow> bool" where
  "node_ok L k n \<longleftrightarrow> dnID n = k \<and> dnName n \<noteq> '''' \<and> (\<forall>sv \<in> set (dnServices n). service_ok L n sv)
     \<and> (if dnRole n = ''relay''
         then \<exists>ra. dnRelay n = Some ra \<and> validateHostPort (raEndpoint ra) = None
                \<and> validSHA256Pin L (raPinnedSHA256 ra) \<and> 0 \<le> raPriority ra
         else dnRelay n = None)
     \<and> (dnRole n \<noteq> ''subnode'' \<longrightarrow> dnUpstreamRelay n = '''')"

definition nodes_ok :: "'z lib_scheme \<Rightarrow> coordinatorState \<Rightarrow> bool" where
  "nodes_ok L st \<longleftrightarrow> (\<forall>k n. mget (csNodes st) k = Some n \<longrightarrow> node_ok L k n \<and> mget (csAuthorized st) k \<noteq> None)"

lemma prepareServices_ok:
  "prepareServices L now n services = Some prepared \<Longrightarrow> \<forall>sv \<in> set prepared. service_ok L n sv"
proof (induction services arbitrary: prepared)
  case (Cons service rest)
  then obtain sv svs where one: "prepareService L now n service = Some sv"
    and "prepareServices L now n rest = Some svs" and "prepared = sv # svs"
    by (auto split: option.splits)
  moreover have "service_ok L n sv"
    using one
    by (auto simp: prepareService_def service_ok_def split: sum.splits if_splits dest!: managed_Inr)
  ultimately show ?case using Cons.IH by auto
qed simp

lemma service_ok_cong: "dnID n = dnID m \<Longrightarrow> dnSegment n = dnSegment m \<Longrightarrow> service_ok L n sv = service_ok L m sv"
  by (simp add: service_ok_def)

definition relayFields_ok :: "'z lib_scheme \<Rightarrow> discoveredNode \<Rightarrow> bool" where
  "relayFields_ok L n \<longleftrightarrow> (if dnRole n = ''relay''
     then \<exists>ra. dnRelay n = Some ra \<and> validateHostPort (raEndpoint ra) = None
            \<and> validSHA256Pin L (raPinnedSHA256 ra) \<and> 0 \<le> raPriority ra
     else dnRelay n = None)"

definition sameIdentity :: "discoveredNode \<Rightarrow> discoveredNode \<Rightarrow> bool" where
  "sameIdentity m n \<longleftrightarrow> dnID m = dnID n \<and> dnName m = dnName n \<and> dnRole m = dnRole n \<and> dnSegment m = dnSegment n
     \<and> dnVirtualNetwork m = dnVirtualNetwork n \<and> dnIdentityKey m = dnIdentityKey n \<and> dnServices m = dnServices n"

lemma checkRelay_Inr: "checkRelay L n = Inr m \<Longrightarrow> sameIdentity m n \<and> relayFields_ok L m"
  by (auto simp: checkRelay_def sameIdentity_def relayFields_ok_def not_less split: if_splits option.splits)

lemma checkUpstream_Inr:
  "checkUpstream nodes n = Inr m \<Longrightarrow> sameIdentity m n \<and> dnRelay m = dnRelay n
     \<and> (dnRole m = ''subnode'' \<longrightarrow> activeUpstream nodes m) \<and> (dnRole m \<noteq> ''subnode'' \<longrightarrow> dnUpstreamRelay m = '''')"
  by (auto simp: checkUpstream_def sameIdentity_def split: if_splits)

lemma activeUpstream_seen [simp]: "activeUpstream nodes (n\<lparr>dnLastSeen := t\<rparr>) = activeUpstream nodes n"
  by (simp add: activeUpstream_def split: option.split)

lemma acceptNode_Inr:
  assumes "acceptNode L st net key now input = Inr n"
  shows "node_ok L (dnID input) n \<and> dnID n = dnID input \<and> dnVirtualNetwork n = net \<and> dnIdentityKey n = key
    \<and> dnLastSeen n = now \<and> (dnRole n = ''subnode'' \<longrightarrow> activeUpstream (csNodes st) n)
    \<and> dnRole n = dnRole input \<and> dnSegment n = dnSegment input \<and> dnName n = dnName input
    \<and> dnVirtualNetwork input = net \<and> dnName input \<noteq> ''''
    \<and> prepareServices L now (input\<lparr>dnIdentityKey := key\<rparr>) (dnServices input) = Some (dnServices n)"
proof -
  let ?n0 = "input\<lparr>dnIdentityKey := key\<rparr>"
  from assms obtain services n1 n2 where 0: "dnName input \<noteq> ''''" "dnVirtualNetwork input = net"
    and 1: "prepareServices L now ?n0 (dnServices input) = Some services"
    and 2: "checkRelay L (?n0\<lparr>dnServices := services\<rparr>) = Inr n1"
    and 3: "checkUpstream (csNodes st) n1 = Inr n2" and 4: "n = n2\<lparr>dnLastSeen := now\<rparr>"
    by (auto simp: acceptNode_def Let_def split: if_splits option.splits sum.splits)
  note n1 = checkRelay_Inr [OF 2] and n2 = checkUpstream_Inr [OF 3]
  have "\<forall>sv \<in> set services. service_ok L n sv"
    using prepareServices_ok [OF 1] n1 n2 by (simp add: 4 service_ok_def sameIdentity_def)
  with 0 1 n1 n2 show ?thesis
    by (auto simp: 4 node_ok_def sameIdentity_def relayFields_ok_def)
qed

section \<open>The stored nodes stay well formed\<close>

lemma service_ok_active:
  "service_ok L n sv \<Longrightarrow> service_ok L n (sv\<lparr>svDirectCandidates := activeCandidates now sv\<rparr>)"
  using le_trans [OF length_filter_le]
  by (auto simp: service_ok_def activeCandidates_def distinct_map_filter)

lemma node_ok_services:
  assumes "node_ok L k n" and "\<forall>sv \<in> set services. service_ok L n sv"
  shows "node_ok L k (n\<lparr>dnServices := services\<rparr>)"
  using assms service_ok_cong [of "n\<lparr>dnServices := services\<rparr>" n L] by (simp add: node_ok_def)

lemma node_ok_swept:
  assumes "sweptNode now (Some m) = Some n" and "node_ok L k m"
  shows "node_ok L k n"
proof -
  have "\<forall>sv \<in> set (dnServices m). service_ok L m sv"
    using assms(2) by (simp add: node_ok_def)
  with assms show ?thesis
    by (auto simp: sweptNode_def intro!: node_ok_services service_ok_active split: if_splits)
qed

lemma nodes_ok_cleanup:
  assumes "tables_ok (state r)" and "nodes_ok L (state r)"
  shows "nodes_ok L (state (snd (cleanupLocked E now r)))"
  unfolding nodes_ok_def
proof (intro allI impI)
  fix k n
  assume "mget (csNodes (state (snd (cleanupLocked E now r)))) k = Some n"
  then have swept: "sweptNode now (mget (csNodes (state r)) k) = Some n"
    using assms(1) by (simp add: tables_okD cleanup_nodes)
  then obtain m where "mget (csNodes (state r)) k = Some m"
    by (auto simp: sweptNode_def bind_eq_Some_conv)
  with assms(2) swept show "node_ok L k n \<and> mget (csAuthorized (state (snd (cleanupLocked E now r)))) k \<noteq> None"
    by (simp add: nodes_ok_def node_ok_swept)
qed

lemma completeEnrollment_frame:
  "csNodes (state (completeEnrollment E req n key now k r)) = csNodes (state r)"
  "csAuthorized (state (completeEnrollment E req n key now k r)) = csAuthorized (state r)"
  "csRevision (state (completeEnrollment E req n key now k r)) = csRevision (state r)"
  "csConnections (state (completeEnrollment E req n key now k r)) = csConnections (state r)"
  "csConnectionIdempotency (state (completeEnrollment E req n key now k r)) = csConnectionIdempotency (state r)"
  "csConnectionCursors (state (completeEnrollment E req n key now k r)) = csConnectionCursors (state r)"
  "csConnectionAcks (state (completeEnrollment E req n key now k r)) = csConnectionAcks (state r)"
  by (simp_all add: completeEnrollment_def markHandled_def split: option.split)

definition completed :: "env \<Rightarrow> httpRequest \<Rightarrow> discoveredNode \<Rightarrow> gostring \<Rightarrow> time \<Rightarrow> registry \<Rightarrow> registry" where
  "completed E req n key now r =
     fold (completeEnrollment E req n key now) (rangeKeys (visit E 6) (csPending (state r))) r"

lemma admitNode_eq: "admitNode E req key now n r = snd (cleanupLocked E now (completed E req n key now (storeNode n now r)))"
  by (simp add: admitNode_def completed_def Let_def)

lemma completed_frame [simp]:
  "csNodes (state (completed E req n key now r)) = csNodes (state r)"
  "csAuthorized (state (completed E req n key now r)) = csAuthorized (state r)"
  "csRevision (state (completed E req n key now r)) = csRevision (state r)"
  "csConnections (state (completed E req n key now r)) = csConnections (state r)"
  "csConnectionIdempotency (state (completed E req n key now r)) = csConnectionIdempotency (state r)"
  "csConnectionCursors (state (completed E req n key now r)) = csConnectionCursors (state r)"
  "csConnectionAcks (state (completed E req n key now r)) = csConnectionAcks (state r)"
  unfolding completed_def
  by (rule fold_same [where f = "\<lambda>r. csNodes (state r)"] fold_same [where f = "\<lambda>r. csAuthorized (state r)"]
      fold_same [where f = "\<lambda>r. csRevision (state r)"] fold_same [where f = "\<lambda>r. csConnections (state r)"]
      fold_same [where f = "\<lambda>r. csConnectionIdempotency (state r)"]
      fold_same [where f = "\<lambda>r. csConnectionCursors (state r)"]
      fold_same [where f = "\<lambda>r. csConnectionAcks (state r)"]; rule completeEnrollment_frame)+

lemma storeNode_frame [simp]:
  "csNodes (state (storeNode n now r)) = mput (dnID n) n (csNodes (state r))"
  "csPending (state (storeNode n now r)) = csPending (state r)"
  "csHistory (state (storeNode n now r)) = csHistory (state r)"
  "csAuthorized (state (storeNode n now r)) = csAuthorized (state r)"
  "csConnections (state (storeNode n now r)) = csConnections (state r)"
  "csConnectionIdempotency (state (storeNode n now r)) = csConnectionIdempotency (state r)"
  "csConnectionCursors (state (storeNode n now r)) = csConnectionCursors (state r)"
  "csConnectionAcks (state (storeNode n now r)) = csConnectionAcks (state r)"
  by (simp_all add: storeNode_def)

lemma tables_ok_completed: "tables_ok (state r) \<Longrightarrow> tables_ok (state (completed E req n key now r))"
  unfolding completed_def
  by (rule fold_keeps [where P = "\<lambda>r. tables_ok (state r)"])
    (auto simp: tables_ok_def completeEnrollment_def markHandled_def split: option.splits)

lemma tables_ok_stored: "tables_ok (state r) \<Longrightarrow> tables_ok (state (storeNode n now r))"
  by (simp add: tables_ok_def)

text \<open>The enrollments a registration completes.\<close>

definition completedEntry :: "discoveredNode \<Rightarrow> gostring \<Rightarrow> pendingHandshake option \<Rightarrow> pendingHandshake option" where
  "completedEntry n key p = Option.bind p (\<lambda>p.
     if dnID (phNode p) = dnID n \<and> phApproved p \<and> phPublicKey p = key then None else Some p)"

interpretation complete_loop: range_loop "completeEnrollment E req n key now"
  "\<lambda>r. mget (csPending (state r))" "\<lambda>_ p p'. p' = completedEntry n key p"
  by unfold_locales (auto simp: completeEnrollment_def completedEntry_def markHandled_def split: option.split)

lemma completed_pending:
  assumes "gomap_ok (csPending (state r))"
  shows "mget (csPending (state (completed E req n key now r))) k = completedEntry n key (mget (csPending (state r)) k)"
  using complete_loop.loop_all [OF assms, where E = E and n = n and key = key and j = k and v = "visit E 6"
      and s = r and req = req and now = now]
  by (simp add: completed_def completedEntry_def)

lemma completed_history:
  assumes "mget (csPending (state r)) k = Some p" and "completedEntry n key (Some p) = Some p"
  shows "mget (csHistory (state (completed E req n key now r))) k = mget (csHistory (state r)) k"
proof -
  let ?P = "\<lambda>r' :: registry. mget (csPending (state r')) k = Some p
    \<and> mget (csHistory (state r')) k = mget (csHistory (state r)) k"
  have "?P (fold (completeEnrollment E req n key now) ks r)" for ks
  proof (rule fold_keeps)
    fix j r' assume "?P r'"
    then show "?P (completeEnrollment E req n key now j r')"
      using assms(2) by (auto simp: completeEnrollment_def completedEntry_def markHandled_def split: option.split if_splits)
  qed (use assms in simp)
  then show ?thesis by (simp add: completed_def)
qed

lemma pending_ok_completed:
  assumes "tables_ok (state r)" and "pending_ok (state r)"
  shows "pending_ok (state (completed E req n key now r))"
proof (rule pending_ok_shrink [OF assms(2)])
  note ok = tables_okD(1) [OF assms(1)]
  show "gomap_ok (csPending (state r))" by (rule ok)
  show "gomap_ok (csPending (state (completed E req n key now r)))"
    by (rule tables_okD(1) [OF tables_ok_completed [OF assms(1)]])
  show "mget (csPending (state r)) k = Some p"
    if "mget (csPending (state (completed E req n key now r))) k = Some p" for k p
    using that by (auto simp: completed_pending [OF ok] completedEntry_def bind_eq_Some_conv split: if_splits)
  show "mget (csHistory (state r)) k = Some h"
    if "mget (csPending (state (completed E req n key now r))) k = Some p"
      and "mget (csHistory (state (completed E req n key now r))) k = Some h" for k p h
  proof -
    from that(1) have "mget (csPending (state r)) k = Some p" "completedEntry n key (Some p) = Some p"
      by (auto simp: completed_pending [OF ok] completedEntry_def bind_eq_Some_conv split: if_splits)
    with that(2) show ?thesis by (simp add: completed_history)
  qed
qed

lemma enrollment_inv_admit:
  assumes "enrollment_inv r" shows "enrollment_inv (admitNode E req key now n r)"
proof -
  have "enrollment_inv (storeNode n now r)"
    using assms by (simp add: enrollment_inv_def tables_ok_stored pending_ok_def sourcePending_def)
  then have "enrollment_inv (completed E req n key now (storeNode n now r))"
    by (simp add: enrollment_inv_def tables_ok_completed pending_ok_completed)
  then show ?thesis unfolding admitNode_eq by (rule enrollment_inv_cleanup)
qed

lemma nodes_ok_admit:
  assumes "tables_ok (state r)" and "nodes_ok L (state r)" and "node_ok L (dnID n) n"
    and "mget (csAuthorized (state r)) (dnID n) \<noteq> None"
  shows "nodes_ok L (state (admitNode E req key now n r))"
  unfolding admitNode_eq
  by (rule nodes_ok_cleanup, intro tables_ok_completed tables_ok_stored assms(1))
    (use assms(2-4) in \<open>auto simp: nodes_ok_def\<close>)

section \<open>What an update does\<close>

lemma prepareServices_lease:
  "prepareServices L now n services = Some prepared \<Longrightarrow>
     \<forall>sv \<in> set prepared. \<forall>c \<in> set (svDirectCandidates sv). dcExpiresAt c = now + directCandidateLease"
proof (induction services arbitrary: prepared)
  case (Cons service rest)
  then obtain sv svs where one: "prepareService L now n service = Some sv"
    and "prepareServices L now n rest = Some svs" and "prepared = sv # svs"
    by (auto split: option.splits)
  moreover have "\<forall>c \<in> set (svDirectCandidates sv). dcExpiresAt c = now + directCandidateLease"
    using one by (auto simp: prepareService_def split: sum.splits if_splits dest!: managed_Inr)
  ultimately show ?case using Cons.IH by auto
qed simp

lemma sweptNode_fresh:
  assumes "dnLastSeen n = now"
    and "\<forall>sv \<in> set (dnServices n). \<forall>c \<in> set (svDirectCandidates sv). dcExpiresAt c = now + directCandidateLease"
  shows "sweptNode now (Some n) = Some n"
proof -
  have "\<forall>sv \<in> set (dnServices n). activeCandidates now sv = svDirectCandidates sv"
    using assms(2) by (auto simp: activeCandidates_def limit_defs time_units intro: filter_True)
  with assms(1) show ?thesis
    by (simp add: sweptNode_def services_all_active time_units)
qed

lemma updateNode_Inr:
  assumes "updateNode L E req r = (Inr (n, nodes, revision), r')"
  obtains authorized input r2 where "mget (csAuthorized (state r)) (rqNode req) = Some authorized"
    and "state r2 = state r" and "dnID n = rqNode req"
    and "acceptNode L (state r) (network r) (auPublicKey authorized) (clock E 2) input = Inr n"
    and "dnID input = rqNode req"
    and "state r' = state (admitNode E req (auPublicKey authorized) (clock E 2) n r2)"
    and "nodes = sortBy dnName (peersOf E n (rqNode req) (state r'))" and "revision = csRevision (state r')"
    and "disk r' (path r') = Some (StateFile (state r'))"
proof -
  let ?ok = "\<exists>authorized input r2. mget (csAuthorized (state r)) (rqNode req) = Some authorized
    \<and> state r2 = state r \<and> dnID n = rqNode req
    \<and> acceptNode L (state r) (network r) (auPublicKey authorized) (clock E 2) input = Inr n
    \<and> dnID input = rqNode req
    \<and> state r' = state (admitNode E req (auPublicKey authorized) (clock E 2) n r2)
    \<and> nodes = sortBy dnName (peersOf E n (rqNode req) (state r')) \<and> revision = csRevision (state r')
    \<and> disk r' (path r') = Some (StateFile (state r'))"
  have "?ok"
  proof (rule updateNode_cases [where P = "\<lambda>x. x = (Inr (n, nodes, revision), r') \<longrightarrow> ?ok", THEN mp, OF _ _ assms],
      goal_cases)
    case (2 body authorized input m ns rs)
    have m: "dnID m = rqNode req" using acceptNode_Inr [OF 2(6)] 2(5) by simp
    let ?r3 = "admitNode E req (auPublicKey authorized) (clock E 2) m (r\<lparr>nonces := ns, rates := rs\<rparr>)"
    show ?case
    proof
      assume "updateAnswer E m ?r3 = (Inr (n, nodes, revision), r')"
      then have "m = n" "fst (persistLocked (writes E 0) ?r3)" "r' = snd (persistLocked (writes E 0) ?r3)"
        "nodes = sortBy dnName (peersOf E n (rqNode req) (state r'))" "revision = csRevision (state r')"
        by (auto simp: updateAnswer_def m split: if_splits)
      with 2 m persistLocked_writes show ?ok
        by (intro exI [of _ authorized] exI [of _ "drNode input"] exI [of _ "r\<lparr>nonces := ns, rates := rs\<rparr>"])
          (auto simp: persistLocked_writes)
    qed
  qed simp
  then show thesis by (elim exE conjE) (rule that)
qed

lemma admit_own_entry:
  assumes "acceptNode L st net key now input = Inr n" and "tables_ok (state r)"
  shows "mget (csNodes (state (admitNode E req key now n r))) (dnID n) = Some n"
proof -
  note facts = acceptNode_Inr [OF assms(1)]
  have "sweptNode now (Some n) = Some n"
  proof (rule sweptNode_fresh)
    show "dnLastSeen n = now" using facts by simp
    show "\<forall>sv \<in> set (dnServices n). \<forall>c \<in> set (svDirectCandidates sv). dcExpiresAt c = now + directCandidateLease"
      by (rule prepareServices_lease) (use facts in blast)
  qed
  moreover have "gomap_ok (csNodes (state (completed E req n key now (storeNode n now r))))"
    using assms(2) by (simp add: tables_okD)
  ultimately show ?thesis
    unfolding admitNode_eq by (simp add: cleanup_nodes)
qed

lemma admit_pending:
  assumes "tables_ok (state r)"
  shows "mget (csPending (state (admitNode E req key now n r))) k
    = sweptPending now (completedEntry n key (mget (csPending (state r)) k))"
proof -
  have "tables_ok (state (completed E req n key now (storeNode n now r)))"
    by (intro tables_ok_completed tables_ok_stored assms)
  then show ?thesis
    unfolding admitNode_eq using assms by (simp add: cleanup_pending tables_okD completed_pending)
qed

lemma survives:
  "sweptPending now (completedEntry n key x) = Some p \<longleftrightarrow>
     x = Some p \<and> now \<le> phExpiresAt p \<and> \<not> (dnID (phNode p) = dnID n \<and> phApproved p \<and> phPublicKey p = key)"
  by (cases x) (auto simp: sweptPending_def completedEntry_def)


text \<open>An accepted update advances the topology revision exactly when peers have something to
  learn: once if the node is new, if anything but its leases changed, or if a lease its peers hold
  is about to run out, and once for every other node that dropped out or lost a candidate in the
  sweep; an unchanged heartbeat leaves the revision alone.\<close>

theorem update_moves_revision:
  assumes "enrollment_inv r" and "updateNode L E req r = (Inr (n, nodes, revision), r')"
  shows "revision = csRevision (state r')
    \<and> csRevision (state r') = csRevision (state r)
        + (case mget (csNodes (state r)) (rqNode req) of
             None \<Rightarrow> 1
           | Some old \<Rightarrow> if topologyWithoutLeases old \<noteq> topologyWithoutLeases n
                            \<or> directCandidateRenewalDue old (clock E 2) then 1 else 0)
        + of_nat (card {k. k \<noteq> rqNode req \<and> mget (csNodes (state r')) k \<noteq> mget (csNodes (state r)) k})"
  using assms(2)
proof (rule updateNode_Inr)
  fix authorized input r2
  assume r2: "state r2 = state r" and n: "dnID n = rqNode req"
    and accept: "acceptNode L (state r) (network r) (auPublicKey authorized) (clock E 2) input = Inr n"
    and r': "state r' = state (admitNode E req (auPublicKey authorized) (clock E 2) n r2)"
    and revision: "revision = csRevision (state r')"
  have ok: "tables_ok (state r2)" using assms(1) r2 by (simp add: enrollment_inv_def)
  let ?rc = "completed E req n (auPublicKey authorized) (clock E 2) (storeNode n (clock E 2) r2)"
  have own: "mget (csNodes (state r')) (rqNode req) = Some n"
    using admit_own_entry [OF accept ok] by (simp add: r' n)
  have "gomap_ok (csNodes (state ?rc))" using ok by (simp add: tables_okD)
  from cleanup_revision [OF this refl, where E = E and now = "clock E 2"]
  have "csRevision (state r') = csRevision (state ?rc)
      + of_nat (card {k. mget (csNodes (state r')) k \<noteq> mget (csNodes (state ?rc)) k})"
    by (simp add: r' admitNode_eq)
  also have "{k. mget (csNodes (state r')) k \<noteq> mget (csNodes (state ?rc)) k}
      = {k. k \<noteq> rqNode req \<and> mget (csNodes (state r')) k \<noteq> mget (csNodes (state r)) k}"
    using own by (auto simp: n r2 split: if_splits)
  also have "csRevision (state ?rc) = csRevision (state r)
        + (case mget (csNodes (state r)) (rqNode req) of
             None \<Rightarrow> 1
           | Some old \<Rightarrow> if topologyWithoutLeases old \<noteq> topologyWithoutLeases n
                            \<or> directCandidateRenewalDue old (clock E 2) then 1 else 0)"
    by (simp add: storeNode_def n r2 sameNodeTopology_def split: option.split)
  finally show ?thesis using revision by simp
qed

section \<open>What discovery tells\<close>

lemma peersOf_mem:
  assumes "m \<in> set (peersOf E n nodeID st)" and "\<And>k x. mget (csNodes st) k = Some x \<Longrightarrow> dnID x = k"
  shows "dnID m \<noteq> nodeID \<and> dnVirtualNetwork m = dnVirtualNetwork n
    \<and> (\<exists>stored. mget (csNodes st) (dnID m) = Some stored \<and> m = nodeForDiscovery n stored)
    \<and> (dnSegment m \<noteq> dnSegment n \<longrightarrow> (\<forall>sv \<in> set (dnServices m). svDirectCandidates sv = []))"
  using assms by (auto simp: peersOf_def set_rangeVals nodeForDiscovery_def)

text \<open>C5: Discovery never tells a node the direct addresses of a peer in another segment, and
  never tells it of itself or of a node in another virtual network: every node a register or a
  discovery answer lists is stored under its id, and outside the requester's segment it is
  stripped of its direct candidates.\<close>

theorem discovery_hides_addresses:
  assumes "tables_ok (state r)" and "nodes_ok L (state r)"
    and "(WriteJSON 200 (DiscoveryPayload revision changed nodes), r') \<in> {registerNode L E req r, discoverNodes L E req r}"
    and "m \<in> set nodes"
  shows "\<exists>n. mget (csNodes (state r')) (rqNode req) = Some n
    \<and> dnID m \<noteq> rqNode req \<and> dnVirtualNetwork m = dnVirtualNetwork n
    \<and> (\<exists>stored. mget (csNodes (state r')) (dnID m) = Some stored \<and> m = nodeForDiscovery n stored)
    \<and> (dnSegment m \<noteq> dnSegment n \<longrightarrow> (\<forall>sv \<in> set (dnServices m). svDirectCandidates sv = []))"
proof -
  from assms(3) consider
    (register) n where "updateNode L E req r = (Inr (n, nodes, revision), r')"
  | (discover) body ns rs where "authenticatedConnectionBody L E req r = (Inr (body, rqNode req), r\<lparr>nonces := ns, rates := rs\<rparr>)"
      and "discoverBody L E body (rqNode req) (r\<lparr>nonces := ns, rates := rs\<rparr>)
        = (WriteJSON 200 (DiscoveryPayload revision changed nodes), r')"
  proof (cases "registerNode L E req r = (WriteJSON 200 (DiscoveryPayload revision changed nodes), r')")
    case True
    then have "\<exists>n. updateNode L E req r = (Inr (n, nodes, revision), r')"
      by (rule updateNode_cases [where P = "\<lambda>x. updateNode L E req r = x \<longrightarrow> registerNode L E req r
          = (WriteJSON 200 (DiscoveryPayload revision changed nodes), r') \<longrightarrow> (\<exists>n. x = (Inr (n, nodes, revision), r'))",
          THEN mp, THEN mp, OF _ _ refl, rotated 2])
        (auto simp: registerNode_def updateAnswer_def split: if_splits)
    then show thesis using register by blast
  next
    case False
    then have "discoverNodes L E req r = (WriteJSON 200 (DiscoveryPayload revision changed nodes), r')"
      using assms(3) by auto
    then show thesis
      by (rule authenticatedConnectionBody_cases [where P = "\<lambda>x. authenticatedConnectionBody L E req r = x \<longrightarrow>
          discoverNodes L E req r = (WriteJSON 200 (DiscoveryPayload revision changed nodes), r') \<longrightarrow> thesis",
          THEN mp, THEN mp, OF _ _ refl, rotated 2])
        (auto simp: discoverNodes_def intro: discover)
  qed
  then show ?thesis
  proof cases
    case register
    then show ?thesis
    proof (rule updateNode_Inr)
      fix authorized input r2
      assume r2: "state r2 = state r" and a: "mget (csAuthorized (state r)) (rqNode req) = Some authorized"
        and n: "dnID n = rqNode req"
        and accept: "acceptNode L (state r) (network r) (auPublicKey authorized) (clock E 2) input = Inr n"
        and r': "state r' = state (admitNode E req (auPublicKey authorized) (clock E 2) n r2)"
        and nodes: "nodes = sortBy dnName (peersOf E n (rqNode req) (state r'))"
      have ok: "tables_ok (state r2)" "nodes_ok L (state r2)" using assms(1,2) r2 by simp_all
      have "nodes_ok L (state r')"
        unfolding r' using acceptNode_Inr [OF accept] a n by (intro nodes_ok_admit ok) (auto simp: r2)
      then have "\<And>k x. mget (csNodes (state r')) k = Some x \<Longrightarrow> dnID x = k"
        by (auto simp: nodes_ok_def node_ok_def)
      moreover have "mget (csNodes (state r')) (rqNode req) = Some n"
        using admit_own_entry [OF accept ok(1)] by (simp add: r' n)
      ultimately show ?thesis
        using peersOf_mem [of m E n "rqNode req" "state r'"] assms(4) nodes by auto
    qed
  next
    case discover
    define rc where "rc = snd (cleanupLocked E (clock E 2) (r\<lparr>nonces := ns, rates := rs\<rparr>))"
    have "nodes_ok L (state rc)"
      unfolding rc_def by (rule nodes_ok_cleanup) (use assms(1,2) in simp_all)
    then have ids: "\<And>k x. mget (csNodes (state rc)) k = Some x \<Longrightarrow> dnID x = k"
      by (auto simp: nodes_ok_def node_ok_def)
    from discover(2) assms(4) obtain n where "mget (csNodes (state rc)) (rqNode req) = Some n" and "r' = rc"
      and "m \<in> set (peersOf E n (rqNode req) (state rc))"
      by (auto simp: discoverBody_def discoverLocked_def rc_def [symmetric] Let_def split: option.splits if_splits)
    with peersOf_mem [OF _ ids] show ?thesis by auto
  qed
qed

text \<open>Revoking a node removes it from the active nodes but leaves the revision where it was: a
  peer that synchronises by revision is told that nothing changed.\<close>

theorem revocation_unnoticed:
  assumes "tables_ok (state r)" and "revokeNode L E req r = (WriteJSON 200 (RevokedPayload gone), r')"
    and "mget (csNodes (state r)) gone = Some n" and "mget (csNodes (state r')) peer = Some p"
    and "\<forall>k. sweptNode (clock E' 2) (mget (csNodes (state r')) k) = mget (csNodes (state r')) k"
  shows "mget (csNodes (state r')) gone = None
    \<and> fst (discoverLocked E' peer (csRevision (state r)) r')
        = WriteJSON 200 (DiscoveryPayload (csRevision (state r)) False [])"
proof -
  have "state r' = state (revoked E req gone r)"
    by (rule revokeNode_cases [where P = "\<lambda>x. x = (WriteJSON 200 (RevokedPayload gone), r') \<longrightarrow>
        state r' = state (revoked E req gone r)", THEN mp, OF _ _ assms(2)])
      (auto simp: persistOr_def split: if_splits)
  note r' = this
  let ?rc = "snd (cleanupLocked E' (clock E' 2) r')"
  have ok: "gomap_ok (csNodes (state r'))" unfolding r' by (rule tables_okD(4) [OF tables_ok_revoked [OF assms(1)]])
  have same: "mget (csNodes (state ?rc)) k = mget (csNodes (state r')) k" for k
    using assms(5) by (simp add: cleanup_nodes [OF ok])
  have "csRevision (state ?rc) = csRevision (state r)"
    using cleanup_revision [OF ok refl, where E = E' and now = "clock E' 2"] by (simp add: same r' revoked_state)
  then show ?thesis
    using assms(4) same [of peer] by (simp add: discoverLocked_def Let_def r' revoked_state)
qed

section \<open>Sample run\<close>

definition nodesJson :: json where
  "nodesJson = enrollJson\<lparr>
     jsonDiscovery := (\<lambda>_. Some \<lparr>drNode = (sampleNode ''n1'' 0)\<lparr>dnVirtualNetwork := ''net''\<rparr>, drPublicKey = ''''\<rparr>),
     jsonSync := (\<lambda>_. Some 7)\<rparr>"

definition lanNode :: discoveredNode where
  "lanNode = (sampleNode ''n2'' (unixTime 100))\<lparr>dnVirtualNetwork := ''net'', dnSegment := ''lan'',
     dnServices := [zeroService\<lparr>svNodeID := ''n2'', svName := ''web'', svSegment := ''lan'', svUUID := ''u'',
       svPinnedSHA256 := hexEncode sampleBytes,
       svDirectCandidates := [\<lparr>dcAddress = ''10.0.0.2:443'', dcExpiresAt = unixTime 150\<rparr>]\<rparr>]\<rparr>"

definition nodesRegistry :: registry where
  "nodesRegistry = updState (\<lambda>s. s\<lparr>csNodes := [(''n2'', lanNode)],
     csAuthorized := [(''n1'', \<lparr>auPublicKey = sampleKey\<rparr>), (''n2'', \<lparr>auPublicKey = sampleKey\<rparr>)]\<rparr>) sampleRegistry"

definition registerRequest :: httpRequest where
  "registerRequest = sampleRequest ''/v1/nodes/register'' ''99'' ''x''"

lemma nodesRegistry_inv: "enrollment_inv nodesRegistry"
  using sampleRegistry_inv
  by (simp add: enrollment_inv_def tables_ok_def pending_ok_def sourcePending_def nodesRegistry_def gomap_ok_def)

lemma sample_pin: "validSHA256Pin nodesJson (hexEncode sampleBytes)"
  by (rule validSHA256Pin_hexEncode) (simp add: sampleBytes_def)

lemma nodesRegistry_nodes: "nodes_ok nodesJson (state nodesRegistry)"
proof -
  have "validateDirectCandidate ''10.0.0.2:443'' = None" by code_simp
  then show ?thesis
    using sample_pin
    by (auto simp: nodes_ok_def nodesRegistry_def go_simps lanNode_def sampleNode_def zeroNode_def zeroService_def
        node_ok_def service_ok_def maxDirectCandidates_def split: if_splits)
qed

lemma sample_authenticates:
  "verifySignatureLocked nodesJson (unixTime 100) registerRequest body sampleKey nodesRegistry
     = (True, nodesRegistry\<lparr>nonces := mput ''x'' (unixTime 100 + 2 * nminute) (nonces nodesRegistry)\<rparr>)"
proof -
  have p: "parseInt64 ''99'' = (99, None)" by code_simp
  show ?thesis unfolding registerRequest_def
    by (rule sampleVerify [OF _ p])
      (auto simp: nodesJson_def enrollJson_def sampleJson_def lib.defs unixTime_def time_units
        nodesRegistry_def sampleRegistry_def freshRegistry_def)
qed

definition registeredNode :: discoveredNode where
  "registeredNode = (sampleNode ''n1'' 0)\<lparr>dnVirtualNetwork := ''net'', dnIdentityKey := sampleKey,
     dnLastSeen := unixTime 100\<rparr>"

lemma sample_update:
  "\<exists>nodes revision r'. updateNode nodesJson (quietEnv (unixTime 100)) registerRequest nodesRegistry
     = (Inr (registeredNode, nodes, revision), r')"
proof -
  define r1 where "r1 = nodesRegistry\<lparr>nonces := mput ''x'' (unixTime 100 + 2 * nminute) (nonces nodesRegistry)\<rparr>"
  define r2 where "r2 = snd (allowRequestLocked (''node:'' @ ''n1'') publicRequestsPerMinute (unixTime 100) r1)"
  have body: "readBody registerRequest = Some ''''"
    by (simp add: readBody_def registerRequest_def sampleRequest_def)
  have auth: "mget (csAuthorized (state nodesRegistry)) ''n1'' = Some \<lparr>auPublicKey = sampleKey\<rparr>"
    by (simp add: nodesRegistry_def go_simps)
  have n1: "rqNode registerRequest = ''n1''" by (simp add: registerRequest_def sampleRequest_def)
  have st: "state r1 = state nodesRegistry" "network r1 = ''net''" "rates r1 = []"
    by (simp_all add: r1_def nodesRegistry_def sampleRegistry_def freshRegistry_def)
  have allowed: "allowRequestLocked (''node:'' @ ''n1'') publicRequestsPerMinute (unixTime 100) r1 = (True, r2)"
    by (simp add: r2_def allowRequestLocked_def st Let_def mgetz_def publicRequestsPerMinute_def unixTime_def)
  have accept: "acceptNode nodesJson (state r2) (network r2) sampleKey (unixTime 100)
      ((sampleNode ''n1'' 0)\<lparr>dnVirtualNetwork := ''net''\<rparr>) = Inr registeredNode"
    by (simp add: acceptNode_def checkRelay_def checkUpstream_def registeredNode_def sampleNode_def zeroNode_def
        r2_def st)
  have written: "persistLocked WroteFile r = (True, snd (persistLocked WroteFile r))" for r
    by (simp add: persistLocked_def Let_def)
  have input: "jsonDiscovery nodesJson ''''
      = Some \<lparr>drNode = (sampleNode ''n1'' 0)\<lparr>dnVirtualNetwork := ''net''\<rparr>, drPublicKey = ''''\<rparr>"
    "dnID ((sampleNode ''n1'' 0)\<lparr>dnVirtualNetwork := ''net''\<rparr>) = ''n1''"
    by (simp_all add: nodesJson_def sampleNode_def)
  have env: "clock (quietEnv t) k = t" "writes (quietEnv t) k = WroteFile" for t k
    by (simp_all add: quietEnv_def)
  show ?thesis
    unfolding updateNode_def body option.case Let_def n1 auth authorizedNode.simps env sample_authenticates
      r1_def [symmetric] prod.case bool.case allowed input discoveryRequest.simps accept sum.case
    by (subst written) simp
qed

lemma registerRequest_node: "rqNode registerRequest = ''n1''"
  by (simp add: registerRequest_def sampleRequest_def)

lemma nodesRegistry_old: "mget (csNodes (state nodesRegistry)) k = (if k = ''n2'' then Some lanNode else None)"
  by (simp add: nodesRegistry_def go_simps)


lemma lanNode_fresh: "sweptNode (unixTime 100) (Some lanNode) = Some lanNode"
  by (simp add: sweptNode_def lanNode_def sampleNode_def zeroNode_def zeroService_def activeCandidates_def
      time_units unixTime_def)

lemma sample_after_update:
  assumes "updateNode nodesJson (quietEnv (unixTime 100)) registerRequest nodesRegistry = (Inr (n, nodes, revision), r')"
  shows "mget (csNodes (state r')) k = (if k = ''n1'' then Some n else if k = ''n2'' then Some lanNode else None)"
    and "nodes = sortBy dnName (peersOf (quietEnv (unixTime 100)) n ''n1'' (state r'))"
proof -
  from assms have "mget (csNodes (state r')) k = (if k = ''n1'' then Some n else if k = ''n2'' then Some lanNode else None)
    \<and> nodes = sortBy dnName (peersOf (quietEnv (unixTime 100)) n ''n1'' (state r'))"
  proof (rule updateNode_Inr)
    fix authorized input r2
    assume r2: "state r2 = state nodesRegistry" and n: "dnID n = rqNode registerRequest"
      and nodes: "nodes = sortBy dnName (peersOf (quietEnv (unixTime 100)) n (rqNode registerRequest) (state r'))"
      and r': "state r' = state (admitNode (quietEnv (unixTime 100)) registerRequest (auPublicKey authorized)
        (clock (quietEnv (unixTime 100)) 2) n r2)"
      and accept: "acceptNode nodesJson (state nodesRegistry) (network nodesRegistry) (auPublicKey authorized)
        (clock (quietEnv (unixTime 100)) 2) input = Inr n"
    have ok: "tables_ok (state r2)" using nodesRegistry_inv by (simp add: r2 enrollment_inv_def)
    have own: "mget (csNodes (state r')) ''n1'' = Some n"
      using admit_own_entry [OF accept ok, where E = "quietEnv (unixTime 100)" and req = registerRequest]
      by (simp add: r' n registerRequest_node)
    have "mget (csNodes (state r')) k = sweptNode (unixTime 100) (mget (csNodes (state nodesRegistry)) k)" if "k \<noteq> ''n1''"
      unfolding r' admitNode_eq using ok that
      by (subst cleanup_nodes) (simp_all add: tables_okD n r2 registerRequest_node quietEnv_def)
    with own nodes show ?thesis
      by (simp add: registerRequest_node nodesRegistry_old lanNode_fresh)
  qed
  then show "mget (csNodes (state r')) k = (if k = ''n1'' then Some n else if k = ''n2'' then Some lanNode else None)"
    and "nodes = sortBy dnName (peersOf (quietEnv (unixTime 100)) n ''n1'' (state r'))" by blast+
qed

theorem update_moves_revision_witness:
  "\<exists>n nodes r'. updateNode nodesJson (quietEnv (unixTime 100)) registerRequest nodesRegistry
     = (Inr (n, nodes, 1), r')"
proof -
  obtain n nodes revision r' where update: "updateNode nodesJson (quietEnv (unixTime 100)) registerRequest nodesRegistry
     = (Inr (n, nodes, revision), r')" using sample_update by blast
  have none: "{k. k \<noteq> ''n1'' \<and> mget (csNodes (state r')) k \<noteq> mget (csNodes (state nodesRegistry)) k} = {}"
    unfolding sample_after_update(1) [OF update] nodesRegistry_old by simp
  have "csRevision (state nodesRegistry) = 0"
    by (simp add: nodesRegistry_def sampleRegistry_def freshRegistry_def emptyState_def)
  with update_moves_revision [OF nodesRegistry_inv update] have "revision = 1"
    unfolding registerRequest_node none by (simp add: nodesRegistry_old)
  with update show ?thesis by blast
qed

theorem discovery_hides_addresses_witness:
  "\<exists>nodes revision r'. registerNode nodesJson (quietEnv (unixTime 100)) registerRequest nodesRegistry
       = (WriteJSON 200 (DiscoveryPayload revision True nodes), r')
     \<and> (\<exists>m \<in> set nodes. dnID m = ''n2'' \<and> (\<forall>sv \<in> set (dnServices m). svDirectCandidates sv = []))
     \<and> (\<exists>sv \<in> set (dnServices lanNode). svDirectCandidates sv \<noteq> [])"
proof -
  obtain nodes revision r' where update: "updateNode nodesJson (quietEnv (unixTime 100)) registerRequest nodesRegistry
     = (Inr (registeredNode, nodes, revision), r')" using sample_update by blast
  then have register: "registerNode nodesJson (quietEnv (unixTime 100)) registerRequest nodesRegistry
       = (WriteJSON 200 (DiscoveryPayload revision True nodes), r')"
    by (simp add: registerNode_def)
  define m where "m = nodeForDiscovery registeredNode lanNode"
  have m: "dnID m = ''n2''" "dnSegment m = ''lan''"
    by (simp_all add: m_def nodeForDiscovery_def lanNode_def sampleNode_def)
  note after = sample_after_update [OF update]
  have "lanNode \<in> set (rangeVals (visit (quietEnv (unixTime 100)) 7) (csNodes (state r')))"
    using after(1) [of "''n2''"] by (auto simp: set_rangeVals)
  moreover have "dnVirtualNetwork lanNode = dnVirtualNetwork registeredNode" "dnID lanNode \<noteq> ''n1''"
    by (simp_all add: lanNode_def registeredNode_def sampleNode_def)
  ultimately have mem: "m \<in> set nodes"
    unfolding after(2) m_def peersOf_def set_sortBy set_map by (intro imageI) simp
  have "tables_ok (state nodesRegistry)" using nodesRegistry_inv by (simp add: enrollment_inv_def)
  from discovery_hides_addresses [OF this nodesRegistry_nodes _ mem, where E = "quietEnv (unixTime 100)"
      and req = registerRequest and r' = r' and revision = revision and changed = True]
  obtain n where "mget (csNodes (state r')) ''n1'' = Some n"
    and hidden: "dnSegment m \<noteq> dnSegment n \<longrightarrow> (\<forall>sv \<in> set (dnServices m). svDirectCandidates sv = [])"
    unfolding registerRequest_node register by blast
  then have "n = registeredNode" using after(1) by simp
  moreover have "dnSegment registeredNode = ''''" 
    by (simp add: registeredNode_def sampleNode_def zeroNode_def)
  moreover have "\<exists>sv \<in> set (dnServices lanNode). svDirectCandidates sv \<noteq> []"
    by (simp add: lanNode_def)
  ultimately show ?thesis
    using register hidden m mem by auto
qed

text \<open>Two active nodes, of which the administrator revokes one.\<close>

definition pairRegistry :: registry where
  "pairRegistry = updState (csNodes_update (\<lambda>_. [(''n1'', registeredNode), (''n2'', lanNode)])) nodesRegistry"

lemma pairRegistry_tables: "tables_ok (state pairRegistry)"
  using nodesRegistry_inv by (simp add: pairRegistry_def enrollment_inv_def tables_ok_def gomap_ok_def)

lemma pairRegistry_revoke:
  "\<exists>r'. revokeNode enrollJson (busyEnv nhour) (sampleRequest ''/p'' ''1'' ''x'') pairRegistry
     = (WriteJSON 200 (RevokedPayload ''n1''), r') \<and> csNodes (state r') = [(''n2'', lanNode)]"
proof -
  let ?req = "sampleRequest ''/p'' ''1'' ''x''"
  have "trimPrefix ''Bearer token'' ''Bearer '' = ''token''" by code_simp
  then have "adminAuthorized ?req pairRegistry"
    by (simp add: adminAuthorized_def sampleRequest_def pairRegistry_def nodesRegistry_def sampleRegistry_def
        freshRegistry_def)
  moreover have "trimSpace ''n1'' = ''n1''" by code_simp
  moreover have "mget (csAuthorized (state pairRegistry)) ''n1'' \<noteq> None"
    by (simp add: pairRegistry_def nodesRegistry_def go_simps)
  moreover have "fst (persistLocked WroteFile r) = True" for r by (simp add: persistLocked_def Let_def)
  ultimately have "revokeNode enrollJson (busyEnv nhour) ?req pairRegistry
      = (WriteJSON 200 (RevokedPayload ''n1''),
         snd (persistLocked WroteFile (revoked (busyEnv nhour) ?req ''n1'' pairRegistry)))"
    unfolding revokeNode_def Let_def persistOr_eqs dropCredential_pending revoked_def [symmetric]
    by (simp add: decodeJSON_def enrollJson_def persistOr_def busyEnv_def quietEnv_def)
  moreover have "csNodes (state (revoked (busyEnv nhour) ?req ''n1'' pairRegistry)) = [(''n2'', lanNode)]"
    unfolding revoked_state by (simp add: pairRegistry_def go_simps)
  ultimately show ?thesis by simp
qed

theorem revocation_unnoticed_witness:
  "\<exists>r'. revokeNode enrollJson (busyEnv nhour) (sampleRequest ''/p'' ''1'' ''x'') pairRegistry
     = (WriteJSON 200 (RevokedPayload ''n1''), r')
   \<and> fst (discoverLocked (quietEnv (unixTime 100)) ''n2'' 0 r') = WriteJSON 200 (DiscoveryPayload 0 False [])"
proof -
  obtain r' where revoke: "revokeNode enrollJson (busyEnv nhour) (sampleRequest ''/p'' ''1'' ''x'') pairRegistry
     = (WriteJSON 200 (RevokedPayload ''n1''), r')" and nodes: "csNodes (state r') = [(''n2'', lanNode)]"
    using pairRegistry_revoke by blast
  have gone: "mget (csNodes (state pairRegistry)) ''n1'' = Some registeredNode"
    by (simp add: pairRegistry_def go_simps)
  have left: "mget (csNodes (state r')) k = (if k = ''n2'' then Some lanNode else None)" for k
    by (simp add: nodes go_simps)
  then have peer: "mget (csNodes (state r')) ''n2'' = Some lanNode" by simp
  have kept: "\<forall>k. sweptNode (clock (quietEnv (unixTime 100)) 2) (mget (csNodes (state r')) k) = mget (csNodes (state r')) k"
    by (simp add: left quietEnv_def lanNode_fresh)
  have "csRevision (state pairRegistry) = 0"
    by (simp add: pairRegistry_def nodesRegistry_def sampleRegistry_def freshRegistry_def emptyState_def)
  with revocation_unnoticed [OF pairRegistry_tables revoke gone peer kept] revoke show ?thesis by auto
qed

end
