(* ===== verification/Connections.thy ===== *)
theory Connections
  imports Nodes_Safety
begin

text \<open>
  The connection broker (src/internal/app/connection_server.go): a source node asks for a service
  of a target node, the target collects the request in its inbox and decides it, the source
  follows its status. Every handler authenticates first (a locked section of its own) and then
  does its work in one locked section, or, for the two long polls, in one section per round.
\<close>

section \<open>Creating a request\<close>

text \<open>The sweep every handler begins with, persisted when it changed something.\<close>

definition sweepAndPersist :: "env \<Rightarrow> time \<Rightarrow> registry \<Rightarrow> bool \<times> registry" where
  "sweepAndPersist E now r0 =
     (case cleanupLocked E now r0 of
        (changed, r) \<Rightarrow> if changed then persistLocked (writes E 0) r else (True, r))"

definition targetPending :: "gostring \<Rightarrow> coordinatorState \<Rightarrow> nat" where
  "targetPending target st =
     mcount (\<lambda>c. crTargetNode c = target \<and> \<not> connectionTerminal (crState c)) (csConnections st)"

definition relayUsable :: "discoveredNode \<Rightarrow> (gostring, discoveredNode) gomap \<Rightarrow> gostring \<Rightarrow> bool" where
  "relayUsable source nodes returnRelay =
     (case mget nodes returnRelay of
        None \<Rightarrow> False
      | Some relay \<Rightarrow> dnRole relay = ''relay'' \<and> dnRelay relay \<noteq> None
                      \<and> dnVirtualNetwork relay = dnVirtualNetwork source \<and> dnSegment relay = dnSegment source)"

definition queuedConnection ::
    "gostring \<Rightarrow> gostring \<Rightarrow> createConnectionInput \<Rightarrow> uint64 \<Rightarrow> time \<Rightarrow> duration \<Rightarrow> connectionRequest" where
  "queuedConnection cid sourceNode input cursor now ttl =
     \<lparr>crID = cid, crIdempotencyKey = ciIdempotencyKey input, crSourceNode = sourceNode,
      crTargetNode = ciTargetNode input, crService = ciService input, crReturnRelay = ciReturnRelay input,
      crState = ''queued'', crStatusCode = 100, crReason = '''', crCursor = cursor, crCreatedAt = now,
      crUpdatedAt = now, crExpiresAt = now + ttl, crOfferLeaseEnds = 0\<rparr>"

definition enqueueConnection ::
    "env \<Rightarrow> time \<Rightarrow> gostring \<Rightarrow> createConnectionInput \<Rightarrow> gostring \<Rightarrow> registry \<Rightarrow> connectionRequest \<times> registry" where
  "enqueueConnection E now sourceNode input cid r =
     (let target = ciTargetNode input;
          cursor = mgetz 0 (csConnectionCursors (state r)) target + 1;
          connection = queuedConnection cid sourceNode input cursor now (connectionTTL r)
      in (connection,
          appendAuditLocked (clock E 3)
            \<lparr>aeTime = 0, aeAction = ''connection_requested'', aeNodeID = sourceNode, aeNodeName = '''',
             aeRequestID = cid, aeSource = ''''\<rparr>
            (updState (\<lambda>s. s\<lparr>
               csConnectionCursors := mput target cursor (csConnectionCursors s),
               csConnections := mput cid connection (csConnections s),
               csConnectionIdempotency := mput (idempotencyIndex sourceNode (ciIdempotencyKey input)) cid
                                             (csConnectionIdempotency s)\<rparr>) r)))"

definition createConnectionLocked ::
    "env \<Rightarrow> time \<Rightarrow> gostring \<Rightarrow> createConnectionInput \<Rightarrow> registry \<Rightarrow> response \<times> registry" where
  "createConnectionLocked E now sourceNode input r0 =
     (case sweepAndPersist E now r0 of
        (False, r) \<Rightarrow> (HttpError ''failed to persist connection state'' 500, r)
      | (True, r) \<Rightarrow>
          let st = state r;
              existingID = mgetz '''' (csConnectionIdempotency st)
                             (idempotencyIndex sourceNode (ciIdempotencyKey input))
          in if existingID \<noteq> '''' then
               (case mget (csConnections st) existingID of
                  None \<Rightarrow> (HttpError ''idempotency index is inconsistent'' 500, r)
                | Some existing \<Rightarrow> (WriteJSON 200 (ConnectionPayload existing), r))
             else case (mget (csNodes st) sourceNode, mget (csNodes st) (ciTargetNode input)) of
               (Some source, Some target) \<Rightarrow>
                 if dnVirtualNetwork source \<noteq> dnVirtualNetwork target then
                   (HttpError ''source or target node is not active'' 404, r)
                 else if ciReturnRelay input \<noteq> '''' \<and> \<not> relayUsable source (csNodes st) (ciReturnRelay input) then
                   (HttpError ''return relay is not active in the source segment'' 400, r)
                 else if \<not> (\<exists>service \<in> set (dnServices target). svName service = ciService input) then
                   (HttpError ''target service is not published'' 404, r)
                 else if connectionMax r \<le> int (length (csConnections st)) then
                   (HttpError ''connection request capacity reached'' 503, r)
                 else if maxConnectionsPerTarget \<le> targetPending (ciTargetNode input) st then
                   (HttpError ''target connection queue is full'' 429, r)
                 else (case randomToken (entropy E 0) of
                   None \<Rightarrow> (HttpError ''secure random source unavailable'' 500, r)
                 | Some cid \<Rightarrow>
                     let (connection, r1) = enqueueConnection E now sourceNode input cid r;
                         (ok, r2) = persistLocked (writes E 1) r1;
                         r3 = notifyRequestLocked cid (notifyTargetLocked (ciTargetNode input) r2)
                     in if \<not> ok then (HttpError ''failed to persist connection request'' 500, r3)
                        else (WriteJSON 201 (ConnectionPayload connection), r3))
             | _ \<Rightarrow> (HttpError ''source or target node is not active'' 404, r))"

definition createConnectionBody ::
    "'z json_scheme \<Rightarrow> env \<Rightarrow> gostring \<Rightarrow> gostring \<Rightarrow> registry \<Rightarrow> response \<times> registry" where
  "createConnectionBody L E body sourceNode r =
     (case jsonCreate L body of
        None \<Rightarrow> (HttpError ''idempotency_key, target_node, and service are required'' 400, r)
      | Some input \<Rightarrow>
          if ciTargetNode input = '''' \<or> ciService input = '''' \<or> ciIdempotencyKey input = ''''
             \<or> 128 < length (ciIdempotencyKey input)
          then (HttpError ''idempotency_key, target_node, and service are required'' 400, r)
          else createConnectionLocked E (clock E 2) sourceNode input r)"

definition authenticatedThen ::
    "'z lib_scheme \<Rightarrow> env \<Rightarrow> httpRequest \<Rightarrow> (gostring \<Rightarrow> gostring \<Rightarrow> registry \<Rightarrow> response \<times> registry) \<Rightarrow>
      registry \<Rightarrow> response \<times> registry" where
  "authenticatedThen L E req rest r =
     (case authenticatedConnectionBody L E req r of
        (Inl err, r1) \<Rightarrow> (err, r1)
      | (Inr (body, nodeID), r1) \<Rightarrow> rest body nodeID r1)"

definition createConnection :: "'z json_scheme \<Rightarrow> env \<Rightarrow> httpRequest \<Rightarrow> registry \<Rightarrow> response \<times> registry" where
  "createConnection L E req r = authenticatedThen L E req (createConnectionBody L E) r"

section \<open>The inbox\<close>

text \<open>\<open>time.Duration(seconds) * time.Second\<close> wraps around at 64 bits.\<close>

definition boundedConnectionWait :: "int \<Rightarrow> registry \<Rightarrow> duration" where
  "boundedConnectionWait seconds r =
     (if seconds \<le> 0 then connectionWait r
      else let wait = int64 (seconds * nsecond)
           in if connectionWait r < wait then connectionWait r else wait)"

definition boundedMaxEvents :: "int \<Rightarrow> int" where
  "boundedMaxEvents n = (if n \<le> 0 \<or> maxInboxEvents < n then maxInboxEvents else n)"

text \<open>At most one inbox wait per node.\<close>

definition claimInbox :: "gostring \<Rightarrow> registry \<Rightarrow> response option \<times> registry" where
  "claimInbox nodeID r =
     (if mgetz False (inboxWaiters r) nodeID
      then (Some (HttpError ''an inbox wait is already active for this node'' 409), r)
      else (None, r\<lparr>inboxWaiters := mput nodeID True (inboxWaiters r)\<rparr>))"

definition releaseInbox :: "gostring \<Rightarrow> registry \<Rightarrow> registry" where
  "releaseInbox nodeID r = r\<lparr>inboxWaiters := mdel nodeID (inboxWaiters r)\<rparr>"

definition pendingEventsLocked :: "env \<Rightarrow> gostring \<Rightarrow> uint64 \<Rightarrow> int \<Rightarrow> coordinatorState \<Rightarrow> connectionRequest list" where
  "pendingEventsLocked E nodeID after limit st =
     (let events = sortBy crCursor
            (filter (\<lambda>c. crTargetNode c = nodeID \<and> crState c = ''queued'' \<and> after < crCursor c)
              (rangeVals (visit E 6) (csConnections st)))
      in if limit < int (length events) then take (nat limit) events else events)"

definition offeredConnection :: "time \<Rightarrow> duration \<Rightarrow> connectionRequest \<Rightarrow> connectionRequest" where
  "offeredConnection now lease c =
     c\<lparr>crState := ''offered'', crStatusCode := 102, crUpdatedAt := now, crOfferLeaseEnds := now + lease\<rparr>"

definition deliverEvent :: "time \<Rightarrow> connectionRequest \<Rightarrow> registry \<Rightarrow> registry" where
  "deliverEvent now c r =
     notifyRequestLocked (crID c)
       (updState (csConnections_update (mput (crID c) (offeredConnection now (connectionLease r) c))) r)"

text \<open>
  A round of a long poll answers the request, or parks it on a channel with the answer a
  timeout would give.
\<close>

datatype roundResult = Answered response | Parked nat response

definition inboxRound :: "env \<Rightarrow> time \<Rightarrow> gostring \<Rightarrow> uint64 \<Rightarrow> int \<Rightarrow> registry \<Rightarrow> roundResult \<times> registry" where
  "inboxRound E now nodeID after maxEvents r0 =
     (case cleanupLocked E now r0 of (cleanupChanged, r) \<Rightarrow>
        let events = pendingEventsLocked E nodeID after maxEvents (state r)
        in if events \<noteq> [] then
             let r1 = fold (deliverEvent now) events r;
                 delivered = map (offeredConnection now (connectionLease r)) events;
                 (ok, r2) = persistLocked (writes E 0) r1
             in if \<not> ok then (Answered (HttpError ''failed to persist inbox delivery'' 500), r2)
                else (Answered (WriteJSON 200 (InboxPayload (crCursor (last delivered)) delivered)), r2)
           else
             let (signal, r1) = targetSignalLocked nodeID r;
                 cursor = mgetz 0 (csConnectionCursors (state r1)) nodeID;
                 (ok, r2) = (if cleanupChanged then persistLocked (writes E 0) r1 else (True, r1))
             in if \<not> ok then (Answered (HttpError ''failed to persist connection state'' 500), r2)
                else (Parked signal (WriteJSON 200 (InboxPayload cursor [])), r2))"

text \<open>
  The handler of a wait: what happens before its loop, and one turn of the loop with the deferred
  release of the node's claim when the turn answers.
\<close>

definition inboxBegin ::
    "'z json_scheme \<Rightarrow> gostring \<Rightarrow> gostring \<Rightarrow> registry \<Rightarrow> (response + duration \<times> uint64 \<times> int) \<times> registry" where
  "inboxBegin L body nodeID r =
     (case jsonWait L body of
        None \<Rightarrow> (Inl (HttpError ''invalid JSON'' 400), r)
      | Some input \<Rightarrow>
          let wait = boundedConnectionWait (iwWaitSeconds input) r;
              maxEvents = boundedMaxEvents (iwMaxEvents input)
          in case claimInbox nodeID r of
               (Some err, r') \<Rightarrow> (Inl err, r')
             | (None, r') \<Rightarrow> (Inr (wait, iwAfterCursor input, maxEvents), r'))"

definition inboxTurn :: "env \<Rightarrow> time \<Rightarrow> gostring \<Rightarrow> uint64 \<Rightarrow> int \<Rightarrow> registry \<Rightarrow> roundResult \<times> registry" where
  "inboxTurn E now nodeID after maxEvents r =
     (case inboxRound E now nodeID after maxEvents r of
        (Answered resp, r') \<Rightarrow> (Answered resp, releaseInbox nodeID r')
      | (Parked signal resp, r') \<Rightarrow> (Parked signal resp, r'))"

definition inboxBody ::
    "'z json_scheme \<Rightarrow> env \<Rightarrow> gostring \<Rightarrow> gostring \<Rightarrow> registry \<Rightarrow> roundResult \<times> registry" where
  "inboxBody L E body nodeID r =
     (case inboxBegin L body nodeID r of
        (Inl err, r') \<Rightarrow> (Answered err, r')
      | (Inr (wait, after, maxEvents), r') \<Rightarrow> inboxTurn E (clock E 2) nodeID after maxEvents r')"

definition waitConnectionInbox :: "'z json_scheme \<Rightarrow> env \<Rightarrow> httpRequest \<Rightarrow> registry \<Rightarrow> roundResult \<times> registry" where
  "waitConnectionInbox L E req r =
     (case authenticatedConnectionBody L E req r of
        (Inl err, r1) \<Rightarrow> (Answered err, r1)
      | (Inr (body, nodeID), r1) \<Rightarrow> inboxBody L E body nodeID r1)"

definition ackLocked :: "env \<Rightarrow> gostring \<Rightarrow> uint64 \<Rightarrow> registry \<Rightarrow> response \<times> registry" where
  "ackLocked E nodeID cursor r =
     (if mgetz 0 (csConnectionCursors (state r)) nodeID < cursor then
        (HttpError ''cursor is ahead of server state'' 409, r)
      else if mgetz 0 (csConnectionAcks (state r)) nodeID < cursor then
        (case persistLocked (writes E 0) (updState (csConnectionAcks_update (mput nodeID cursor)) r) of
           (False, r') \<Rightarrow> (HttpError ''failed to persist inbox acknowledgement'' 500, r')
         | (True, r') \<Rightarrow> (WriteJSON 200 (AckPayload (mgetz 0 (csConnectionAcks (state r')) nodeID)), r'))
      else (WriteJSON 200 (AckPayload (mgetz 0 (csConnectionAcks (state r)) nodeID)), r))"

definition ackBody :: "'z json_scheme \<Rightarrow> env \<Rightarrow> gostring \<Rightarrow> gostring \<Rightarrow> registry \<Rightarrow> response \<times> registry" where
  "ackBody L E body nodeID r =
     (case jsonAck L body of
        None \<Rightarrow> (HttpError ''invalid JSON'' 400, r)
      | Some cursor \<Rightarrow> ackLocked E nodeID cursor r)"

definition ackConnectionInbox :: "'z json_scheme \<Rightarrow> env \<Rightarrow> httpRequest \<Rightarrow> registry \<Rightarrow> response \<times> registry" where
  "ackConnectionInbox L E req r = authenticatedThen L E req (ackBody L E) r"

section \<open>Deciding and canceling\<close>

definition settledConnection :: "gostring \<Rightarrow> int \<Rightarrow> gostring \<Rightarrow> time \<Rightarrow> connectionRequest \<Rightarrow> connectionRequest" where
  "settledConnection st code reason now c =
     c\<lparr>crState := st, crStatusCode := code, crReason := trimSpace reason, crUpdatedAt := now,
       crOfferLeaseEnds := 0\<rparr>"

definition settle ::
    "env \<Rightarrow> gostring \<Rightarrow> connectionRequest \<Rightarrow> registry \<Rightarrow> registry" where
  "settle E nodeID connection r =
     appendAuditLocked (clock E 3)
       \<lparr>aeTime = 0, aeAction = ''connection_'' @ crState connection, aeNodeID = nodeID, aeNodeName = '''',
        aeRequestID = crID connection, aeSource = ''''\<rparr>
       (updState (csConnections_update (mput (crID connection) connection)) r)"

definition decideConnectionLocked ::
    "env \<Rightarrow> time \<Rightarrow> gostring \<Rightarrow> gostring \<Rightarrow> int \<Rightarrow> connectionIDInput \<Rightarrow> registry \<Rightarrow> response \<times> registry" where
  "decideConnectionLocked E now nodeID st code input r0 =
     (case sweepAndPersist E now r0 of
        (False, r) \<Rightarrow> (HttpError ''failed to persist connection state'' 500, r)
      | (True, r) \<Rightarrow>
          (case mget (csConnections (state r)) (idRequestID input) of
             None \<Rightarrow> (HttpError ''connection request not found'' 404, r)
           | Some c \<Rightarrow>
               if crTargetNode c \<noteq> nodeID then
                 (HttpError ''only the target node can decide this request'' 403, r)
               else if crState c = st then (WriteJSON 200 (ConnectionPayload c), r)
               else if connectionTerminal (crState c) \<or> (crState c \<noteq> ''queued'' \<and> crState c \<noteq> ''offered'') then
                 (HttpError ''connection request cannot be decided in its current state'' 409, r)
               else
                 let connection = settledConnection st code (idReason input) now c;
                     (ok, r1) = persistLocked (writes E 1) (settle E nodeID connection r);
                     r2 = notifyRequestLocked (crID connection) r1
                 in if \<not> ok then (HttpError ''failed to persist connection decision'' 500, r2)
                    else (WriteJSON 200 (ConnectionPayload connection), r2)))"

definition decideBody ::
    "'z json_scheme \<Rightarrow> env \<Rightarrow> gostring \<Rightarrow> int \<Rightarrow> gostring \<Rightarrow> gostring \<Rightarrow> registry \<Rightarrow> response \<times> registry" where
  "decideBody L E st code body nodeID r =
     (case jsonID L body of
        None \<Rightarrow> (HttpError ''request_id is required'' 400, r)
      | Some input \<Rightarrow>
          if idRequestID input = '''' then (HttpError ''request_id is required'' 400, r)
          else if maxConnectionReason < length (trimSpace (idReason input)) then
            (HttpError ''connection reason is too long'' 400, r)
          else decideConnectionLocked E (clock E 2) nodeID st code input r)"

definition decideConnection ::
    "'z json_scheme \<Rightarrow> env \<Rightarrow> httpRequest \<Rightarrow> gostring \<Rightarrow> int \<Rightarrow> registry \<Rightarrow> response \<times> registry" where
  "decideConnection L E req st code r = authenticatedThen L E req (decideBody L E st code) r"

definition cancelConnectionLocked ::
    "env \<Rightarrow> time \<Rightarrow> gostring \<Rightarrow> connectionIDInput \<Rightarrow> registry \<Rightarrow> response \<times> registry" where
  "cancelConnectionLocked E now nodeID input r0 =
     (case sweepAndPersist E now r0 of
        (False, r) \<Rightarrow> (HttpError ''failed to persist connection state'' 500, r)
      | (True, r) \<Rightarrow>
          (case mget (csConnections (state r)) (idRequestID input) of
             None \<Rightarrow> (HttpError ''connection request not found'' 404, r)
           | Some c \<Rightarrow>
               if crSourceNode c \<noteq> nodeID then
                 (HttpError ''only the source node can cancel this request'' 403, r)
               else if crState c = ''canceled'' then (WriteJSON 200 (ConnectionPayload c), r)
               else if connectionTerminal (crState c) then
                 (HttpError ''connection request is already terminal'' 409, r)
               else
                 let connection = settledConnection ''canceled'' 499 (idReason input) now c;
                     (ok, r1) = persistLocked (writes E 1) (settle E nodeID connection r);
                     r2 = notifyRequestLocked (crID connection) (notifyTargetLocked (crTargetNode connection) r1)
                 in if \<not> ok then (HttpError ''failed to persist cancellation'' 500, r2)
                    else (WriteJSON 200 (ConnectionPayload connection), r2)))"

definition cancelBody :: "'z json_scheme \<Rightarrow> env \<Rightarrow> gostring \<Rightarrow> gostring \<Rightarrow> registry \<Rightarrow> response \<times> registry" where
  "cancelBody L E body nodeID r =
     (case jsonID L body of
        None \<Rightarrow> (HttpError ''request_id is required'' 400, r)
      | Some input \<Rightarrow>
          if idRequestID input = '''' then (HttpError ''request_id is required'' 400, r)
          else if maxConnectionReason < length (trimSpace (idReason input)) then
            (HttpError ''connection reason is too long'' 400, r)
          else cancelConnectionLocked E (clock E 2) nodeID input r)"

definition cancelConnection :: "'z json_scheme \<Rightarrow> env \<Rightarrow> httpRequest \<Rightarrow> registry \<Rightarrow> response \<times> registry" where
  "cancelConnection L E req r = authenticatedThen L E req (cancelBody L E) r"

section \<open>Following the status\<close>

definition statusRound ::
    "env \<Rightarrow> time \<Rightarrow> gostring \<Rightarrow> bool \<Rightarrow> connectionStatusWaitInput \<Rightarrow> registry \<Rightarrow> roundResult \<times> registry" where
  "statusRound E now nodeID wait input r0 =
     (case cleanupLocked E now r0 of (cleanupChanged, r) \<Rightarrow>
        (case mget (csConnections (state r)) (swRequestID input) of
           None \<Rightarrow> (Answered (HttpError ''connection request not found'' 404), r)
         | Some connection \<Rightarrow>
             if crSourceNode connection \<noteq> nodeID \<and> crTargetNode connection \<noteq> nodeID then
               (Answered (HttpError ''connection request is not visible to this node'' 403), r)
             else if \<not> wait \<or> crState connection \<noteq> swKnownState input \<or> connectionTerminal (crState connection) then
               (case if cleanupChanged then persistLocked (writes E 0) r else (True, r) of
                  (False, r1) \<Rightarrow> (Answered (HttpError ''failed to persist connection state'' 500), r1)
                | (True, r1) \<Rightarrow> (Answered (WriteJSON 200 (ConnectionPayload connection)), r1))
             else
               (case requestSignalLocked (crID connection) r of (signal, r1) \<Rightarrow>
                  (case if cleanupChanged then persistLocked (writes E 0) r1 else (True, r1) of
                     (False, r2) \<Rightarrow> (Answered (HttpError ''failed to persist connection state'' 500), r2)
                   | (True, r2) \<Rightarrow> (Parked signal (WriteJSON 200 (ConnectionPayload connection)), r2)))))"

definition statusBody ::
    "'z json_scheme \<Rightarrow> env \<Rightarrow> bool \<Rightarrow> gostring \<Rightarrow> gostring \<Rightarrow> registry \<Rightarrow> roundResult \<times> registry" where
  "statusBody L E wait body nodeID r =
     (case jsonStatus L body of
        None \<Rightarrow> (Answered (HttpError ''request_id is required'' 400), r)
      | Some input \<Rightarrow>
          if swRequestID input = '''' then (Answered (HttpError ''request_id is required'' 400), r)
          else statusRound E (clock E 2) nodeID wait input r)"

definition connectionStatus :: "'z json_scheme \<Rightarrow> env \<Rightarrow> httpRequest \<Rightarrow> bool \<Rightarrow> registry \<Rightarrow> roundResult \<times> registry" where
  "connectionStatus L E req wait r =
     (case authenticatedConnectionBody L E req r of
        (Inl err, r1) \<Rightarrow> (Answered err, r1)
      | (Inr (body, nodeID), r1) \<Rightarrow> statusBody L E wait body nodeID r1)"

end
