(* ===== verification/Connections_Safety.thy ===== *)
theory Connections_Safety
  imports Connections
begin

text \<open>
  What the connection broker keeps true: the life cycle of a request, the agreement of the
  idempotency index with the requests, the bounds of the queues, and what each handler answers.
\<close>

section \<open>Case rules\<close>

text \<open>Persisting changes the files and nothing else.\<close>

lemma persist_outcomes:
  "persistLocked MkdirFails r = (False, r\<lparr>disk := disk r\<rparr>)"
  "persistLocked MarshalFails r = (False, r\<lparr>disk := disk r\<rparr>)"
  "persistLocked WriteFails r = (False, r\<lparr>disk := (disk r)(path r @ ''.new'' := Some TornFile)\<rparr>)"
  "persistLocked RenameFails r = (False, r\<lparr>disk := (disk r)(path r @ ''.new'' := Some (StateFile (state r)))\<rparr>)"
  "persistLocked WroteFile r =
     (True, r\<lparr>disk := ((disk r)(path r @ ''.new'' := None))(path r := Some (StateFile (state r)))\<rparr>)"
  by (simp_all add: persistLocked_def Let_def)

text \<open>The files an attempt to persist may leave, successful or not.\<close>

definition wrote :: "registry \<Rightarrow> (gostring \<Rightarrow> stateFile option) \<Rightarrow> bool" where
  "wrote r d \<longleftrightarrow> (\<exists>out. d = disk (snd (persistLocked out r)))"

lemma wrote_nothing: "wrote r (disk r)"
  unfolding wrote_def by (rule exI [of _ MkdirFails]) (simp add: persist_outcomes)

lemma persist_obtain:
  obtains ok d where "persistLocked out r = (ok, r\<lparr>disk := d\<rparr>)"
    and "ok \<Longrightarrow> d (path r) = Some (StateFile (state r))" and "wrote r d"
proof (rule that)
  show "persistLocked out r = (fst (persistLocked out r), r\<lparr>disk := disk (snd (persistLocked out r))\<rparr>)"
    by (cases out) (simp_all add: persist_outcomes)
  show "fst (persistLocked out r) \<Longrightarrow> disk (snd (persistLocked out r)) (path r) = Some (StateFile (state r))"
    by (cases out) (simp_all add: persist_outcomes)
  show "wrote r (disk (snd (persistLocked out r)))" unfolding wrote_def by blast
qed

lemma sweepAndPersist_obtain:
  obtains ok d where "sweepAndPersist E now r0 = (ok, (snd (cleanupLocked E now r0))\<lparr>disk := d\<rparr>)"
    and "wrote (snd (cleanupLocked E now r0)) d"
proof -
  obtain changed r where c: "cleanupLocked E now r0 = (changed, r)" by fastforce
  obtain ok d where d: "persistLocked (writes E 0) r = (ok, r\<lparr>disk := d\<rparr>)" and w: "wrote r d" by (rule persist_obtain)
  have "sweepAndPersist E now r0 = (if changed then (ok, r\<lparr>disk := d\<rparr>) else (True, r\<lparr>disk := disk r\<rparr>))"
    by (simp add: sweepAndPersist_def c d)
  then have "sweepAndPersist E now r0 = (if changed then ok else True,
      (snd (cleanupLocked E now r0))\<lparr>disk := if changed then d else disk r\<rparr>)"
    by (simp add: c)
  then show thesis by (rule that) (use w wrote_nothing [of r] in \<open>simp add: c\<close>)
qed

lemma notify_disk:
  "notifyTargetLocked n (r\<lparr>disk := d\<rparr>) = (notifyTargetLocked n r)\<lparr>disk := d\<rparr>"
  "notifyRequestLocked n (r\<lparr>disk := d\<rparr>) = (notifyRequestLocked n r)\<lparr>disk := d\<rparr>"
  by (auto simp: notifyTargetLocked_def notifyRequestLocked_def closeChan_def split: option.split)

definition settled :: "registry \<Rightarrow> response \<Rightarrow> response \<Rightarrow> (gostring \<Rightarrow> stateFile option) \<Rightarrow> bool" where
  "settled r answer resp d \<longleftrightarrow>
     (resp = answer \<and> d (path r) = Some (StateFile (state r))) \<or> (\<exists>m. resp = HttpError m 500)"

lemma createConnectionLocked_cases:
  fixes E now r0 defines "rc \<equiv> snd (cleanupLocked E now r0)"
  assumes "\<And>m c d. 400 \<le> c \<Longrightarrow> wrote rc d \<Longrightarrow> P (HttpError m c, rc\<lparr>disk := d\<rparr>)"
    and "\<And>existingID existing d. \<lbrakk>existingID = mgetz '''' (csConnectionIdempotency (state rc))
            (idempotencyIndex sourceNode (ciIdempotencyKey input)); existingID \<noteq> '''';
          mget (csConnections (state rc)) existingID = Some existing; wrote rc d\<rbrakk>
        \<Longrightarrow> P (WriteJSON 200 (ConnectionPayload existing), rc\<lparr>disk := d\<rparr>)"
    and "\<And>source target cid connection r1 d d' resp. \<lbrakk>
          mgetz '''' (csConnectionIdempotency (state rc)) (idempotencyIndex sourceNode (ciIdempotencyKey input)) = '''';
          mget (csNodes (state rc)) sourceNode = Some source;
          mget (csNodes (state rc)) (ciTargetNode input) = Some target;
          dnVirtualNetwork source = dnVirtualNetwork target;
          ciReturnRelay input \<noteq> '''' \<longrightarrow> relayUsable source (csNodes (state rc)) (ciReturnRelay input);
          \<exists>service \<in> set (dnServices target). svName service = ciService input;
          int (length (csConnections (state rc))) < connectionMax rc;
          targetPending (ciTargetNode input) (state rc) < maxConnectionsPerTarget;
          randomToken (entropy E 0) = Some cid; wrote rc d;
          enqueueConnection E now sourceNode input cid (rc\<lparr>disk := d\<rparr>) = (connection, r1);
          settled r1 (WriteJSON 201 (ConnectionPayload connection)) resp d'; wrote r1 d'\<rbrakk>
        \<Longrightarrow> P (resp, notifyRequestLocked cid (notifyTargetLocked (ciTargetNode input) (r1\<lparr>disk := d'\<rparr>)))"
  shows "P (createConnectionLocked E now sourceNode input r0)"
proof -
  obtain ok d where sweep: "sweepAndPersist E now r0 = (ok, rc\<lparr>disk := d\<rparr>)" and w: "wrote rc d"
    unfolding rc_def by (rule sweepAndPersist_obtain)
  have st: "state (rc\<lparr>disk := d\<rparr>) = state rc" "connectionMax (rc\<lparr>disk := d\<rparr>) = connectionMax rc" by simp_all
  have enqueue: "P (let (connection, r1) = enqueueConnection E now sourceNode input cid (rc\<lparr>disk := d\<rparr>);
                         (ok, r2) = persistLocked (writes E 1) r1;
                         r3 = notifyRequestLocked cid (notifyTargetLocked (ciTargetNode input) r2)
                     in if \<not> ok then (HttpError ''failed to persist connection request'' 500, r3)
                        else (WriteJSON 201 (ConnectionPayload connection), r3))"
    if "mgetz '''' (csConnectionIdempotency (state rc)) (idempotencyIndex sourceNode (ciIdempotencyKey input)) = ''''"
      "mget (csNodes (state rc)) sourceNode = Some source"
      "mget (csNodes (state rc)) (ciTargetNode input) = Some target"
      "dnVirtualNetwork source = dnVirtualNetwork target"
      "ciReturnRelay input \<noteq> '''' \<longrightarrow> relayUsable source (csNodes (state rc)) (ciReturnRelay input)"
      "\<exists>service \<in> set (dnServices target). svName service = ciService input"
      "int (length (csConnections (state rc))) < connectionMax rc"
      "targetPending (ciTargetNode input) (state rc) < maxConnectionsPerTarget"
      "randomToken (entropy E 0) = Some cid" for source target cid
  proof -
    obtain connection r1 where e: "enqueueConnection E now sourceNode input cid (rc\<lparr>disk := d\<rparr>) = (connection, r1)"
      by fastforce
    obtain ok' d' where p: "persistLocked (writes E 1) r1 = (ok', r1\<lparr>disk := d'\<rparr>)"
      and d': "ok' \<Longrightarrow> d' (path r1) = Some (StateFile (state r1))" and w': "wrote r1 d'"
      by (rule persist_obtain) blast
    have "settled r1 (WriteJSON 201 (ConnectionPayload connection))
        (if ok' then WriteJSON 201 (ConnectionPayload connection)
         else HttpError ''failed to persist connection request'' 500) d'"
      using d' by (simp add: settled_def)
    from assms(4) [OF that w e this w'] show ?thesis unfolding e p Let_def prod.case by (cases ok') simp_all
  qed
  show ?thesis
    unfolding createConnectionLocked_def sweep
    using enqueue w by (auto simp: assms(2,3) Let_def not_le split: bool.split option.split prod.split)
qed

lemma enqueueConnection_obtain:
  obtains connection r1 where "enqueueConnection E now sourceNode input cid r = (connection, r1)"
    and "connection = queuedConnection cid sourceNode input
           (mgetz 0 (csConnectionCursors (state r)) (ciTargetNode input) + 1) now (connectionTTL r)"
    and "csConnections (state r1) = mput cid connection (csConnections (state r))"
    and "csConnectionIdempotency (state r1)
      = mput (idempotencyIndex sourceNode (ciIdempotencyKey input)) cid (csConnectionIdempotency (state r))"
    and "csConnectionCursors (state r1) = mput (ciTargetNode input)
           (mgetz 0 (csConnectionCursors (state r)) (ciTargetNode input) + 1) (csConnectionCursors (state r))"
  by (rule that [OF prod.collapse [symmetric]]) (simp_all add: enqueueConnection_def Let_def)

lemma decideConnectionLocked_cases:
  fixes E now r0 defines "rc \<equiv> snd (cleanupLocked E now r0)"
  assumes "\<And>m c d. 400 \<le> c \<Longrightarrow> wrote rc d \<Longrightarrow> P (HttpError m c, rc\<lparr>disk := d\<rparr>)"
    and "\<And>c d. \<lbrakk>mget (csConnections (state rc)) (idRequestID input) = Some c; crTargetNode c = nodeID;
          crState c = st; wrote rc d\<rbrakk> \<Longrightarrow> P (WriteJSON 200 (ConnectionPayload c), rc\<lparr>disk := d\<rparr>)"
    and "\<And>c connection r1 d d' resp. \<lbrakk>mget (csConnections (state rc)) (idRequestID input) = Some c;
          crTargetNode c = nodeID; crState c = ''queued'' \<or> crState c = ''offered''; crState c \<noteq> st;
          connection = settledConnection st code (idReason input) now c;
          r1 = settle E nodeID connection (rc\<lparr>disk := d\<rparr>); wrote rc d;
          settled r1 (WriteJSON 200 (ConnectionPayload connection)) resp d'; wrote r1 d'\<rbrakk>
        \<Longrightarrow> P (resp, notifyRequestLocked (crID connection) (r1\<lparr>disk := d'\<rparr>))"
  shows "P (decideConnectionLocked E now nodeID st code input r0)"
proof -
  obtain ok d where sweep: "sweepAndPersist E now r0 = (ok, rc\<lparr>disk := d\<rparr>)" and w: "wrote rc d"
    unfolding rc_def by (rule sweepAndPersist_obtain)
  have decided: "P (let connection = settledConnection st code (idReason input) now c;
                     (ok, r1) = persistLocked (writes E 1) (settle E nodeID connection (rc\<lparr>disk := d\<rparr>));
                     r2 = notifyRequestLocked (crID connection) r1
                 in if \<not> ok then (HttpError ''failed to persist connection decision'' 500, r2)
                    else (WriteJSON 200 (ConnectionPayload connection), r2))"
    if "mget (csConnections (state rc)) (idRequestID input) = Some c" "crTargetNode c = nodeID"
      "crState c = ''queued'' \<or> crState c = ''offered''" "crState c \<noteq> st" for c
  proof -
    let ?c = "settledConnection st code (idReason input) now c"
    let ?r1 = "settle E nodeID ?c (rc\<lparr>disk := d\<rparr>)"
    obtain ok' d' where p: "persistLocked (writes E 1) ?r1 = (ok', ?r1\<lparr>disk := d'\<rparr>)"
      and d': "ok' \<Longrightarrow> d' (path ?r1) = Some (StateFile (state ?r1))" and w': "wrote ?r1 d'"
      by (rule persist_obtain) blast
    have "settled ?r1 (WriteJSON 200 (ConnectionPayload ?c))
        (if ok' then WriteJSON 200 (ConnectionPayload ?c) else HttpError ''failed to persist connection decision'' 500) d'"
      using d' by (simp add: settled_def)
    from assms(4) [OF that refl refl w this w'] show ?thesis unfolding Let_def p prod.case by (cases ok') simp_all
  qed
  show ?thesis
    unfolding decideConnectionLocked_def sweep
    using decided w by (auto simp: assms(2,3) split: bool.split option.split)
qed

lemma cancelConnectionLocked_cases:
  fixes E now r0 defines "rc \<equiv> snd (cleanupLocked E now r0)"
  assumes "\<And>m c d. 400 \<le> c \<Longrightarrow> wrote rc d \<Longrightarrow> P (HttpError m c, rc\<lparr>disk := d\<rparr>)"
    and "\<And>c d. \<lbrakk>mget (csConnections (state rc)) (idRequestID input) = Some c; crSourceNode c = nodeID;
          crState c = ''canceled''; wrote rc d\<rbrakk> \<Longrightarrow> P (WriteJSON 200 (ConnectionPayload c), rc\<lparr>disk := d\<rparr>)"
    and "\<And>c connection r1 d d' resp. \<lbrakk>mget (csConnections (state rc)) (idRequestID input) = Some c;
          crSourceNode c = nodeID; \<not> connectionTerminal (crState c);
          connection = settledConnection ''canceled'' 499 (idReason input) now c;
          r1 = settle E nodeID connection (rc\<lparr>disk := d\<rparr>); wrote rc d;
          settled r1 (WriteJSON 200 (ConnectionPayload connection)) resp d'; wrote r1 d'\<rbrakk>
        \<Longrightarrow> P (resp, notifyRequestLocked (crID connection) (notifyTargetLocked (crTargetNode connection) (r1\<lparr>disk := d'\<rparr>)))"
  shows "P (cancelConnectionLocked E now nodeID input r0)"
proof -
  obtain ok d where sweep: "sweepAndPersist E now r0 = (ok, rc\<lparr>disk := d\<rparr>)" and w: "wrote rc d"
    unfolding rc_def by (rule sweepAndPersist_obtain)
  have canceled: "P (let connection = settledConnection ''canceled'' 499 (idReason input) now c;
                     (ok, r1) = persistLocked (writes E 1) (settle E nodeID connection (rc\<lparr>disk := d\<rparr>));
                     r2 = notifyRequestLocked (crID connection) (notifyTargetLocked (crTargetNode connection) r1)
                 in if \<not> ok then (HttpError ''failed to persist cancellation'' 500, r2)
                    else (WriteJSON 200 (ConnectionPayload connection), r2))"
    if "mget (csConnections (state rc)) (idRequestID input) = Some c" "crSourceNode c = nodeID"
      "\<not> connectionTerminal (crState c)" for c
  proof -
    let ?c = "settledConnection ''canceled'' 499 (idReason input) now c"
    let ?r1 = "settle E nodeID ?c (rc\<lparr>disk := d\<rparr>)"
    obtain ok' d' where p: "persistLocked (writes E 1) ?r1 = (ok', ?r1\<lparr>disk := d'\<rparr>)"
      and d': "ok' \<Longrightarrow> d' (path ?r1) = Some (StateFile (state ?r1))" and w': "wrote ?r1 d'"
      by (rule persist_obtain) blast
    have "settled ?r1 (WriteJSON 200 (ConnectionPayload ?c))
        (if ok' then WriteJSON 200 (ConnectionPayload ?c) else HttpError ''failed to persist cancellation'' 500) d'"
      using d' by (simp add: settled_def)
    from assms(4) [OF that refl refl w this w'] show ?thesis unfolding Let_def p prod.case by (cases ok') simp_all
  qed
  show ?thesis
    unfolding cancelConnectionLocked_def sweep
    using canceled w by (auto simp: assms(2,3) split: bool.split option.split)
qed

lemma ackLocked_cases:
  assumes "\<And>m c. 400 \<le> c \<Longrightarrow> P (HttpError m c, r)"
    and "cursor \<le> mgetz 0 (csConnectionAcks (state r)) nodeID \<Longrightarrow>
          P (WriteJSON 200 (AckPayload (mgetz 0 (csConnectionAcks (state r)) nodeID)), r)"
    and "\<And>r1 d resp. \<lbrakk>mgetz 0 (csConnectionAcks (state r)) nodeID < cursor;
          cursor \<le> mgetz 0 (csConnectionCursors (state r)) nodeID;
          r1 = updState (csConnectionAcks_update (mput nodeID cursor)) r;
          settled r1 (WriteJSON 200 (AckPayload cursor)) resp d; wrote r1 d\<rbrakk>
        \<Longrightarrow> P (resp, r1\<lparr>disk := d\<rparr>)"
  shows "P (ackLocked E nodeID cursor r)"
proof -
  let ?r1 = "updState (csConnectionAcks_update (mput nodeID cursor)) r"
  obtain ok d where p: "persistLocked (writes E 0) ?r1 = (ok, ?r1\<lparr>disk := d\<rparr>)"
    and d: "ok \<Longrightarrow> d (path ?r1) = Some (StateFile (state ?r1))" and w: "wrote ?r1 d"
    by (rule persist_obtain) blast
  have "settled ?r1 (WriteJSON 200 (AckPayload cursor))
      (if ok then WriteJSON 200 (AckPayload cursor) else HttpError ''failed to persist inbox acknowledgement'' 500) d"
    using d by (simp add: settled_def)
  note acked = assms(3) [OF _ _ refl this w]
  show ?thesis
    unfolding ackLocked_def p
    using assms(1,2) acked by (cases ok) (auto simp: not_less mgetz_def)
qed

lemma inboxRound_cases:
  fixes E now r0 defines "rc \<equiv> snd (cleanupLocked E now r0)"
  assumes "\<And>events r1 d resp. \<lbrakk>events = pendingEventsLocked E nodeID after maxEvents (state rc); events \<noteq> [];
          r1 = fold (deliverEvent now) events rc;
          settled r1 (WriteJSON 200 (InboxPayload (crCursor (last events)) (map (offeredConnection now (connectionLease rc)) events))) resp d; wrote r1 d\<rbrakk>
        \<Longrightarrow> P (Answered resp, r1\<lparr>disk := d\<rparr>)"
    and "\<And>signal r1 d res. \<lbrakk>pendingEventsLocked E nodeID after maxEvents (state rc) = [];
          targetSignalLocked nodeID rc = (signal, r1);
          res = Parked signal (WriteJSON 200 (InboxPayload (mgetz 0 (csConnectionCursors (state rc)) nodeID) []))
            \<or> (\<exists>m. res = Answered (HttpError m 500)); wrote r1 d\<rbrakk>
        \<Longrightarrow> P (res, r1\<lparr>disk := d\<rparr>)"
  shows "P (inboxRound E now nodeID after maxEvents r0)"
proof -
  obtain changed r where c: "cleanupLocked E now r0 = (changed, r)" by fastforce
  then have rc: "rc = r" by (simp add: rc_def)
  let ?events = "pendingEventsLocked E nodeID after maxEvents (state r)"
  show ?thesis
  proof (cases "?events = []")
    case False
    let ?r1 = "fold (deliverEvent now) ?events r"
    let ?a = "WriteJSON 200 (InboxPayload (crCursor (last ?events)) (map (offeredConnection now (connectionLease r)) ?events))"
    obtain ok d where p: "persistLocked (writes E 0) ?r1 = (ok, ?r1\<lparr>disk := d\<rparr>)"
      and d: "ok \<Longrightarrow> d (path ?r1) = Some (StateFile (state ?r1))" and w: "wrote ?r1 d"
      by (rule persist_obtain) blast
    have s: "settled ?r1 ?a (if ok then ?a else HttpError ''failed to persist inbox delivery'' 500) d"
      using d by (simp add: settled_def)
    have "crCursor (last (map (offeredConnection now (connectionLease r)) ?events)) = crCursor (last ?events)"
      using False by (simp add: last_map offeredConnection_def)
    then have "inboxRound E now nodeID after maxEvents r0
        = (Answered (if ok then ?a else HttpError ''failed to persist inbox delivery'' 500), ?r1\<lparr>disk := d\<rparr>)"
      using False by (simp add: inboxRound_def c Let_def p)
    with assms(2) [of ?events ?r1 _ d, unfolded rc, OF refl False refl s w] show ?thesis by simp
  next
    case True
    obtain signal r1 where t: "targetSignalLocked nodeID r = (signal, r1)" by fastforce
    then have st: "state r1 = state r" by (auto simp: targetSignalLocked_def split: option.splits)
    obtain ok d where p: "persistLocked (writes E 0) r1 = (ok, r1\<lparr>disk := d\<rparr>)" and w: "wrote r1 d"
      by (rule persist_obtain)
    let ?ok = "changed \<longrightarrow> ok" and ?d = "if changed then d else disk r1"
    let ?p = "Parked signal (WriteJSON 200 (InboxPayload (mgetz 0 (csConnectionCursors (state r)) nodeID) []))"
    have "inboxRound E now nodeID after maxEvents r0
        = (if ?ok then ?p else Answered (HttpError ''failed to persist connection state'' 500), r1\<lparr>disk := ?d\<rparr>)"
      using True by (cases changed) (simp_all add: inboxRound_def c Let_def p t st)
    with assms(3) [of signal r1 _ ?d, unfolded rc, OF True t] show ?thesis
      using w wrote_nothing [of r1] by (cases ?ok) auto
  qed
qed

lemma statusRound_cases:
  fixes E now r0 defines "rc \<equiv> snd (cleanupLocked E now r0)"
  assumes "\<And>m c d. 400 \<le> c \<Longrightarrow> wrote rc d \<Longrightarrow> P (Answered (HttpError m c), rc\<lparr>disk := d\<rparr>)"
    and "\<And>c d. \<lbrakk>mget (csConnections (state rc)) (swRequestID input) = Some c;
          crSourceNode c = nodeID \<or> crTargetNode c = nodeID;
          \<not> wait \<or> crState c \<noteq> swKnownState input \<or> connectionTerminal (crState c); wrote rc d\<rbrakk>
        \<Longrightarrow> P (Answered (WriteJSON 200 (ConnectionPayload c)), rc\<lparr>disk := d\<rparr>)"
    and "\<And>c signal r1 d res. \<lbrakk>mget (csConnections (state rc)) (swRequestID input) = Some c;
          crSourceNode c = nodeID \<or> crTargetNode c = nodeID; wait; crState c = swKnownState input;
          \<not> connectionTerminal (crState c); requestSignalLocked (crID c) rc = (signal, r1);
          res = Parked signal (WriteJSON 200 (ConnectionPayload c)) \<or> (\<exists>m. res = Answered (HttpError m 500)); wrote r1 d\<rbrakk>
        \<Longrightarrow> P (res, r1\<lparr>disk := d\<rparr>)"
  shows "P (statusRound E now nodeID wait input r0)"
proof -
  obtain changed r where c: "cleanupLocked E now r0 = (changed, r)" by fastforce
  then have rc: "rc = r" by (simp add: rc_def)
  have same: "P (Answered (HttpError m code), r)" if "400 \<le> code" for m code
    using assms(2) [OF that, of "disk r" m] wrote_nothing [of r] by (simp add: rc)
  have parked: "P (case requestSignalLocked (crID x) r of (signal, r1) \<Rightarrow>
                  (case if changed then persistLocked (writes E 0) r1 else (True, r1) of
                     (False, r2) \<Rightarrow> (Answered (HttpError ''failed to persist connection state'' 500), r2)
                   | (True, r2) \<Rightarrow> (Parked signal (WriteJSON 200 (ConnectionPayload x)), r2)))"
    if "mget (csConnections (state r)) (swRequestID input) = Some x" "crSourceNode x = nodeID \<or> crTargetNode x = nodeID"
      "wait" "crState x = swKnownState input" "\<not> connectionTerminal (crState x)" for x
  proof -
    obtain signal r1 where t: "requestSignalLocked (crID x) r = (signal, r1)" by fastforce
    obtain ok d where p: "persistLocked (writes E 0) r1 = (ok, r1\<lparr>disk := d\<rparr>)" and w: "wrote r1 d"
      by (rule persist_obtain)
    have d1: "r1 = r1\<lparr>disk := disk r1\<rparr>" by simp
    note q = assms(4) [unfolded rc, OF that t]
    have "P (Parked signal (WriteJSON 200 (ConnectionPayload x)), r1)"
      by (subst d1) (rule q, simp_all add: wrote_nothing)
    then show ?thesis unfolding t prod.case p
      using w by (cases changed; cases ok) (auto intro: q)
  qed
  have answered: "P (case if changed then persistLocked (writes E 0) r else (True, r) of
                  (False, r1) \<Rightarrow> (Answered (HttpError ''failed to persist connection state'' 500), r1)
                | (True, r1) \<Rightarrow> (Answered (WriteJSON 200 (ConnectionPayload x)), r1))"
    if "mget (csConnections (state r)) (swRequestID input) = Some x" "crSourceNode x = nodeID \<or> crTargetNode x = nodeID"
      "\<not> wait \<or> crState x \<noteq> swKnownState input \<or> connectionTerminal (crState x)" for x
  proof -
    obtain ok d where p: "persistLocked (writes E 0) r = (ok, r\<lparr>disk := d\<rparr>)" and w: "wrote r d"
      by (rule persist_obtain)
    note q = assms(3) [unfolded rc, OF that]
    have "P (Answered (WriteJSON 200 (ConnectionPayload x)), r)"
      using q [of "disk r"] wrote_nothing [of r] by simp
    then show ?thesis unfolding p
      using w by (cases changed; cases ok) (auto intro: q assms(2) [unfolded rc])
  qed
  show ?thesis
    unfolding statusRound_def c prod.case
    using answered parked by (auto simp: same split: option.split)
qed

end
