(* ===== verification/Connection_Invariant.thy ===== *)
theory Connection_Invariant
  imports Connections_Safety
begin

text \<open>
  The invariant of the connection table: every request is well formed, its state and status code
  agree, the idempotency index and the table point at each other, and no target has more
  unfinished requests than its queue holds. Every section of the broker keeps it.
\<close>

section \<open>The invariant\<close>

definition stateCodes :: "(gostring \<times> int) set" where
  "stateCodes = {(''queued'', 100), (''offered'', 102), (''accepted'', 200), (''rejected'', 403),
     (''canceled'', 499), (''expired'', 410)}"

definition connection_ok :: "gostring \<Rightarrow> connectionRequest \<Rightarrow> bool" where
  "connection_ok k c \<longleftrightarrow> crID c = k \<and> k \<noteq> '''' \<and> (crState c, crStatusCode c) \<in> stateCodes
     \<and> (crState c \<noteq> ''offered'' \<longrightarrow> crOfferLeaseEnds c = 0)
     \<and> crIdempotencyKey c \<noteq> '''' \<and> length (crIdempotencyKey c) \<le> 128
     \<and> crTargetNode c \<noteq> '''' \<and> crService c \<noteq> '''' \<and> length (crReason c) \<le> maxConnectionReason"

definition requestIndex :: "connectionRequest \<Rightarrow> gostring" where
  "requestIndex c = idempotencyIndex (crSourceNode c) (crIdempotencyKey c)"

definition connections_ok :: "coordinatorState \<Rightarrow> bool" where
  "connections_ok st \<longleftrightarrow>
     (\<forall>k c. mget (csConnections st) k = Some c \<longrightarrow>
        connection_ok k c \<and> mget (csConnectionIdempotency st) (requestIndex c) = Some k)
     \<and> (\<forall>i k. mget (csConnectionIdempotency st) i = Some k \<longrightarrow>
        (\<exists>c. mget (csConnections st) k = Some c \<and> requestIndex c = i))
     \<and> (\<forall>target. targetPending target st \<le> maxConnectionsPerTarget)"

lemma connections_okI:
  assumes "\<And>k c. mget (csConnections st) k = Some c \<Longrightarrow> connection_ok k c"
    and "\<And>k c. mget (csConnections st) k = Some c \<Longrightarrow> mget (csConnectionIdempotency st) (requestIndex c) = Some k"
    and "\<And>i k. mget (csConnectionIdempotency st) i = Some k \<Longrightarrow> \<exists>c. mget (csConnections st) k = Some c \<and> requestIndex c = i"
    and "\<And>target. targetPending target st \<le> maxConnectionsPerTarget"
  shows "connections_ok st"
  unfolding connections_ok_def using assms by blast

lemma connections_okD:
  assumes "connections_ok st"
  shows "mget (csConnections st) k = Some c \<Longrightarrow> connection_ok k c"
    and "mget (csConnections st) k = Some c \<Longrightarrow> mget (csConnectionIdempotency st) (requestIndex c) = Some k"
    and "mget (csConnectionIdempotency st) i = Some k \<Longrightarrow> \<exists>c. mget (csConnections st) k = Some c \<and> requestIndex c = i"
    and "targetPending target st \<le> maxConnectionsPerTarget"
  using assms unfolding connections_ok_def by blast+

lemma connections_ok_empty: "connections_ok emptyState"
  by (simp add: connections_ok_def emptyState_def targetPending_def)

text \<open>The fields of a request that never change.\<close>

definition sameRequest :: "connectionRequest \<Rightarrow> connectionRequest \<Rightarrow> bool" where
  "sameRequest c d \<longleftrightarrow> crID c = crID d \<and> crIdempotencyKey c = crIdempotencyKey d \<and> crSourceNode c = crSourceNode d
     \<and> crTargetNode c = crTargetNode d \<and> crService c = crService d \<and> crReturnRelay c = crReturnRelay d
     \<and> crCreatedAt c = crCreatedAt d \<and> crExpiresAt c = crExpiresAt d"

lemma sameRequest_index: "sameRequest c d \<Longrightarrow> requestIndex c = requestIndex d"
  by (simp add: sameRequest_def requestIndex_def)

lemma sameRequest_trans: "sameRequest a b \<Longrightarrow> sameRequest b c \<Longrightarrow> sameRequest a c"
  and sameRequest_refl [simp]: "sameRequest a a"
  by (simp_all add: sameRequest_def)

lemma connection_changes:
  "sameRequest c (expiredConnection now c)" "sameRequest c (requeuedConnection now cursor c)"
  "sameRequest c (offeredConnection now lease c)" "sameRequest c (settledConnection st code reason now c)"
  by (simp_all add: sameRequest_def expiredConnection_def requeuedConnection_def offeredConnection_def
      settledConnection_def)

lemma connection_ok_changes:
  assumes "connection_ok k c"
  shows "connection_ok k (expiredConnection now c)" "connection_ok k (requeuedConnection now cursor c)"
    "connection_ok k (offeredConnection now lease c)"
    "(st, code) \<in> stateCodes \<Longrightarrow> st \<noteq> ''offered'' \<Longrightarrow> length (trimSpace reason) \<le> maxConnectionReason \<Longrightarrow>
       connection_ok k (settledConnection st code reason now c)"
  using assms
  by (auto simp: connection_ok_def expiredConnection_def requeuedConnection_def offeredConnection_def
      settledConnection_def stateCodes_def maxConnectionReason_def)

lemma terminal_simps [simp]:
  "\<not> connectionTerminal ''queued''" "\<not> connectionTerminal ''offered''" "connectionTerminal ''accepted''"
  "connectionTerminal ''rejected''" "connectionTerminal ''canceled''" "connectionTerminal ''expired''"
  by (simp_all add: connectionTerminal_def)

section \<open>Three ways to change the table\<close>

lemma targetPending_mono:
  assumes "gomap_ok (csConnections st)" and "gomap_ok (csConnections st')"
    and "\<And>k c. mget (csConnections st') k = Some c \<Longrightarrow> crTargetNode c = t \<Longrightarrow> \<not> connectionTerminal (crState c) \<Longrightarrow>
      \<exists>d. mget (csConnections st) k = Some d \<and> crTargetNode d = t \<and> \<not> connectionTerminal (crState d)"
  shows "targetPending t st' \<le> targetPending t st"
  unfolding targetPending_def by (rule mcount_mono [OF assms(1,2)]) (use assms(3) in blast)

lemma connections_ok_update:
  assumes ok: "connections_ok st" "gomap_ok (csConnections st)"
    and c: "mget (csConnections st) k = Some c" "sameRequest c c'" "connection_ok k c'"
      "\<not> connectionTerminal (crState c') \<Longrightarrow> \<not> connectionTerminal (crState c)"
    and st': "csConnections st' = mput k c' (csConnections st)"
      "csConnectionIdempotency st' = csConnectionIdempotency st"
  shows "connections_ok st'"
proof (rule connections_okI)
  note okD = connections_okD [OF ok(1)] and index = sameRequest_index [OF c(2)]
  show "connection_ok j d" if "mget (csConnections st') j = Some d" for j d
    using that c(3) okD(1) by (auto simp: st' split: if_splits)
  show "mget (csConnectionIdempotency st') (requestIndex d) = Some j" if "mget (csConnections st') j = Some d" for j d
  proof (cases "j = k")
    case True
    with that okD(2) [OF c(1)] show ?thesis by (simp add: st' index)
  next
    case False
    with that okD(2) show ?thesis by (simp add: st')
  qed
  show "\<exists>d. mget (csConnections st') j = Some d \<and> requestIndex d = i"
    if "mget (csConnectionIdempotency st') i = Some j" for i j
  proof -
    from that okD(3) [of i j] obtain d where "mget (csConnections st) j = Some d" "requestIndex d = i"
      by (auto simp: st')
    then show ?thesis using c(1) by (cases "j = k") (auto simp: st' index [symmetric])
  qed
  show "targetPending t st' \<le> maxConnectionsPerTarget" for t
    by (rule order_trans [OF targetPending_mono okD(4)])
      (use ok(2) c(1,2,4) in \<open>auto simp: st' sameRequest_def split: if_splits\<close>)
qed

lemma connections_ok_delete:
  assumes ok: "connections_ok st" "gomap_ok (csConnections st)"
    and c: "mget (csConnections st) k = Some c"
    and st': "csConnections st' = mdel k (csConnections st)"
      "csConnectionIdempotency st' = mdel (requestIndex c) (csConnectionIdempotency st)"
  shows "connections_ok st'"
proof (rule connections_okI)
  note okD = connections_okD [OF ok(1)]
  show "connection_ok j d" if "mget (csConnections st') j = Some d" for j d
    using that okD(1) by (auto simp: st' split: if_splits)
  show "mget (csConnectionIdempotency st') (requestIndex d) = Some j" if "mget (csConnections st') j = Some d" for j d
  proof -
    from that have j: "j \<noteq> k" "mget (csConnections st) j = Some d" by (auto simp: st' split: if_splits)
    from okD(2) [OF j(2)] okD(2) [OF c] j(1) have "requestIndex d \<noteq> requestIndex c" by auto
    with okD(2) [OF j(2)] show ?thesis by (simp add: st')
  qed
  show "\<exists>d. mget (csConnections st') j = Some d \<and> requestIndex d = i"
    if "mget (csConnectionIdempotency st') i = Some j" for i j
  proof -
    from that have i: "i \<noteq> requestIndex c" "mget (csConnectionIdempotency st) i = Some j" by (auto simp: st' split: if_splits)
    from okD(3) [OF i(2)] obtain d where "mget (csConnections st) j = Some d" "requestIndex d = i" by auto
    with c i(1) show ?thesis by (auto simp: st')
  qed
  show "targetPending t st' \<le> maxConnectionsPerTarget" for t
    by (rule order_trans [OF targetPending_mono okD(4)]) (use ok(2) in \<open>auto simp: st' split: if_splits\<close>)
qed

lemma connections_ok_insert:
  assumes ok: "connections_ok st" "gomap_ok (csConnections st)"
    and new: "mget (csConnections st) k = None" "connection_ok k c"
      "mgetz '''' (csConnectionIdempotency st) (requestIndex c) = ''''"
      "targetPending (crTargetNode c) st < maxConnectionsPerTarget"
    and st': "csConnections st' = mput k c (csConnections st)"
      "csConnectionIdempotency st' = mput (requestIndex c) k (csConnectionIdempotency st)"
  shows "connections_ok st'"
proof (rule connections_okI)
  note okD = connections_okD [OF ok(1)]
  have none: "mget (csConnectionIdempotency st) (requestIndex c) = None"
  proof (cases "mget (csConnectionIdempotency st) (requestIndex c)")
    case (Some j)
    with new(3) have "j = ''''" by (simp add: mgetz_def)
    with okD(3) [OF Some] okD(1) show ?thesis by (auto simp: connection_ok_def)
  qed
  show "connection_ok j d" if "mget (csConnections st') j = Some d" for j d
    using that new(2) okD(1) by (auto simp: st' split: if_splits)
  show "mget (csConnectionIdempotency st') (requestIndex d) = Some j" if "mget (csConnections st') j = Some d" for j d
  proof (cases "j = k")
    case True
    with that show ?thesis by (simp add: st')
  next
    case False
    with that have "mget (csConnections st) j = Some d" by (simp add: st')
    from okD(2) [OF this] none have "requestIndex d \<noteq> requestIndex c" by auto
    with okD(2) [OF \<open>mget (csConnections st) j = Some d\<close>] show ?thesis by (simp add: st')
  qed
  show "\<exists>d. mget (csConnections st') j = Some d \<and> requestIndex d = i"
    if "mget (csConnectionIdempotency st') i = Some j" for i j
  proof (cases "i = requestIndex c")
    case True
    with that show ?thesis by (simp add: st')
  next
    case False
    with that have "mget (csConnectionIdempotency st) i = Some j" by (simp add: st')
    from okD(3) [OF this] obtain d where "mget (csConnections st) j = Some d" "requestIndex d = i" by auto
    with new(1) show ?thesis by (auto simp: st')
  qed
  show "targetPending t st' \<le> maxConnectionsPerTarget" for t
  proof -
    have "targetPending t st' \<le> (if crTargetNode c = t \<and> \<not> connectionTerminal (crState c)
        then Suc (targetPending t st) else targetPending t st)"
      unfolding targetPending_def st'(1) by (rule mcount_put [OF ok(2)])
    with okD(4) [of t] new(4) show ?thesis by (auto split: if_splits)
  qed
qed

text \<open>The invariant reads the two tables only.\<close>

lemma connections_ok_cong:
  "csConnections st' = csConnections st \<Longrightarrow> csConnectionIdempotency st' = csConnectionIdempotency st \<Longrightarrow>
   connections_ok st' = connections_ok st"
  by (simp add: connections_ok_def targetPending_def)

section \<open>Sweep and delivery\<close>

definition table_ok :: "registry \<Rightarrow> bool" where
  "table_ok r \<longleftrightarrow> gomap_ok (csConnections (state r)) \<and> connections_ok (state r)"

lemma table_ok_cong:
  "csConnections (state r') = csConnections (state r) \<Longrightarrow>
   csConnectionIdempotency (state r') = csConnectionIdempotency (state r) \<Longrightarrow> table_ok r' = table_ok r"
  using connections_ok_cong [of "state r'" "state r"] unfolding table_ok_def by simp

lemma table_ok_sweep: "table_ok (fst rc) \<Longrightarrow> table_ok (fst (sweepConnection now k rc))"
proof -
  assume ok: "table_ok (fst rc)"
  obtain r changed where rc: "rc = (r, changed)" by fastforce
  show ?thesis
  proof (cases "mget (csConnections (state r)) k")
    case None
    with ok show ?thesis by (simp add: rc sweepConnection_def)
  next
    case (Some c)
    from ok Some have c: "connection_ok k c" by (simp add: rc table_ok_def connections_ok_def)
    have upd: "table_ok r'" if "csConnections (state r') = mput k c' (csConnections (state r))"
      "csConnectionIdempotency (state r') = csConnectionIdempotency (state r)" "sameRequest c c'" "connection_ok k c'"
      "\<not> connectionTerminal (crState c') \<Longrightarrow> \<not> connectionTerminal (crState c)" for r' c'
      using ok that Some by (auto simp: rc table_ok_def intro: connections_ok_update)
    have del: "table_ok r'" if "csConnections (state r') = mdel k (csConnections (state r))"
      "csConnectionIdempotency (state r') = mdel (requestIndex c) (csConnectionIdempotency (state r))" for r'
      using ok that Some by (auto simp: rc table_ok_def intro: connections_ok_delete)
    consider (expired) "\<not> connectionTerminal (crState c) \<and> crExpiresAt c < now"
      | (requeued) "\<not> (\<not> connectionTerminal (crState c) \<and> crExpiresAt c < now)"
          "crState c = ''offered'' \<and> crOfferLeaseEnds c \<noteq> 0 \<and> crOfferLeaseEnds c < now"
      | (other) "\<not> (\<not> connectionTerminal (crState c) \<and> crExpiresAt c < now)"
          "\<not> (crState c = ''offered'' \<and> crOfferLeaseEnds c \<noteq> 0 \<and> crOfferLeaseEnds c < now)"
      by blast
    then show ?thesis
    proof cases
      case expired
      show ?thesis
        unfolding rc sweepConnection_def prod.case Some option.case if_P [OF expired] fst_conv
        by (rule upd [OF _ _ connection_changes(1) connection_ok_changes(1) [OF c], of _ now])
          (simp_all add: expiredConnection_def)
    next
      case requeued
      show ?thesis
        unfolding rc sweepConnection_def prod.case Some option.case if_not_P [OF requeued(1)] if_P [OF requeued(2)] Let_def fst_conv
        by (rule upd [OF _ _ connection_changes(2) connection_ok_changes(2) [OF c], of _ now])
          (use requeued in \<open>simp_all add: connectionTerminal_def\<close>)
    next
      case other
      have "table_ok r" using ok by (simp add: rc)
      then show ?thesis
        unfolding rc sweepConnection_def prod.case Some option.case if_not_P [OF other(1)] if_not_P [OF other(2)]
        by (cases "connectionTerminal (crState c) \<and> crUpdatedAt c < now - 24 * nhour")
          (simp_all add: del requestIndex_def)
    qed
  qed
qed

lemma table_ok_cleanup: "table_ok r \<Longrightarrow> table_ok (snd (cleanupLocked E now r))"
proof -
  assume ok: "table_ok r"
  show ?thesis
  proof (rule cleanup_stages [of E now r])
    fix rc assume rc: "rc = connectionSweep E now (nodeSweep E now (pendingSweep E now r))"
      and end_state: "snd (cleanupLocked E now r) = fst (pruneHistory E (cleanNonces E now (fst rc), snd rc))"
    have "table_ok (fst (nodeSweep E now (pendingSweep E now r)))"
      using ok by (subst table_ok_cong) (simp_all add: nodeSweep_frame pendingSweep_frame)
    then have "table_ok (fst rc)"
      unfolding rc connectionSweep_def
      by (rule fold_keeps [where P = "\<lambda>rc. table_ok (fst rc)", rotated]) (rule table_ok_sweep)
    then show "table_ok (snd (cleanupLocked E now r))"
      by (subst table_ok_cong [of _ "fst rc"]) (simp_all add: end_state)
  qed
qed

text \<open>The events of a round are queued requests of the node, each once, in the order of their cursors.\<close>

lemma map_rangeVals:
  assumes "\<And>k v. mget m k = Some v \<Longrightarrow> f v = k"
  shows "map f (rangeVals visit_order m) = rangeKeys visit_order m"
proof -
  have "map f (List.map_filter (mget m) ks) = ks" if "\<forall>k \<in> set ks. mget m k \<noteq> None" for ks
    using that by (induction ks) (auto simp: List.map_filter_simps assms split: option.split)
  from this [of "rangeKeys visit_order m"] show ?thesis
    by (simp add: rangeVals_def)
qed

lemma pendingEvents_facts:
  assumes "table_ok r" and "events = pendingEventsLocked E nodeID after limit (state r)" and "0 \<le> limit"
  shows "distinct (map crID events)" and "sorted (map crCursor events)" and "int (length events) \<le> limit"
    and "\<forall>c \<in> set events. mget (csConnections (state r)) (crID c) = Some c \<and> crTargetNode c = nodeID
      \<and> crState c = ''queued'' \<and> after < crCursor c"
proof -
  define all where "all = filter (\<lambda>c. crTargetNode c = nodeID \<and> crState c = ''queued'' \<and> after < crCursor c)
    (rangeVals (visit E 6) (csConnections (state r)))"
  have id: "crID c = k" if "mget (csConnections (state r)) k = Some c" for k c
    using connections_okD(1) [OF _ that] assms(1) by (simp add: table_ok_def connection_ok_def)
  obtain n where ev: "events = take n (sortBy crCursor all)" and n: "int n \<le> limit \<or> length all \<le> n \<and> int (length all) \<le> limit"
  proof (cases "limit < int (length all)")
    case True
    show ?thesis by (rule that [of "nat limit"]) (use True assms(2,3) in \<open>simp_all add: pendingEventsLocked_def all_def\<close>)
  next
    case False
    show ?thesis
      by (rule that [of "length all"]) (use False assms(2) in \<open>simp_all add: pendingEventsLocked_def all_def\<close>)
  qed
  have "distinct (map crID (rangeVals (visit E 6) (csConnections (state r))))"
    using assms(1) by (subst map_rangeVals) (auto simp: table_ok_def id)
  then have "distinct (map crID all)" unfolding all_def by (rule distinct_map_filter)
  then have "distinct (map crID (sortBy crCursor all))" by (simp add: distinct_map)
  then show "distinct (map crID events)" unfolding ev take_map [symmetric] by (rule distinct_take)
  show "sorted (map crCursor events)" unfolding ev take_map [symmetric] by (simp add: sorted_wrt_take)
  show "int (length events) \<le> limit" using n unfolding ev by auto
  have "set events \<subseteq> set all" unfolding ev by (metis set_sortBy set_take_subset)
  moreover have "mget (csConnections (state r)) (crID c) = Some c \<and> crTargetNode c = nodeID
      \<and> crState c = ''queued'' \<and> after < crCursor c" if "c \<in> set all" for c
    using that id unfolding all_def by (auto simp: set_rangeVals)
  ultimately show "\<forall>c \<in> set events. mget (csConnections (state r)) (crID c) = Some c \<and> crTargetNode c = nodeID
      \<and> crState c = ''queued'' \<and> after < crCursor c"
    by blast
qed

lemma deliverEvent_state:
  "csConnections (state (deliverEvent now c r)) = mput (crID c) (offeredConnection now (connectionLease r) c) (csConnections (state r))"
  "csConnectionIdempotency (state (deliverEvent now c r)) = csConnectionIdempotency (state r)"
  "csConnectionCursors (state (deliverEvent now c r)) = csConnectionCursors (state r)"
  "csConnectionAcks (state (deliverEvent now c r)) = csConnectionAcks (state r)"
  "connectionLease (deliverEvent now c r) = connectionLease r"
  by (simp_all add: deliverEvent_def)

lemma deliver_keeps:
  assumes "distinct (map crID events)" and "\<forall>c \<in> set events. mget (csConnections (state r)) (crID c) = Some c \<and> Q c"
    and "P r" and step: "\<And>c r. P r \<Longrightarrow> mget (csConnections (state r)) (crID c) = Some c \<Longrightarrow> Q c \<Longrightarrow> P (deliverEvent now c r)"
  shows "P (fold (deliverEvent now) events r)"
  using assms(1-3)
proof (induction events arbitrary: r)
  case (Cons c events)
  have "\<forall>d \<in> set events. mget (csConnections (state (deliverEvent now c r))) (crID d) = Some d \<and> Q d"
  proof
    fix d assume d: "d \<in> set events"
    with Cons.prems(1) have "crID d \<noteq> crID c" by (metis distinct.simps(2) list.map(2) list.set_map imageI)
    with d Cons.prems(2) show "mget (csConnections (state (deliverEvent now c r))) (crID d) = Some d \<and> Q d"
      unfolding deliverEvent_state by simp
  qed
  moreover have "P (deliverEvent now c r)"
    using Cons.prems(2,3) by (intro step) simp_all
  moreover have "distinct (map crID events)" using Cons.prems(1) by simp
  ultimately show ?case unfolding fold_Cons comp_apply by (intro Cons.IH)
qed simp

lemma table_ok_deliverEvent:
  assumes "table_ok r" "mget (csConnections (state r)) (crID c) = Some c" "crState c = ''queued''"
  shows "table_ok (deliverEvent now c r)"
proof -
  have ok: "connections_ok (state r)" "gomap_ok (csConnections (state r))" using assms(1) by (simp_all add: table_ok_def)
  have "connections_ok (state (deliverEvent now c r))"
    by (rule connections_ok_update [OF ok assms(2) connection_changes(3) connection_ok_changes(3) [OF connections_okD(1) [OF ok(1) assms(2)]]])
      (simp_all add: deliverEvent_state assms(3))
  with ok(2) show ?thesis by (simp add: table_ok_def deliverEvent_state)
qed

lemma table_ok_deliver:
  assumes "table_ok r" and "events = pendingEventsLocked E nodeID after limit (state r)" and "0 \<le> limit"
  shows "table_ok (fold (deliverEvent now) events r)"
proof (rule deliver_keeps [where Q = "\<lambda>c. crState c = ''queued''"])
  show "distinct (map crID events)" by (rule pendingEvents_facts [OF assms])
  show "\<forall>c \<in> set events. mget (csConnections (state r)) (crID c) = Some c \<and> crState c = ''queued''"
    using pendingEvents_facts(4) [OF assms] by blast
qed (rule assms(1), rule table_ok_deliverEvent)

end
