(* ===== verification/Moves.thy ===== *)
theory Moves
  imports Connection_Invariant
begin

text \<open>
  What the coordinator may do to its registry, as a short list of guarded moves. Every locked
  section of every handler is a sequence of moves (proved here, handler by handler), so an
  invariant of the coordinator is a fact about the moves, whatever the handlers and their order.
\<close>

section \<open>The moves\<close>

definition settlements :: "(gostring \<times> int) set" where
  "settlements = {(''accepted'', 200), (''rejected'', 403), (''canceled'', 499)}"

definition decider :: "gostring \<Rightarrow> connectionRequest \<Rightarrow> gostring" where
  "decider st c = (if st = ''canceled'' then crSourceNode c else crTargetNode c)"

text \<open>Three kinds of moves are reserved, so that it can be said which handlers make them.\<close>

datatype power = Administers | Creates | Polls

inductive move :: "'z json_scheme \<Rightarrow> power set \<Rightarrow> registry \<Rightarrow> registry \<Rightarrow> bool" for L ps where
  sweeps: "move L ps r (snd (cleanupLocked E now r))"
| persists: "move L ps r (snd (persistLocked out r))"
| counts: "move L ps r (r\<lparr>nonces := ns, rates := rs\<rparr>)"
| enrolls: "\<lbrakk>allocateRequestIDLocked E (state r) = Some rid; allocateDeviceCodeLocked E (state r) = Some code;
     length (csPending (state r)) < maxPendingHandshakes; sourcePending (phSource p) (state r) < maxPendingPerSource;
     \<not> phApproved p; \<not> phRejected p; dnID (phNode p) \<noteq> ''''\<rbrakk>
   \<Longrightarrow> move L ps r (addPending E (p\<lparr>phRequestID := rid, phDeviceCode := code\<rparr>) r)"
| approves: "\<lbrakk>Administers \<in> ps; adminAuthorized req r; mget (csPending (state r)) rid = Some p; rid \<noteq> '''';
     \<not> phRejected p; \<not> phApproved p;
     \<forall>existing. mget (csAuthorized (state r)) (dnID (phNode p)) = Some existing \<longrightarrow>
       auPublicKey existing = phPublicKey p \<or> replace\<rbrakk>
   \<Longrightarrow> move L ps r (approvePending E req rid p r)"
| rejects: "\<lbrakk>Administers \<in> ps; adminAuthorized req r; mget (csPending (state r)) rid = Some p; rid \<noteq> ''''; \<not> phApproved p\<rbrakk>
   \<Longrightarrow> move L ps r (rejectPending E req reason rid p r)"
| revokes: "\<lbrakk>Administers \<in> ps; adminAuthorized req r; mget (csAuthorized (state r)) nodeID \<noteq> None\<rbrakk>
   \<Longrightarrow> move L ps r (revoked E req nodeID r)"
| admits: "\<lbrakk>mget (csAuthorized (state r)) (dnID n) = Some authorized;
     acceptNode L (state r) (network r) (auPublicKey authorized) now input = Inr n; dnID input = dnID n\<rbrakk>
   \<Longrightarrow> move L ps r (completed E req n (auPublicKey authorized) now (storeNode n now r))"
| enqueues: "\<lbrakk>Creates \<in> ps;
     mgetz '''' (csConnectionIdempotency (state r)) (idempotencyIndex source (ciIdempotencyKey input)) = '''';
     ciIdempotencyKey input \<noteq> ''''; length (ciIdempotencyKey input) \<le> 128; ciTargetNode input \<noteq> ''''; ciService input \<noteq> '''';
     mget (csNodes (state r)) source = Some sourceNode; mget (csNodes (state r)) (ciTargetNode input) = Some targetNode;
     dnVirtualNetwork sourceNode = dnVirtualNetwork targetNode;
     \<exists>service \<in> set (dnServices targetNode). svName service = ciService input;
     int (length (csConnections (state r))) < connectionMax r;
     targetPending (ciTargetNode input) (state r) < maxConnectionsPerTarget;
     cid \<noteq> ''''; mget (csConnections (state r)) cid = None\<rbrakk>
   \<Longrightarrow> move L ps r (notifyRequestLocked cid (notifyTargetLocked (ciTargetNode input)
          (snd (enqueueConnection E now source input cid r))))"
| settles: "\<lbrakk>mget (csConnections (state r)) k = Some c; \<not> connectionTerminal (crState c); (st, code) \<in> settlements;
     nodeID = decider st c; length (trimSpace reason) \<le> maxConnectionReason;
     c' = settledConnection st code reason now c;
     r' = settle E nodeID c' r; r'' = r' \<or> r'' = notifyTargetLocked (crTargetNode c) r'\<rbrakk>
   \<Longrightarrow> move L ps r (notifyRequestLocked (crID c) r'')"
| delivers: "\<lbrakk>events = pendingEventsLocked E nodeID after limit (state r); 0 \<le> limit\<rbrakk>
   \<Longrightarrow> move L ps r (fold (deliverEvent now) events r)"
| acks: "\<lbrakk>mgetz 0 (csConnectionAcks (state r)) nodeID < cursor; cursor \<le> mgetz 0 (csConnectionCursors (state r)) nodeID\<rbrakk>
   \<Longrightarrow> move L ps r (updState (csConnectionAcks_update (mput nodeID cursor)) r)"
| awaits_target: "move L ps r (snd (targetSignalLocked nodeID r))"
| awaits_request: "\<lbrakk>mget (csConnections (state r)) k = Some c; \<not> connectionTerminal (crState c)\<rbrakk>
   \<Longrightarrow> move L ps r (snd (requestSignalLocked (crID c) r))"
| claims: "Polls \<in> ps \<Longrightarrow> move L ps r (snd (claimInbox nodeID r))"
| releases: "Polls \<in> ps \<Longrightarrow> move L ps r (releaseInbox nodeID r)"

abbreviation moves :: "'z json_scheme \<Rightarrow> power set \<Rightarrow> registry \<Rightarrow> registry \<Rightarrow> bool" where
  "moves L ps \<equiv> (move L ps)\<^sup>*\<^sup>*"

lemma moves1: "move L ps r r' \<Longrightarrow> moves L ps r r'"
  by (rule r_into_rtranclp)

lemma moves_step: "moves L ps r s \<Longrightarrow> move L ps s t \<Longrightarrow> moves L ps r t"
  by (rule rtranclp.rtrancl_into_rtrancl)

lemma moves_trans: "moves L ps r s \<Longrightarrow> moves L ps s t \<Longrightarrow> moves L ps r t"
  by (rule rtranclp_trans)

lemma moves_sweep: "moves L ps r (snd (cleanupLocked E now r))"
  by (rule moves1 [OF sweeps])

lemma moves_counts: "moves L ps r (r\<lparr>nonces := ns, rates := rs\<rparr>)"
  by (rule moves1 [OF counts])

lemma moves_persistOr: "moves L ps r s \<Longrightarrow> moves L ps r (snd (persistOr out a m s))"
  by (auto simp: persistOr_def intro: moves_step persists)

lemma moves_wrote: "moves L ps r s \<Longrightarrow> wrote s d \<Longrightarrow> moves L ps r (s\<lparr>disk := d\<rparr>)"
proof -
  assume m: "moves L ps r s" and "wrote s d"
  then obtain out where d: "d = disk (snd (persistLocked out s))" by (auto simp: wrote_def)
  have "snd (persistLocked out s) = s\<lparr>disk := d\<rparr>" unfolding d by (cases out) (simp_all add: persist_outcomes)
  then show ?thesis using moves_step [OF m persists [of L ps s out]] by simp
qed

section \<open>Enrollment and administration\<close>

lemma moves_enroll:
  assumes "\<not> phApproved p" "\<not> phRejected p" "dnID (phNode p) \<noteq> ''''"
  shows "moves L ps r (snd (enrollLocked E p secret r))"
proof (rule enrollLocked_cases [where P = "\<lambda>x. moves L ps r (snd x)"], goal_cases)
  case (2 rid code)
  show ?case
    by (rule moves_persistOr, rule moves_step [OF moves_sweep enrolls]) (use 2 assms in simp_all)
qed (simp add: moves_sweep)

lemma moves_request: "moves L ps r (snd (requestEnrollment L E req r))"
  by (rule requestEnrollment_cases [where P = "\<lambda>x. moves L ps r (snd x)"]) (auto intro: moves_enroll)

lemma moves_poll: "moves L ps r (snd (pollEnrollment L E req r))"
  by (rule pollEnrollment_cases [where P = "\<lambda>x. moves L ps r (snd x)"])
    (auto intro: moves_step [OF moves_sweep persists])

lemma moves_list: "moves L ps r (snd (listHandshakes E req r))"
  by (rule listHandshakes_cases [where P = "\<lambda>x. moves L ps r (snd x)"])
    (auto intro: moves_step [OF moves_sweep persists])

lemma moves_audit: "moves L ps r (snd (listAudit req r))"
  by (rule listAudit_cases [where P = "\<lambda>x. moves L ps r (snd x)"]) auto

lemma adminAuthorized_cong: "adminToken r' = adminToken r \<Longrightarrow> adminAuthorized req r' = adminAuthorized req r"
  by (simp add: adminAuthorized_def)

lemma moves_approve:
  assumes "Administers \<in> ps" shows "moves L ps r (snd (approveHandshake L E req r))"
proof (rule approveHandshake_cases [where P = "\<lambda>x. moves L ps r (snd x)"], goal_cases)
  case (4 input rid p)
  show ?case
    by (rule moves_persistOr, rule moves_step [OF moves_sweep approves [where replace = "arReplace input"]])
      (use 4 assms in \<open>simp_all add: adminAuthorized_cong [of "snd (cleanupLocked E (clock E 0) r)" r]\<close>)
qed (auto intro: moves_sweep)

lemma moves_reject:
  assumes "Administers \<in> ps" shows "moves L ps r (snd (rejectHandshake L E req r))"
proof (rule rejectHandshake_cases [where P = "\<lambda>x. moves L ps r (snd x)"], goal_cases)
  case (3 input rid p)
  show ?case
    by (rule moves_persistOr, rule moves_step [OF moves_sweep rejects])
      (use 3 assms in \<open>simp_all add: adminAuthorized_cong [of "snd (cleanupLocked E (clock E 0) r)" r]\<close>)
qed (auto intro: moves_sweep)

lemma moves_revoke:
  assumes "Administers \<in> ps" shows "moves L ps r (snd (revokeNode L E req r))"
  by (rule revokeNode_cases [where P = "\<lambda>x. moves L ps r (snd x)"])
    (auto intro!: moves_persistOr moves1 [OF revokes] assms)

section \<open>Nodes\<close>

lemma moves_update: "moves L ps r (snd (updateNode L E req r))"
proof (rule updateNode_cases [where P = "\<lambda>x. moves L ps r (snd x)"], goal_cases)
  case (2 body authorized input n ns rs)
  let ?r = "r\<lparr>nonces := ns, rates := rs\<rparr>"
  have n: "dnID n = dnID (drNode input)" using acceptNode_Inr [OF 2(6)] by simp
  have "move L ps ?r (completed E req n (auPublicKey authorized) (clock E 2) (storeNode n (clock E 2) ?r))"
    by (rule admits [where input = "drNode input"]) (use 2 n in simp_all)
  from moves_step [OF moves_step [OF moves_counts this] sweeps [where E = E and now = "clock E 2"]] show ?case
    by (simp add: updateAnswer_def admitNode_eq moves_step [OF _ persists])
qed (simp add: moves_counts)

lemma moves_register: "moves L ps r (snd (registerNode L E req r))"
  and moves_heartbeat: "moves L ps r (snd (heartbeatNode L E req r))"
  using moves_update [of L ps r E req]
  by (auto simp: registerNode_def heartbeatNode_def split: prod.split sum.split)

lemma moves_authenticate: "moves L ps r (snd (authenticatedConnectionBody L E req r))"
  by (rule authenticatedConnectionBody_cases [where P = "\<lambda>x. moves L ps r (snd x)"]) (simp_all add: moves_counts)

lemma moves_discoverBody: "moves L ps r (snd (discoverBody L E body nodeID r))"
  by (simp add: discoverBody_def discoverLocked_def Let_def moves_sweep split: option.split)

section \<open>Connections\<close>

text \<open>The ids drawn at random are new; a draw of 256 random bits is assumed never to repeat one.\<close>

definition freshDraw :: "env \<Rightarrow> registry \<Rightarrow> bool" where
  "freshDraw E r \<longleftrightarrow> (\<forall>cid. randomToken (entropy E 0) = Some cid \<longrightarrow> mget (csConnections (state r)) cid = None)"

lemma cleanup_fresh:
  assumes "mget (csConnections (state r)) k = None"
  shows "mget (csConnections (state (snd (cleanupLocked E now r)))) k = None"
proof (rule cleanup_stages [of E now r])
  fix rc assume rc: "rc = connectionSweep E now (nodeSweep E now (pendingSweep E now r))"
    and end_state: "snd (cleanupLocked E now r) = fst (pruneHistory E (cleanNonces E now (fst rc), snd rc))"
  have "mget (csConnections (state (fst rc))) k = None"
    unfolding rc connectionSweep_def
  proof (rule fold_keeps [where P = "\<lambda>rc. mget (csConnections (state (fst rc))) k = None"])
    fix j and rc :: sweep
    assume "mget (csConnections (state (fst rc))) k = None"
    then show "mget (csConnections (state (fst (sweepConnection now j rc)))) k = None"
      by (auto simp: sweepConnection_def Let_def split: prod.split option.split)
  qed (simp add: nodeSweep_frame pendingSweep_frame assms)
  then show ?thesis by (simp add: end_state)
qed

text \<open>Waking a waiter does not change what is written.\<close>

lemma wrote_notify: "wrote (notifyTargetLocked n r) d = wrote r d" "wrote (notifyRequestLocked n r) d = wrote r d"
proof -
  have "disk (snd (persistLocked out (notifyTargetLocked n r))) = disk (snd (persistLocked out r))" for out
    by (cases out) (simp_all add: persist_outcomes)
  moreover have "disk (snd (persistLocked out (notifyRequestLocked n r))) = disk (snd (persistLocked out r))" for out
    by (cases out) (simp_all add: persist_outcomes)
  ultimately show "wrote (notifyTargetLocked n r) d = wrote r d" "wrote (notifyRequestLocked n r) d = wrote r d"
    by (simp_all add: wrote_def)
qed

lemma moves_create:
  assumes "Creates \<in> ps" "freshDraw E r" "ciIdempotencyKey input \<noteq> ''''" "length (ciIdempotencyKey input) \<le> 128"
    "ciTargetNode input \<noteq> ''''" "ciService input \<noteq> ''''"
  shows "moves L ps r (snd (createConnectionLocked E now source input r))"
proof (rule createConnectionLocked_cases [where P = "\<lambda>x. moves L ps r (snd x)"], goal_cases)
  case (3 sourceNode targetNode cid connection r1 d d' resp)
  let ?r = "(snd (cleanupLocked E now r))\<lparr>disk := d\<rparr>"
  have "move L ps ?r (notifyRequestLocked cid (notifyTargetLocked (ciTargetNode input)
      (snd (enqueueConnection E now source input cid ?r))))"
    by (rule enqueues [OF assms(1) _ assms(3-6) _ _ 3(4)])
      (use 3 assms(2) in \<open>simp_all add: freshDraw_def cleanup_fresh randomToken_nonempty\<close>)
  from moves_step [OF moves_wrote [OF moves_sweep 3(10)] this] 3(11)
  have "moves L ps r (notifyRequestLocked cid (notifyTargetLocked (ciTargetNode input) r1))" by simp
  moreover have "wrote (notifyRequestLocked cid (notifyTargetLocked (ciTargetNode input) r1)) d'"
    using 3(13) by (simp add: wrote_notify)
  ultimately have "moves L ps r ((notifyRequestLocked cid (notifyTargetLocked (ciTargetNode input) r1))\<lparr>disk := d'\<rparr>)"
    by (rule moves_wrote)
  then show ?case by (simp add: notify_disk)
qed (simp_all add: moves_wrote [OF moves_sweep])

lemma settledConnection_sel [simp]:
  "crID (settledConnection st code reason now c) = crID c"
  "crTargetNode (settledConnection st code reason now c) = crTargetNode c"
  "crState (settledConnection st code reason now c) = st"
  by (simp_all add: settledConnection_def)

lemma moves_decide:
  assumes "(st, code) \<in> settlements" "st \<noteq> ''canceled''" "length (trimSpace (idReason input)) \<le> maxConnectionReason"
  shows "moves L ps r (snd (decideConnectionLocked E now nodeID st code input r))"
proof (rule decideConnectionLocked_cases [where P = "\<lambda>x. moves L ps r (snd x)"], goal_cases)
  case (3 c connection r1 d d' resp)
  let ?r = "(snd (cleanupLocked E now r))\<lparr>disk := d\<rparr>"
  have "\<not> connectionTerminal (crState c)" using 3(3) by auto
  then have "move L ps ?r (notifyRequestLocked (crID c) r1)"
    unfolding 3(5,6)
    by (intro settles [OF _ _ assms(1) _ assms(3) refl refl disjI1 [OF refl], where k = "idRequestID input"])
      (simp_all add: decider_def 3(1,2) assms(2))
  note r1 = moves_step [OF moves_wrote [OF moves_sweep 3(7)] this]
  show ?case
    using moves_wrote [OF r1] 3(9) by (simp add: wrote_notify notify_disk 3(5))
qed (simp_all add: moves_wrote [OF moves_sweep])

lemma moves_cancel:
  assumes "length (trimSpace (idReason input)) \<le> maxConnectionReason"
  shows "moves L ps r (snd (cancelConnectionLocked E now nodeID input r))"
proof (rule cancelConnectionLocked_cases [where P = "\<lambda>x. moves L ps r (snd x)"], goal_cases)
  case (3 c connection r1 d d' resp)
  let ?r = "(snd (cleanupLocked E now r))\<lparr>disk := d\<rparr>"
  have s: "(''canceled'', 499) \<in> settlements" by (simp add: settlements_def)
  have "move L ps ?r (notifyRequestLocked (crID c) (notifyTargetLocked (crTargetNode c) r1))"
    unfolding 3(4,5)
    by (intro settles [OF _ _ s _ assms refl refl disjI2 [OF refl], where k = "idRequestID input"])
      (simp_all add: decider_def 3(1-3))
  note r1 = moves_step [OF moves_wrote [OF moves_sweep 3(6)] this]
  show ?case
    using moves_wrote [OF r1] 3(8) by (simp add: wrote_notify notify_disk 3(4))
qed (simp_all add: moves_wrote [OF moves_sweep])

lemma moves_ack: "moves L ps r (snd (ackLocked E nodeID cursor r))"
  by (rule ackLocked_cases [where P = "\<lambda>x. moves L ps r (snd x)"])
    (auto intro: moves_wrote moves1 [OF acks])

lemma moves_inboxRound:
  assumes "0 \<le> limit"
  shows "moves L ps r (snd (inboxRound E now nodeID after limit r))"
proof (rule inboxRound_cases [where P = "\<lambda>x. moves L ps r (snd x)"], goal_cases)
  case (1 events r1 d resp)
  have "moves L ps r r1" unfolding 1(3) by (rule moves_step [OF moves_sweep delivers [OF 1(1) assms]])
  then show ?case using 1(5) unfolding snd_conv by (rule moves_wrote)
next
  case (2 signal r1 d res)
  with moves_step [OF moves_sweep awaits_target [of L ps _ nodeID], of r E now] show ?case by (simp add: moves_wrote)
qed

lemma moves_statusRound: "moves L ps r (snd (statusRound E now nodeID wait input r))"
proof (rule statusRound_cases [where P = "\<lambda>x. moves L ps r (snd x)"], goal_cases)
  case (3 c signal r1 d res)
  with moves_step [OF moves_sweep awaits_request [OF 3(1,5), of L ps]] show ?case by (simp add: moves_wrote)
qed (simp_all add: moves_wrote [OF moves_sweep])

section \<open>Sections after authentication\<close>

lemma moves_createBody: "Creates \<in> ps \<Longrightarrow> freshDraw E r \<Longrightarrow> moves L ps r (snd (createConnectionBody L E body nodeID r))"
  by (auto simp: createConnectionBody_def not_less intro!: moves_create split: option.split)

lemma moves_decideBody:
  "(st, code) \<in> settlements \<Longrightarrow> st \<noteq> ''canceled'' \<Longrightarrow> moves L ps r (snd (decideBody L E st code body nodeID r))"
  by (auto simp: decideBody_def intro!: moves_decide split: option.split)

lemma moves_cancelBody: "moves L ps r (snd (cancelBody L E body nodeID r))"
  by (auto simp: cancelBody_def intro!: moves_cancel split: option.split)

lemma moves_ackBody: "moves L ps r (snd (ackBody L E body nodeID r))"
  by (simp add: ackBody_def moves_ack split: option.split)

lemma boundedMaxEvents_pos: "0 \<le> boundedMaxEvents n"
  by (simp add: boundedMaxEvents_def maxInboxEvents_def)

lemma moves_inboxBegin: "Polls \<in> ps \<Longrightarrow> moves L ps r (snd (inboxBegin L body nodeID r))"
  using moves1 [OF claims [of ps L r nodeID]]
  by (auto simp: inboxBegin_def Let_def split: option.split prod.split)

lemma moves_inboxTurn:
  assumes "Polls \<in> ps" "0 \<le> limit"
  shows "moves L ps r (snd (inboxTurn E now nodeID after limit r))"
  using assms(1) moves_inboxRound [OF assms(2), of L ps r E now nodeID after]
  by (auto simp: inboxTurn_def intro: moves_step releases split: prod.split roundResult.split)

lemma moves_inboxBody:
  assumes "Polls \<in> ps"
  shows "moves L ps r (snd (inboxBody L E body nodeID r))"
proof (cases "inboxBegin L body nodeID r")
  case (Pair res r')
  with moves_inboxBegin [OF assms, of L r body nodeID] have r': "moves L ps r r'" by simp
  show ?thesis
  proof (cases res)
    case (Inr start)
    then obtain wait after limit where start: "start = (wait, after, limit)" by (cases start)
    from Pair Inr start have "0 \<le> limit"
      by (auto simp: inboxBegin_def Let_def boundedMaxEvents_pos split: option.splits prod.splits)
    with Pair Inr start show ?thesis
      by (simp add: inboxBody_def moves_trans [OF r' moves_inboxTurn [OF assms]])
  qed (use Pair r' in \<open>simp add: inboxBody_def\<close>)
qed

lemma moves_statusBody: "moves L ps r (snd (statusBody L E wait body nodeID r))"
  by (simp add: statusBody_def moves_statusRound split: option.split)

end
