(* ===== verification/Coordinator_Invariant.thy ===== *)
theory Coordinator_Invariant
  imports Moves
begin

text \<open>
  The invariant of the whole coordinator, kept by every move: the tables are well formed and agree
  with each other, no channel is closed twice, and the state file always holds a state the
  coordinator can start from.
\<close>

section \<open>The stored state\<close>

definition state_inv :: "'z lib_scheme \<Rightarrow> coordinatorState \<Rightarrow> bool" where
  "state_inv L st \<longleftrightarrow> tables_ok st \<and> pending_ok st \<and> nodes_ok L st \<and> connections_ok st"

lemma state_invI:
  "enrollment_inv r \<Longrightarrow> nodes_ok L (state r) \<Longrightarrow> table_ok r \<Longrightarrow> state_inv L (state r)"
  by (simp add: state_inv_def enrollment_inv_def table_ok_def)

lemma state_invD:
  assumes "state_inv L (state r)"
  shows "enrollment_inv r" "tables_ok (state r)" "pending_ok (state r)" "nodes_ok L (state r)" "table_ok r"
  using assms by (auto simp: state_inv_def enrollment_inv_def table_ok_def tables_okD)

lemma state_inv_empty: "state_inv L emptyState"
  by (simp add: state_inv_def tables_ok_def pending_ok_empty nodes_ok_def connections_ok_empty)
    (simp add: emptyState_def)

text \<open>Each part of the invariant reads its own tables.\<close>

lemma pending_ok_cong:
  "csPending st' = csPending st \<Longrightarrow> csHistory st' = csHistory st \<Longrightarrow> pending_ok st' = pending_ok st"
  unfolding pending_ok_def sourcePending_def by simp

lemma nodes_ok_cong:
  "csNodes st' = csNodes st \<Longrightarrow> csAuthorized st' = csAuthorized st \<Longrightarrow> nodes_ok L st' = nodes_ok L st"
  unfolding nodes_ok_def by simp

lemma enqueue_sel:
  defines "enq \<equiv> \<lambda>E now source input cid r. state (snd (enqueueConnection E now source input cid r))"
  shows "csPending (enq E now source input cid r) = csPending (state r)"
    "csHistory (enq E now source input cid r) = csHistory (state r)"
    "csAuthorized (enq E now source input cid r) = csAuthorized (state r)"
    "csNodes (enq E now source input cid r) = csNodes (state r)"
    "csConnectionAcks (enq E now source input cid r) = csConnectionAcks (state r)"
    "csConnections (enq E now source input cid r) = mput cid (queuedConnection cid source input
       (mgetz 0 (csConnectionCursors (state r)) (ciTargetNode input) + 1) now (connectionTTL r)) (csConnections (state r))"
    "csConnectionIdempotency (enq E now source input cid r)
       = mput (idempotencyIndex source (ciIdempotencyKey input)) cid (csConnectionIdempotency (state r))"
    "csConnectionCursors (enq E now source input cid r) = mput (ciTargetNode input)
       (mgetz 0 (csConnectionCursors (state r)) (ciTargetNode input) + 1) (csConnectionCursors (state r))"
  by (simp_all add: enq_def enqueueConnection_def Let_def)

lemma settle_sel [simp]:
  "csPending (state (settle E nodeID c r)) = csPending (state r)"
  "csHistory (state (settle E nodeID c r)) = csHistory (state r)"
  "csAuthorized (state (settle E nodeID c r)) = csAuthorized (state r)"
  "csNodes (state (settle E nodeID c r)) = csNodes (state r)"
  "csConnections (state (settle E nodeID c r)) = mput (crID c) c (csConnections (state r))"
  "csConnectionIdempotency (state (settle E nodeID c r)) = csConnectionIdempotency (state r)"
  "csConnectionCursors (state (settle E nodeID c r)) = csConnectionCursors (state r)"
  "csConnectionAcks (state (settle E nodeID c r)) = csConnectionAcks (state r)"
  by (simp_all add: settle_def)

lemma enroll_sel [simp]:
  "csNodes (state (addPending E p r)) = csNodes (state r)"
  "csAuthorized (state (addPending E p r)) = csAuthorized (state r)"
  "csConnections (state (addPending E p r)) = csConnections (state r)"
  "csConnectionIdempotency (state (addPending E p r)) = csConnectionIdempotency (state r)"
  "csNodes (state (approvePending E req rid q r)) = csNodes (state r)"
  "csAuthorized (state (approvePending E req rid q r))
     = mput (dnID (phNode q)) \<lparr>auPublicKey = phPublicKey q\<rparr> (csAuthorized (state r))"
  "csConnections (state (approvePending E req rid q r)) = csConnections (state r)"
  "csConnectionIdempotency (state (approvePending E req rid q r)) = csConnectionIdempotency (state r)"
  "csNodes (state (rejectPending E req reason rid q r)) = csNodes (state r)"
  "csAuthorized (state (rejectPending E req reason rid q r)) = csAuthorized (state r)"
  "csConnections (state (rejectPending E req reason rid q r)) = csConnections (state r)"
  "csConnectionIdempotency (state (rejectPending E req reason rid q r)) = csConnectionIdempotency (state r)"
  by (simp_all add: addPending_def approvePending_def rejectPending_def markHandled_def Let_def)

lemma revoked_idempotency [simp]:
  "csConnectionIdempotency (state (revoked E req nodeID r)) = csConnectionIdempotency (state r)"
proof -
  have "csConnectionIdempotency (state (revokePending E nodeID k r)) = csConnectionIdempotency (state r)" for k r
    by (simp add: revokePending_def markHandled_def split: option.split)
  then show ?thesis
    by (simp add: revoked_def fold_same [where f = "\<lambda>r. csConnectionIdempotency (state r)"] dropCredential_def)
qed

section \<open>Every move keeps the stored state well formed\<close>

lemma tables_ok_connections:
  assumes "tables_ok (state r)"
  shows "tables_ok (state (snd (enqueueConnection E now source input cid r)))"
    "tables_ok (state (settle E nodeID c r))" "tables_ok (state (fold (deliverEvent now) events r))"
    "tables_ok (state (updState (csConnectionAcks_update (mput nodeID cursor)) r))"
proof -
  show "tables_ok (state (fold (deliverEvent now) events r))"
    by (rule fold_keeps [where P = "\<lambda>r. tables_ok (state r)"])
      (use assms in \<open>simp_all add: tables_ok_def deliverEvent_def\<close>)
qed (use assms in \<open>simp_all add: tables_ok_def enqueue_sel\<close>)

lemma deliver_sel [simp]:
  "csPending (state (fold (deliverEvent now) events r)) = csPending (state r)"
  "csHistory (state (fold (deliverEvent now) events r)) = csHistory (state r)"
  "csNodes (state (fold (deliverEvent now) events r)) = csNodes (state r)"
  "csAuthorized (state (fold (deliverEvent now) events r)) = csAuthorized (state r)"
  "csConnectionIdempotency (state (fold (deliverEvent now) events r)) = csConnectionIdempotency (state r)"
  "csConnectionCursors (state (fold (deliverEvent now) events r)) = csConnectionCursors (state r)"
  by (simp_all add: fold_same [where f = "\<lambda>r. csPending (state r)"] fold_same [where f = "\<lambda>r. csHistory (state r)"]
      fold_same [where f = "\<lambda>r. csNodes (state r)"] fold_same [where f = "\<lambda>r. csAuthorized (state r)"]
      fold_same [where f = "\<lambda>r. csConnectionIdempotency (state r)"]
      fold_same [where f = "\<lambda>r. csConnectionCursors (state r)"] deliverEvent_def)

lemma claim_sel [simp]: "state (snd (claimInbox nodeID r)) = state r" "state (releaseInbox nodeID r) = state r"
  by (simp_all add: claimInbox_def releaseInbox_def)

lemma table_ok_enqueue:
  assumes "table_ok r" "mget (csConnections (state r)) cid = None" "cid \<noteq> ''''"
    "mgetz '''' (csConnectionIdempotency (state r)) (idempotencyIndex source (ciIdempotencyKey input)) = ''''"
    "ciIdempotencyKey input \<noteq> ''''" "length (ciIdempotencyKey input) \<le> 128" "ciTargetNode input \<noteq> ''''"
    "ciService input \<noteq> ''''" "targetPending (ciTargetNode input) (state r) < maxConnectionsPerTarget"
  shows "table_ok (snd (enqueueConnection E now source input cid r))"
proof -
  have ok: "connections_ok (state r)" "gomap_ok (csConnections (state r))" using assms(1) by (simp_all add: table_ok_def)
  have "connections_ok (state (snd (enqueueConnection E now source input cid r)))"
    by (rule connections_ok_insert [OF ok assms(2) _ _ _ enqueue_sel(6)])
      (use assms in \<open>simp_all add: enqueue_sel connection_ok_def queuedConnection_def stateCodes_def requestIndex_def
        maxConnectionReason_def\<close>)
  with ok(2) show ?thesis by (simp add: table_ok_def enqueue_sel)
qed

lemma table_ok_settle:
  assumes "table_ok r" "mget (csConnections (state r)) k = Some c" "\<not> connectionTerminal (crState c)"
    "(st, code) \<in> settlements" "length (trimSpace reason) \<le> maxConnectionReason"
  shows "table_ok (settle E nodeID (settledConnection st code reason now c) r)"
proof -
  have ok: "connections_ok (state r)" "gomap_ok (csConnections (state r))" using assms(1) by (simp_all add: table_ok_def)
  note c = connections_okD(1) [OF ok(1) assms(2)]
  have k: "crID c = k" using c by (simp add: connection_ok_def)
  have st: "(st, code) \<in> stateCodes" "st \<noteq> ''offered''" using assms(4) by (auto simp: settlements_def stateCodes_def)
  have "connections_ok (state (settle E nodeID (settledConnection st code reason now c) r))"
    by (rule connections_ok_update [OF ok assms(2) connection_changes(4) connection_ok_changes(4) [OF c st assms(5)]])
      (simp_all add: k assms(3))
  with ok(2) show ?thesis by (simp add: table_ok_def)
qed

lemma table_ok_notify [simp]:
  "table_ok (notifyRequestLocked k r) = table_ok r" "table_ok (notifyTargetLocked n r) = table_ok r"
  by (simp_all add: table_ok_def)

lemma table_ok_keep:
  "table_ok r \<Longrightarrow> csConnections (state r') = csConnections (state r) \<Longrightarrow>
   csConnectionIdempotency (state r') = csConnectionIdempotency (state r) \<Longrightarrow> table_ok r'"
  using table_ok_cong [of r' r] by blast

lemma table_ok_move:
  assumes "move L ps r r'" and "table_ok r"
  shows "table_ok r'"
  using assms
proof (cases rule: move.cases)
  case (settles k c st code nodeID reason c' now r1 E r2)
  with assms(2) table_ok_settle [OF assms(2), of k c st code reason E nodeID now] show ?thesis by auto
next
  case (enqueues source input sourceNode targetNode cid E now)
  with assms(2) table_ok_enqueue [OF assms(2), of cid source input E now] show ?thesis by simp
next
  case (delivers events E nodeID after limit now)
  with table_ok_deliver [OF assms(2)] show ?thesis by simp
qed (use assms(2) in \<open>simp_all add: table_ok_cleanup table_ok_keep [of r] revoked_state\<close>)

lemma pending_ok_keep: "pending_ok st \<Longrightarrow> csPending st' = csPending st \<Longrightarrow> csHistory st' = csHistory st \<Longrightarrow> pending_ok st'"
  by (simp add: pending_ok_cong [of st' st])

lemma nodes_ok_keep:
  "nodes_ok L st \<Longrightarrow> csNodes st' = csNodes st \<Longrightarrow>
   (\<And>k. mget (csAuthorized st) k \<noteq> None \<Longrightarrow> mget (csAuthorized st') k \<noteq> None) \<Longrightarrow> nodes_ok L st'"
  unfolding nodes_ok_def by simp

lemma nodes_ok_move:
  assumes "move L ps r r'" and "tables_ok (state r)" and "nodes_ok L (state r)"
  shows "nodes_ok L (state r')"
  using assms
proof (cases rule: move.cases)
  case (settles k c st code nodeID reason c' now r1 E r2)
  then show ?thesis using nodes_ok_keep [OF assms(3)] by auto
next
  case (revokes req nodeID E)
  with assms(3) show ?thesis by (simp add: nodes_ok_def revoked_state split: if_splits)
next
  case (admits n authorized now input E req)
  have "node_ok L (dnID n) n" using acceptNode_Inr [OF admits(3)] admits(4) by simp
  with assms(3) admits show ?thesis by (auto simp: nodes_ok_def)
qed (use nodes_ok_keep [OF assms(3)] nodes_ok_cleanup [OF assms(2,3)] in \<open>simp_all add: enqueue_sel\<close>)

lemma enrollment_inv_keep:
  "enrollment_inv r \<Longrightarrow> tables_ok (state r') \<Longrightarrow> csPending (state r') = csPending (state r) \<Longrightarrow>
   csHistory (state r') = csHistory (state r) \<Longrightarrow> enrollment_inv r'"
  by (auto simp: enrollment_inv_def intro: pending_ok_keep)

lemma enrollment_inv_move:
  assumes "move L ps r r'" and inv: "enrollment_inv r"
  shows "enrollment_inv r'"
proof -
  note parts = inv [unfolded enrollment_inv_def]
  note tables = conjunct1 [OF parts] and pend = conjunct2 [OF parts]
  note keep = enrollment_inv_keep [OF inv]
  from assms(1) show ?thesis
  proof (cases rule: move.cases)
    case (settles k c st code nodeID reason c' now r1 E r2)
    with tables_ok_connections(2) [OF tables, of E nodeID c'] show ?thesis by (auto intro!: keep)
  next
    case (enqueues source input sourceNode targetNode cid E now)
    with tables_ok_connections(1) [OF tables, of E now source input cid] show ?thesis
      by (auto intro!: keep simp: enqueue_sel)
  next
    case (enrolls E rid code p)
    with tables pend show ?thesis by (auto simp: enrollment_inv_def intro: tables_ok_edits pending_ok_add tables_okD)
  next
    case (approves req rid p replace E)
    with tables pend show ?thesis by (auto simp: enrollment_inv_def intro: tables_ok_edits pending_ok_approve tables_okD)
  next
    case (rejects req rid p E reason)
    with tables pend show ?thesis by (auto simp: enrollment_inv_def intro: tables_ok_edits pending_ok_reject tables_okD)
  next
    case (revokes req nodeID E)
    with tables pend show ?thesis by (auto simp: enrollment_inv_def intro: tables_ok_revoked pending_ok_revoked)
  next
    case (admits n authorized now input E req)
    have "tables_ok (state (storeNode n now r))" "pending_ok (state (storeNode n now r))"
      using tables pend by (auto intro: tables_ok_stored pending_ok_keep)
    with admits show ?thesis by (auto simp: enrollment_inv_def intro: tables_ok_completed pending_ok_completed)
  next
    case (sweeps E now)
    with inv show ?thesis by (simp add: enrollment_inv_cleanup)
  qed (use tables tables_ok_connections(3,4) [OF tables] in \<open>auto intro!: keep\<close>)
qed

lemma state_inv_move:
  assumes "move L ps r r'" and "state_inv L (state r)"
  shows "state_inv L (state r')"
  using state_invD [OF assms(2)]
  by (intro state_invI enrollment_inv_move [OF assms(1)] nodes_ok_move [OF assms(1)] table_ok_move [OF assms(1)])

end
