(* ===== verification/Signals.thy ===== *)
theory Signals
  imports Coordinator_Invariant
begin

text \<open>
  The wake-up channels of the long polls. Every move keeps them consistent (no channel is closed
  twice, no two waiters' keys share one, a request is only watched while it can still change), and
  no move changes what a waiter waits for without closing the waiter's channel.
\<close>

section \<open>Consistent channels\<close>

definition signalOf :: "registry \<Rightarrow> gostring + gostring \<Rightarrow> nat option" where
  "signalOf r x = (case x of Inl n \<Rightarrow> mget (connectionSignals r) n | Inr k \<Rightarrow> mget (requestSignals r) k)"

lemma signalOf_simps [simp]:
  "signalOf r (Inl n) = mget (connectionSignals r) n" "signalOf r (Inr k) = mget (requestSignals r) k"
  by (simp_all add: signalOf_def)

definition channels_ok :: "registry \<Rightarrow> bool" where
  "channels_ok r \<longleftrightarrow> \<not> panicked r
     \<and> (\<forall>x c. signalOf r x = Some c \<longrightarrow> c < nextChan r \<and> c \<notin> set (closedChans r))
     \<and> (\<forall>x y c. signalOf r x = Some c \<longrightarrow> signalOf r y = Some c \<longrightarrow> x = y)
     \<and> (\<forall>c \<in> set (closedChans r). c < nextChan r)"

lemma channels_ok_cong:
  assumes "connectionSignals r' = connectionSignals r" "requestSignals r' = requestSignals r"
    "closedChans r' = closedChans r" "nextChan r' = nextChan r" "panicked r' = panicked r"
  shows "channels_ok r' = channels_ok r"
proof -
  have "signalOf r' = signalOf r" by (simp add: signalOf_def fun_eq_iff assms(1,2) split: sum.split)
  then show ?thesis by (simp add: channels_ok_def assms(3-5))
qed

lemma notify_signal:
  "signalOf (notifyTargetLocked n r) x = (if x = Inl n then None else signalOf r x)"
  "signalOf (notifyRequestLocked k r) x = (if x = Inr k then None else signalOf r x)"
  by (cases x; simp add: notifyTargetLocked_def notifyRequestLocked_def closeChan_def split: option.split)+

lemma notify_closed:
  assumes "channels_ok r"
  shows "closedChans (notifyTargetLocked n r)
      = (case mget (connectionSignals r) n of None \<Rightarrow> closedChans r | Some c \<Rightarrow> c # closedChans r)"
    and "closedChans (notifyRequestLocked k r)
      = (case mget (requestSignals r) k of None \<Rightarrow> closedChans r | Some c \<Rightarrow> c # closedChans r)"
    and "panicked (notifyTargetLocked n r) = False" and "panicked (notifyRequestLocked k r) = False"
proof -
  have "c \<notin> set (closedChans r)" if "signalOf r x = Some c" for x c
    using assms that by (simp add: channels_ok_def)
  from this [of "Inl n"] this [of "Inr k"] assms show
    "closedChans (notifyTargetLocked n r)
      = (case mget (connectionSignals r) n of None \<Rightarrow> closedChans r | Some c \<Rightarrow> c # closedChans r)"
    "closedChans (notifyRequestLocked k r)
      = (case mget (requestSignals r) k of None \<Rightarrow> closedChans r | Some c \<Rightarrow> c # closedChans r)"
    "panicked (notifyTargetLocked n r) = False" "panicked (notifyRequestLocked k r) = False"
    by (auto simp: notifyTargetLocked_def notifyRequestLocked_def closeChan_def channels_ok_def split: option.split)
qed

lemma channels_ok_close:
  assumes "channels_ok r" and "\<And>y. signalOf r' y = (if y = x then None else signalOf r y)"
    and "closedChans r' = (case signalOf r x of None \<Rightarrow> closedChans r | Some c \<Rightarrow> c # closedChans r)"
    and "nextChan r' = nextChan r" and "panicked r' = False"
  shows "channels_ok r'"
proof -
  have "c \<notin> set (closedChans r')" if "signalOf r' y = Some c" for y c
    using that assms unfolding channels_ok_def by (auto split: if_splits option.split)
  then show ?thesis
    using assms unfolding channels_ok_def by (auto split: if_splits option.splits)
qed

lemma channels_ok_notify [intro]:
  assumes "channels_ok r"
  shows "channels_ok (notifyTargetLocked n r)" "channels_ok (notifyRequestLocked k r)"
proof -
  show "channels_ok (notifyTargetLocked n r)"
    by (rule channels_ok_close [OF assms, where x = "Inl n"]) (simp_all add: notify_signal notify_closed [OF assms])
  show "channels_ok (notifyRequestLocked k r)"
    by (rule channels_ok_close [OF assms, where x = "Inr k"]) (simp_all add: notify_signal notify_closed [OF assms])
qed

lemma channels_ok_signal:
  assumes "channels_ok r"
  shows "channels_ok (snd (targetSignalLocked n r))" "channels_ok (snd (requestSignalLocked k r))"
proof -
  have new: "channels_ok r'" if "signalOf r x = None" "\<And>y. signalOf r' y = (if y = x then Some (nextChan r) else signalOf r y)"
    "nextChan r' = Suc (nextChan r)" "closedChans r' = closedChans r" "panicked r' = panicked r" for r' x
  proof -
    have "nextChan r \<notin> set (closedChans r)" "signalOf r y \<noteq> Some (nextChan r)" for y
      using assms by (auto simp: channels_ok_def)
    with assms that show ?thesis unfolding channels_ok_def by (auto simp: less_Suc_eq split: if_splits)
  qed
  have sig: "signalOf (snd (targetSignalLocked n r)) y = (if y = Inl n then Some (nextChan r) else signalOf r y)"
    if "signalOf r (Inl n) = None" for y
    using that by (cases y) (simp_all add: targetSignalLocked_def)
  have sig': "signalOf (snd (requestSignalLocked k r)) y = (if y = Inr k then Some (nextChan r) else signalOf r y)"
    if "signalOf r (Inr k) = None" for y
    using that by (cases y) (simp_all add: requestSignalLocked_def)
  show "channels_ok (snd (targetSignalLocked n r))"
  proof (cases "signalOf r (Inl n)")
    case None
    from sig [OF None] show ?thesis
      by (intro new [OF None]) (use None in \<open>simp_all add: targetSignalLocked_def\<close>)
  qed (simp add: targetSignalLocked_def assms)
  show "channels_ok (snd (requestSignalLocked k r))"
  proof (cases "signalOf r (Inr k)")
    case None
    from sig' [OF None] show ?thesis
      by (intro new [OF None]) (use None in \<open>simp_all add: requestSignalLocked_def\<close>)
  qed (simp add: requestSignalLocked_def assms)
qed

section \<open>Watched requests\<close>

definition watched_ok :: "registry \<Rightarrow> bool" where
  "watched_ok r \<longleftrightarrow> (\<forall>k ch. mget (requestSignals r) k = Some ch \<longrightarrow>
     (\<exists>c. mget (csConnections (state r)) k = Some c \<and> \<not> connectionTerminal (crState c)))"

lemma watched_okD:
  "watched_ok r \<Longrightarrow> mget (requestSignals r) k = Some ch \<Longrightarrow>
   \<exists>c. mget (csConnections (state r)) k = Some c \<and> \<not> connectionTerminal (crState c)"
  unfolding watched_ok_def by blast

text \<open>Changing one entry of the table is safe if its watchers are woken.\<close>

lemma watched_ok_change:
  assumes "watched_ok r" and "mget (requestSignals r') k = None"
    and "\<And>j. j \<noteq> k \<Longrightarrow> mget (requestSignals r') j = mget (requestSignals r) j"
    and "\<And>j. j \<noteq> k \<Longrightarrow> mget (csConnections (state r')) j = mget (csConnections (state r)) j"
  shows "watched_ok r'"
  unfolding watched_ok_def
proof (intro allI impI)
  fix j ch assume "mget (requestSignals r') j = Some ch"
  moreover from this assms(2) have "j \<noteq> k" by auto
  ultimately show "\<exists>c. mget (csConnections (state r')) j = Some c \<and> \<not> connectionTerminal (crState c)"
    using assms(1,3,4) by (auto dest: watched_okD)
qed

section \<open>Waking\<close>

text \<open>
  What a waiter on a node's queue or on a request relies on: while its channel is open, the queue
  has not grown and the state of the request has not changed.
\<close>

definition queueGrew :: "registry \<Rightarrow> registry \<Rightarrow> gostring \<Rightarrow> bool" where
  "queueGrew r r' n \<longleftrightarrow> (\<exists>k c. mget (csConnections (state r')) k = Some c \<and> crTargetNode c = n
     \<and> crState c = ''queued'' \<and> mget (csConnections (state r)) k \<noteq> Some c)"

definition requestState :: "registry \<Rightarrow> gostring \<Rightarrow> gostring option" where
  "requestState r k = map_option crState (mget (csConnections (state r)) k)"

definition wakes :: "registry \<Rightarrow> registry \<Rightarrow> bool" where
  "wakes r r' \<longleftrightarrow> set (closedChans r) \<subseteq> set (closedChans r')
     \<and> (\<forall>n ch. mget (connectionSignals r) n = Some ch \<longrightarrow>
          ch \<in> set (closedChans r') \<or> mget (connectionSignals r') n = Some ch \<and> \<not> queueGrew r r' n)
     \<and> (\<forall>k ch. mget (requestSignals r) k = Some ch \<longrightarrow>
          ch \<in> set (closedChans r') \<or> mget (requestSignals r') k = Some ch \<and> requestState r' k = requestState r k)"

lemma wakesI:
  assumes "set (closedChans r) \<subseteq> set (closedChans r')"
    and "\<And>n ch. mget (connectionSignals r) n = Some ch \<Longrightarrow> ch \<notin> set (closedChans r') \<Longrightarrow>
      mget (connectionSignals r') n = Some ch \<and> \<not> queueGrew r r' n"
    and "\<And>k ch. mget (requestSignals r) k = Some ch \<Longrightarrow> ch \<notin> set (closedChans r') \<Longrightarrow>
      mget (requestSignals r') k = Some ch \<and> requestState r' k = requestState r k"
  shows "wakes r r'"
  using assms unfolding wakes_def by blast

lemma wakes_refl: "wakes r r"
  by (simp add: wakes_def queueGrew_def)

lemma wakes_trans:
  assumes "wakes r s" and "wakes s t"
  shows "wakes r t"
proof (rule wakesI)
  show "set (closedChans r) \<subseteq> set (closedChans t)" using assms by (auto simp: wakes_def)
  show "mget (connectionSignals t) n = Some ch \<and> \<not> queueGrew r t n"
    if "mget (connectionSignals r) n = Some ch" "ch \<notin> set (closedChans t)" for n ch
  proof -
    from assms that have s: "mget (connectionSignals s) n = Some ch" "\<not> queueGrew r s n" unfolding wakes_def by blast+
    with assms(2) that(2) have "mget (connectionSignals t) n = Some ch" "\<not> queueGrew s t n" unfolding wakes_def by blast+
    with s show ?thesis unfolding queueGrew_def by metis
  qed
  show "mget (requestSignals t) k = Some ch \<and> requestState t k = requestState r k"
    if "mget (requestSignals r) k = Some ch" "ch \<notin> set (closedChans t)" for k ch
  proof -
    from assms that have s: "mget (requestSignals s) k = Some ch" "requestState s k = requestState r k"
      unfolding wakes_def by blast+
    with assms(2) that(2) show ?thesis unfolding wakes_def by metis
  qed
qed

lemma wakes_same:
  assumes "csConnections (state r') = csConnections (state r)" "set (closedChans r) \<subseteq> set (closedChans r')"
    "\<And>x c. signalOf r x = Some c \<Longrightarrow> signalOf r' x = Some c"
  shows "wakes r r'"
proof (rule wakesI [OF assms(2)])
  show "mget (connectionSignals r') n = Some ch \<and> \<not> queueGrew r r' n" if "mget (connectionSignals r) n = Some ch" for n ch
    using assms(3) [of "Inl n"] that by (simp add: queueGrew_def assms(1))
  show "mget (requestSignals r') k = Some ch \<and> requestState r' k = requestState r k"
    if "mget (requestSignals r) k = Some ch" for k ch
    using assms(3) [of "Inr k"] that by (simp add: requestState_def assms(1))
qed

text \<open>
  One entry of the table changes, its watchers are woken, and if the entry joins a queue, so is
  the waiter on the queue.
\<close>

lemma wakes_change:
  assumes "set (closedChans r) \<subseteq> set (closedChans r')"
    and woken: "\<And>ch. mget (requestSignals r) k = Some ch \<Longrightarrow> ch \<in> set (closedChans r')"
    and other: "\<And>j. j \<noteq> k \<Longrightarrow> mget (csConnections (state r')) j = mget (csConnections (state r)) j"
    and watch: "\<And>j. j \<noteq> k \<Longrightarrow> mget (requestSignals r') j = mget (requestSignals r) j"
    and queue: "\<And>n ch. mget (connectionSignals r) n = Some ch \<Longrightarrow>
      ch \<in> set (closedChans r') \<or> mget (connectionSignals r') n = Some ch"
    and joins: "\<And>c ch. mget (csConnections (state r')) k = Some c \<Longrightarrow> crState c = ''queued'' \<Longrightarrow>
      mget (connectionSignals r) (crTargetNode c) = Some ch \<Longrightarrow> ch \<in> set (closedChans r')"
  shows "wakes r r'"
proof (rule wakesI [OF assms(1)])
  show "mget (connectionSignals r') n = Some ch \<and> \<not> queueGrew r r' n"
    if "mget (connectionSignals r) n = Some ch" "ch \<notin> set (closedChans r')" for n ch
  proof
    show "mget (connectionSignals r') n = Some ch" using queue that by blast
    show "\<not> queueGrew r r' n"
    proof
      assume "queueGrew r r' n"
      then obtain j c where c: "mget (csConnections (state r')) j = Some c" "crTargetNode c = n"
        "crState c = ''queued''" "mget (csConnections (state r)) j \<noteq> Some c" unfolding queueGrew_def by blast
      with other have "j = k" by fastforce
      with c joins that show False by blast
    qed
  qed
  show "mget (requestSignals r') j = Some ch \<and> requestState r' j = requestState r j"
    if "mget (requestSignals r) j = Some ch" "ch \<notin> set (closedChans r')" for j ch
  proof -
    from that woken have "j \<noteq> k" by blast
    with that other watch show ?thesis by (simp add: requestState_def)
  qed
qed

section \<open>Every move wakes the waiters it concerns\<close>

definition signals_ok :: "registry \<Rightarrow> bool" where
  "signals_ok r \<longleftrightarrow> channels_ok r \<and> watched_ok r"

definition sameSignals :: "registry \<Rightarrow> registry \<Rightarrow> bool" where
  "sameSignals r r' \<longleftrightarrow> connectionSignals r' = connectionSignals r \<and> requestSignals r' = requestSignals r
     \<and> closedChans r' = closedChans r \<and> nextChan r' = nextChan r \<and> panicked r' = panicked r"

lemma signals_ok_same:
  assumes "signals_ok r" and "sameSignals r r'" and "csConnections (state r') = csConnections (state r)"
  shows "signals_ok r'" and "wakes r r'"
proof -
  show "signals_ok r'"
    using assms channels_ok_cong [of r' r] by (simp add: signals_ok_def sameSignals_def watched_ok_def)
  show "wakes r r'"
    by (rule wakes_same) (use assms(2,3) in \<open>auto simp: sameSignals_def signalOf_def split: sum.splits\<close>)
qed

lemma change_woken:
  assumes ok: "signals_ok r" and same: "sameSignals r r1"
    and other: "\<And>j. j \<noteq> k \<Longrightarrow> mget (csConnections (state r1)) j = mget (csConnections (state r)) j"
    and r2: "r2 = r1 \<or> r2 = notifyTargetLocked n r1"
    and joins: "\<And>c. mget (csConnections (state r1)) k = Some c \<Longrightarrow> crState c = ''queued'' \<Longrightarrow>
      r2 = notifyTargetLocked (crTargetNode c) r1"
  shows "signals_ok (notifyRequestLocked k r2) \<and> wakes r (notifyRequestLocked k r2)"
proof -
  have ch1: "channels_ok r1"
    using ok same channels_ok_cong [of r1 r] by (simp add: signals_ok_def sameSignals_def)
  then have ch2: "channels_ok r2" using r2 by auto
  have st: "csConnections (state r2) = csConnections (state r1)" using r2 by auto
  have req: "requestSignals r2 = requestSignals r" using r2 same by (auto simp: sameSignals_def)
  have req3: "mget (requestSignals (notifyRequestLocked k r2)) j = (if j = k then None else mget (requestSignals r) j)" for j
    using notify_signal(2) [of k r2 "Inr j"] by (simp add: req)
  have closed2: "set (closedChans r) \<subseteq> set (closedChans r2)"
    using r2 same notify_closed(1) [OF ch1] by (auto simp: sameSignals_def split: option.splits)
  have closed: "set (closedChans r2) \<subseteq> set (closedChans (notifyRequestLocked k r2))"
    by (auto simp: notify_closed(2) [OF ch2] split: option.split)
  show ?thesis
  proof
    show "signals_ok (notifyRequestLocked k r2)"
      unfolding signals_ok_def
    proof
      show "channels_ok (notifyRequestLocked k r2)" using ch2 by (rule channels_ok_notify)
      show "watched_ok (notifyRequestLocked k r2)"
        by (rule watched_ok_change [of r _ k]) (use ok other in \<open>simp_all add: signals_ok_def req3 st\<close>)
    qed
    show "wakes r (notifyRequestLocked k r2)"
    proof (rule wakes_change [where k = k])
      show "set (closedChans r) \<subseteq> set (closedChans (notifyRequestLocked k r2))" using closed2 closed by blast
      show "ch \<in> set (closedChans (notifyRequestLocked k r2))" if "mget (requestSignals r) k = Some ch" for ch
        using that by (simp add: notify_closed(2) [OF ch2] req)
      show "ch \<in> set (closedChans (notifyRequestLocked k r2))
          \<or> mget (connectionSignals (notifyRequestLocked k r2)) m = Some ch"
        if "mget (connectionSignals r) m = Some ch" for m ch
      proof -
        have m: "mget (connectionSignals r1) m = Some ch" using that same by (simp add: sameSignals_def)
        have "ch \<in> set (closedChans r2) \<or> mget (connectionSignals r2) m = Some ch"
        proof (cases "r2 = r1")
          case True
          with m show ?thesis by simp
        next
          case False
          with r2 have r2: "r2 = notifyTargetLocked n r1" by blast
          from m show ?thesis
            using notify_signal(1) [of n r1 "Inl m"]
            by (cases "m = n") (auto simp: r2 notify_closed(1) [OF ch1] split: option.split)
        qed
        with closed show ?thesis by auto
      qed
      show "ch \<in> set (closedChans (notifyRequestLocked k r2))"
        if "mget (csConnections (state (notifyRequestLocked k r2))) k = Some c" "crState c = ''queued''"
          "mget (connectionSignals r) (crTargetNode c) = Some ch" for c ch
      proof -
        from that st have "r2 = notifyTargetLocked (crTargetNode c) r1" by (intro joins) simp_all
        with that(3) same have "ch \<in> set (closedChans r2)"
          by (simp add: notify_closed(1) [OF ch1] sameSignals_def)
        with closed show ?thesis by blast
      qed
    qed (simp_all add: other st req3)
  qed
qed

definition signal_step :: "registry \<Rightarrow> registry \<Rightarrow> bool" where
  "signal_step r r' \<longleftrightarrow> (signals_ok r \<longrightarrow> signals_ok r' \<and> wakes r r')"

lemma signal_step_refl: "signal_step r r"
  by (simp add: signal_step_def wakes_refl)

lemma signal_step_trans: "signal_step r s \<Longrightarrow> signal_step s t \<Longrightarrow> signal_step r t"
  unfolding signal_step_def by (blast intro: wakes_trans)

lemma signal_step_same:
  "sameSignals r r' \<Longrightarrow> csConnections (state r') = csConnections (state r) \<Longrightarrow> signal_step r r'"
  by (simp add: signal_step_def signals_ok_same)

lemma signal_step_sweep: "signal_step (fst rc) (fst (sweepConnection now k rc))"
proof -
  obtain r changed where rc: "rc = (r, changed)" by fastforce
  have "signals_ok r \<Longrightarrow> signals_ok (fst (sweepConnection now k rc)) \<and> wakes r (fst (sweepConnection now k rc))"
  proof (cases "mget (csConnections (state r)) k")
    case None
    then show "signals_ok r \<Longrightarrow> ?thesis" by (simp add: rc sweepConnection_def wakes_refl)
  next
    case (Some c)
    assume ok: "signals_ok r"
    consider (expired) "\<not> connectionTerminal (crState c) \<and> crExpiresAt c < now"
      | (requeued) "\<not> (\<not> connectionTerminal (crState c) \<and> crExpiresAt c < now)"
          "crState c = ''offered'' \<and> crOfferLeaseEnds c \<noteq> 0 \<and> crOfferLeaseEnds c < now"
      | (other) "\<not> (\<not> connectionTerminal (crState c) \<and> crExpiresAt c < now)"
          "\<not> (crState c = ''offered'' \<and> crOfferLeaseEnds c \<noteq> 0 \<and> crOfferLeaseEnds c < now)"
      by blast
    then show ?thesis
    proof cases
      case expired
      show ?thesis
        unfolding rc sweepConnection_def prod.case Some option.case if_P [OF expired] fst_conv
        by (rule change_woken [OF ok _ _ disjI2 [OF refl], where k = k])
          (auto simp: sameSignals_def expiredConnection_def)
    next
      case requeued
      show ?thesis
        unfolding rc sweepConnection_def prod.case Some option.case if_not_P [OF requeued(1)] if_P [OF requeued(2)] Let_def fst_conv
        by (rule change_woken [OF ok _ _ disjI2 [OF refl], where k = k])
          (auto simp: sameSignals_def requeuedConnection_def)
    next
      case other
      show ?thesis
      proof (cases "connectionTerminal (crState c) \<and> crUpdatedAt c < now - 24 * nhour")
        case True
        define r' where "r' = (updState (\<lambda>s. s\<lparr>csConnections := mdel k (csConnections s),
                 csConnectionIdempotency := mdel (idempotencyIndex (crSourceNode c) (crIdempotencyKey c))
                                                (csConnectionIdempotency s)\<rparr>) r)\<lparr>requestSignals := mdel k (requestSignals r)\<rparr>"
        have none: "mget (requestSignals r) k = None"
          using ok Some True by (cases "mget (requestSignals r) k") (auto simp: signals_ok_def dest: watched_okD)
        have sig: "signalOf r' x = signalOf r x" for x
          using none by (cases x) (auto simp: r'_def)
        have "signals_ok r'" unfolding signals_ok_def
        proof
          show "channels_ok r'"
            using ok sig by (simp add: signals_ok_def channels_ok_def) (simp add: r'_def)
          show "watched_ok r'"
            by (rule watched_ok_change [of r _ k]) (use ok in \<open>auto simp: signals_ok_def r'_def\<close>)
        qed
        moreover have "wakes r r'"
          by (rule wakes_change [where k = k]) (auto simp: r'_def none)
        ultimately show ?thesis
          using True unfolding rc sweepConnection_def prod.case Some option.case if_not_P [OF other(1)] if_not_P [OF other(2)]
          by (simp add: r'_def)
      next
        case False
        then have "fst (sweepConnection now k rc) = r"
          unfolding rc sweepConnection_def prod.case Some option.case if_not_P [OF other(1)] if_not_P [OF other(2)]
          by (subst if_not_P) simp_all
        with ok show ?thesis by (simp add: wakes_refl)
      qed
    qed
  qed
  then show ?thesis by (simp add: rc signal_step_def)
qed

lemma signal_step_fold:
  "(\<And>k s. signal_step (f s) (f (body k s))) \<Longrightarrow> signal_step (f s) (f (fold body ks s))"
  by (rule fold_trans [where R = "\<lambda>s t. signal_step (f s) (f t)"]) (auto intro: signal_step_refl signal_step_trans)

lemma signal_step_cleanup: "signal_step r (snd (cleanupLocked E now r))"
proof (rule cleanup_stages [of E now r])
  fix rc assume rc: "rc = connectionSweep E now (nodeSweep E now (pendingSweep E now r))"
    and end_state: "snd (cleanupLocked E now r) = fst (pruneHistory E (cleanNonces E now (fst rc), snd rc))"
  let ?before = "nodeSweep E now (pendingSweep E now r)"
  have "signal_step r (fst ?before)"
    by (rule signal_step_same) (simp_all add: sameSignals_def nodeSweep_frame pendingSweep_frame)
  moreover have "signal_step (fst ?before) (fst rc)"
    unfolding rc connectionSweep_def by (rule signal_step_fold [where f = fst]) (rule signal_step_sweep)
  moreover have "signal_step (fst rc) (snd (cleanupLocked E now r))"
    by (rule signal_step_same) (simp_all add: end_state sameSignals_def)
  ultimately show "signal_step r (snd (cleanupLocked E now r))" by (blast intro: signal_step_trans)
qed

lemma signal_step_deliver:
  "signal_step r (deliverEvent now c r)"
  unfolding signal_step_def deliverEvent_def
  by (intro impI change_woken [OF _ _ _ disjI1 [OF refl]]) (auto simp: sameSignals_def offeredConnection_def)

lemma signal_step_notify:
  assumes "sameSignals r r1" and "\<And>j. j \<noteq> k \<Longrightarrow> mget (csConnections (state r1)) j = mget (csConnections (state r)) j"
    and "r2 = r1 \<or> r2 = notifyTargetLocked n r1"
    and "\<And>c. mget (csConnections (state r1)) k = Some c \<Longrightarrow> crState c = ''queued'' \<Longrightarrow>
      r2 = notifyTargetLocked (crTargetNode c) r1"
  shows "signal_step r (notifyRequestLocked k r2)"
  unfolding signal_step_def by (rule impI, rule change_woken [OF _ assms])

lemma signal_step_claim: "signal_step r (snd (claimInbox n r))" "signal_step r (releaseInbox n r)"
  by (rule signal_step_same; simp add: sameSignals_def claimInbox_def releaseInbox_def)+

lemma enqueue_signals: "sameSignals r (snd (enqueueConnection E now source input cid r))"
  by (simp add: sameSignals_def enqueueConnection_def Let_def)

lemma revoked_signals: "sameSignals r (revoked E req nodeID r)"
proof -
  have "sameSignals r (fold (revokePending E nodeID) ks s)" if "sameSignals r s" for ks s
    by (rule fold_keeps [where P = "sameSignals r"])
      (use that in \<open>auto simp: sameSignals_def revokePending_def split: option.split\<close>)
  then show ?thesis by (simp add: revoked_def dropCredential_def sameSignals_def)
qed

lemma completed_signals: "sameSignals r (completed E req n key now (storeNode n now r))"
proof -
  have "sameSignals r (fold (completeEnrollment E req n key now) ks s)" if "sameSignals r s" for ks s
    by (rule fold_keeps [where P = "sameSignals r"])
      (use that in \<open>auto simp: sameSignals_def completeEnrollment_def split: option.split\<close>)
  then show ?thesis by (simp add: completed_def storeNode_def sameSignals_def)
qed

lemma signal_step_await:
  assumes "channels_ok r"
  shows "channels_ok (snd (targetSignalLocked n r)) \<and> wakes r (snd (targetSignalLocked n r))"
    and "channels_ok (snd (requestSignalLocked k r)) \<and> wakes r (snd (requestSignalLocked k r))"
proof -
  have "wakes r (snd (targetSignalLocked n r))"
    by (rule wakes_same) (auto simp: targetSignalLocked_def signalOf_def split: option.splits sum.splits)
  moreover have "wakes r (snd (requestSignalLocked k r))"
    by (rule wakes_same) (auto simp: requestSignalLocked_def signalOf_def split: option.splits sum.splits)
  ultimately show "channels_ok (snd (targetSignalLocked n r)) \<and> wakes r (snd (targetSignalLocked n r))"
    "channels_ok (snd (requestSignalLocked k r)) \<and> wakes r (snd (requestSignalLocked k r))"
    using channels_ok_signal [OF assms] by blast+
qed

lemma signal_step_move:
  assumes "move L ps r r'" and "table_ok r"
  shows "signal_step r r'"
  using assms(1)
proof (cases rule: move.cases)
  case (sweeps E now)
  then show ?thesis by (simp add: signal_step_cleanup)
next
  case (enqueues source input sourceNode targetNode cid E now)
  show ?thesis unfolding enqueues(1)
    by (rule signal_step_notify [OF enqueue_signals _ disjI2 [OF refl]])
      (auto simp: enqueue_sel queuedConnection_def)
next
  case (settles k c st code nodeID reason c' now r1 E r2)
  have k: "crID c = k" using connections_okD(1) [OF _ settles(2)] assms(2) by (simp add: table_ok_def connection_ok_def)
  have c': "crID c' = k" "crState c' = st" using settles by (simp_all add: k)
  show ?thesis unfolding settles(1)
  proof (rule signal_step_notify [where n = "crTargetNode c" and k = "crID c" and ?r1.0 = r1])
    show "sameSignals r r1" unfolding settles by (simp add: sameSignals_def settle_def)
    show "r2 = r1 \<or> r2 = notifyTargetLocked (crTargetNode c) r1" using settles by blast
    show "mget (csConnections (state r1)) j = mget (csConnections (state r)) j" if "j \<noteq> crID c" for j
      using that by (simp add: settles k c')
    show "r2 = notifyTargetLocked (crTargetNode d) r1"
      if "mget (csConnections (state r1)) (crID c) = Some d" "crState d = ''queued''" for d
    proof -
      from that(1) have "d = c'" using c' k settles by simp
      with that(2) settles(4) c' show ?thesis by (simp add: settlements_def)
    qed
  qed
next
  case (delivers events E nodeID after limit now)
  show ?thesis unfolding delivers
    by (rule signal_step_fold [where f = "\<lambda>r. r"]) (rule signal_step_deliver)
next
  case (awaits_target nodeID)
  then show ?thesis using signal_step_await(1) [of r nodeID]
    by (auto simp: signal_step_def signals_ok_def watched_ok_def)
next
  case (awaits_request k c)
  have k: "crID c = k" using connections_okD(1) [OF _ awaits_request(2)] assms(2) by (simp add: table_ok_def connection_ok_def)
  show ?thesis using signal_step_await(2) [of r k] awaits_request k notify_signal
    by (auto simp: signal_step_def signals_ok_def watched_ok_def requestSignalLocked_def split: option.splits)
next
  case (revokes req nodeID E)
  show ?thesis unfolding revokes(1) by (rule signal_step_same [OF revoked_signals]) (simp add: revoked_state)
next
  case (admits n authorized now input E req)
  show ?thesis unfolding admits(1) by (rule signal_step_same [OF completed_signals]) simp
qed (auto intro!: signal_step_same signal_step_claim
    simp: sameSignals_def addPending_def approvePending_def rejectPending_def markHandled_def Let_def)

end
