(* ===== verification/Server.thy ===== *)
theory Server
  imports Signals
begin

text \<open>
  The coordinator's two HTTP servers (src/internal/app/coordinator_http.go): which handler a request
  reaches, the rate limits in front of the handlers, and the envelope every error is sent in.
\<close>

section \<open>Dispatch\<close>

text \<open>A handler that is not a long poll answers in one go.\<close>

definition answered :: "response \<times> registry \<Rightarrow> roundResult \<times> registry" where
  "answered x = (Answered (fst x), snd x)"

definition notFound :: response where "notFound = HttpError ''404 page not found'' 404"

definition posts :: "httpRequest \<Rightarrow> gostring \<Rightarrow> bool" where
  "posts req p \<longleftrightarrow> rqMethod req = ''POST'' \<and> rqPath req = p"

definition gets :: "httpRequest \<Rightarrow> gostring \<Rightarrow> bool" where
  "gets req p \<longleftrightarrow> rqMethod req = ''GET'' \<and> rqPath req = p"

definition serveConnections :: "'z json_scheme \<Rightarrow> env \<Rightarrow> httpRequest \<Rightarrow> registry \<Rightarrow> (roundResult \<times> registry) option" where
  "serveConnections L E req r =
     (if posts req ''/v1/connections/request'' then Some (answered (createConnection L E req r))
      else if posts req ''/v1/connections/inbox/wait'' then Some (waitConnectionInbox L E req r)
      else if posts req ''/v1/connections/inbox/ack'' then Some (answered (ackConnectionInbox L E req r))
      else if posts req ''/v1/connections/accept'' then Some (answered (decideConnection L E req ''accepted'' 200 r))
      else if posts req ''/v1/connections/reject'' then Some (answered (decideConnection L E req ''rejected'' 403 r))
      else if posts req ''/v1/connections/cancel'' then Some (answered (cancelConnection L E req r))
      else if posts req ''/v1/connections/status'' then Some (connectionStatus L E req False r)
      else if posts req ''/v1/connections/status/wait'' then Some (connectionStatus L E req True r)
      else None)"

definition publicRoutes :: "'z json_scheme \<Rightarrow> env \<Rightarrow> httpRequest \<Rightarrow> registry \<Rightarrow> response \<times> registry" where
  "publicRoutes L E req r =
     (if posts req ''/v1/enroll/request'' then requestEnrollment L E req r
      else if posts req ''/v1/enroll/poll'' then pollEnrollment L E req r
      else if posts req ''/v1/nodes/register'' then registerNode L E req r
      else if posts req ''/v1/nodes/heartbeat'' then heartbeatNode L E req r
      else if posts req ''/v1/nodes/discovery'' then discoverNodes L E req r
      else (notFound, r))"

definition servePublic :: "'z json_scheme \<Rightarrow> env \<Rightarrow> httpRequest \<Rightarrow> registry \<Rightarrow> roundResult \<times> registry" where
  "servePublic L E req r0 =
     (if hasPrefix (rqPath req) ''/v1/connections/'' then
        (case serveConnections L E req r0 of None \<Rightarrow> (Answered notFound, r0) | Some x \<Rightarrow> x)
      else
        let registering = (rqPath req = ''/v1/nodes/register'');
            limit = (if registering then publicRequestsPerMinute * 5 else publicRequestsPerMinute);
            rateClass = (if registering then ''unauthenticated-register:'' else ''enrollment:'')
        in case allowRequest E (clock E 8) (rateClass @ requestSource (rqRemoteAddr req)) limit r0 of
             (False, r) \<Rightarrow> (Answered (HttpError ''rate limit exceeded'' 429), r)
           | (True, r) \<Rightarrow> answered (publicRoutes L E req r))"

definition adminRoutes :: "'z json_scheme \<Rightarrow> env \<Rightarrow> httpRequest \<Rightarrow> registry \<Rightarrow> response \<times> registry" where
  "adminRoutes L E req r =
     (if gets req ''/v1/admin/handshakes'' then listHandshakes E req r
      else if gets req ''/v1/admin/audit'' then listAudit req r
      else if posts req ''/v1/admin/approve'' then approveHandshake L E req r
      else if posts req ''/v1/admin/reject'' then rejectHandshake L E req r
      else if posts req ''/v1/admin/revoke'' then revokeNode L E req r
      else (notFound, r))"

definition serveAdminRequest :: "'z json_scheme \<Rightarrow> env \<Rightarrow> httpRequest \<Rightarrow> registry \<Rightarrow> response \<times> registry" where
  "serveAdminRequest L E req r0 =
     (if \<not> isLoopbackRequest (rqRemoteAddr req) then (HttpError ''admin API is local only'' 403, r0)
      else case allowRequest E (clock E 8) (''admin:'' @ requestSource (rqRemoteAddr req)) adminRequestsPerMinute r0 of
          (False, r) \<Rightarrow> (HttpError ''rate limit exceeded'' 429, r)
        | (True, r) \<Rightarrow> adminRoutes L E req r)"

section \<open>The error envelope\<close>

definition knownCodes :: "(gostring, gostring) gomap" where
  "knownCodes =
    [(''invalid body'', ''request_body_invalid''),
     (''invalid JSON'', ''request_json_invalid''),
     (''invalid JSON or node id'', ''node_identity_invalid''),
     (''invalid node signature'', ''node_signature_invalid''),
     (''node rate limit exceeded'', ''node_rate_limited''),
     (''rate limit exceeded'', ''request_rate_limited''),
     (''node must heartbeat before discovery'', ''node_not_active''),
     (''source or target node is not active'', ''connection_node_inactive''),
     (''target service is not published'', ''published_service_missing''),
     (''return relay is not active in the source segment'', ''return_relay_invalid''),
     (''connection request capacity reached'', ''connection_capacity_reached''),
     (''target connection queue is full'', ''connection_target_queue_full''),
     (''an inbox wait is already active for this node'', ''inbox_wait_already_active''),
     (''cursor is ahead of server state'', ''inbox_cursor_invalid''),
     (''connection request not found'', ''connection_request_missing''),
     (''only the target node can decide this request'', ''connection_decision_forbidden''),
     (''only the source node can cancel this request'', ''connection_cancel_forbidden''),
     (''connection request cannot be decided in its current state'', ''connection_state_terminal''),
     (''connection request is already terminal'', ''connection_state_terminal''),
     (''connection reason is too long'', ''connection_reason_too_long''),
     (''enrollment reason is too long'', ''enrollment_reason_too_long''),
     (''connection request is not visible to this node'', ''connection_request_hidden''),
     (''handshake not found or expired'', ''enrollment_missing_or_expired''),
     (''unexpired handshake not found'', ''enrollment_missing_or_expired''),
     (''handshake was rejected'', ''enrollment_rejected''),
     (''handshake was already approved'', ''enrollment_already_approved''),
     (''node id is already authorized; explicit replacement is required'', ''node_credential_conflict''),
     (''unauthorized'', ''admin_authentication_failed'')]"

definition apiErrorCode :: "int \<Rightarrow> gostring \<Rightarrow> gostring" where
  "apiErrorCode status message =
     (let code = mgetz '''' knownCodes message
      in if code \<noteq> '''' then code
         else if status = 401 then ''authentication_failed''
         else if status = 403 then ''access_denied''
         else if status = 404 then ''resource_not_found''
         else if status = 409 then ''request_conflict''
         else if status = 429 then ''request_rate_limited''
         else if status = 503 then ''service_unavailable''
         else ''request_failed'')"

text \<open>
  What reaches the client: an error envelope, or the payload as the handler wrote it (a plain
  text below 400 does not occur, but the writer would let it through). The texts of
  \<open>http.StatusText\<close>, read for an empty message, and the JSON encoder are parameters.
\<close>

datatype wire = Envelope int gostring gostring | Payload int payload | PlainText int gostring

definition envelope :: "(int \<Rightarrow> gostring) \<Rightarrow> int \<Rightarrow> gostring \<Rightarrow> wire" where
  "envelope statusText status body =
     (let trimmed = trimSpace body;
          message = (if trimmed = '''' then statusText status else trimmed)
      in Envelope status (apiErrorCode status message) message)"

text \<open>\<open>http.Error\<close> ends the message with a newline.\<close>

definition serveStructured :: "(int \<Rightarrow> gostring) \<Rightarrow> (payload \<Rightarrow> gostring) \<Rightarrow> response \<Rightarrow> wire" where
  "serveStructured statusText encode resp =
     (case resp of
        HttpError message status \<Rightarrow>
          if 400 \<le> status then envelope statusText status (message @ [newline])
          else PlainText status (message @ [newline])
      | WriteJSON status value \<Rightarrow>
          if 400 \<le> status then envelope statusText status (encode value) else Payload status value)"

section \<open>A running coordinator\<close>

text \<open>
  The locked sections of the handlers, one step each, with the requests and environments left
  open: any number of requests may be between their sections, in any order. An admin's steps are
  those of the loopback server with the token; a restart reads the state file again.
\<close>

inductive serves :: "'z json_scheme \<Rightarrow> power set \<Rightarrow> registry \<Rightarrow> registry \<Rightarrow> bool" for L ps where
  limits: "serves L ps r (snd (allowRequest E now key limit r))"
| requests: "serves L ps r (snd (requestEnrollment L E req r))"
| polls: "serves L ps r (snd (pollEnrollment L E req r))"
| registers: "serves L ps r (snd (registerNode L E req r))"
| heartbeats: "serves L ps r (snd (heartbeatNode L E req r))"
| lists: "serves L ps r (snd (listHandshakes E req r))"
| audits: "serves L ps r (snd (listAudit req r))"
| approve: "Administers \<in> ps \<Longrightarrow> serves L ps r (snd (approveHandshake L E req r))"
| reject: "Administers \<in> ps \<Longrightarrow> serves L ps r (snd (rejectHandshake L E req r))"
| revoke: "Administers \<in> ps \<Longrightarrow> serves L ps r (snd (revokeNode L E req r))"
| authenticates: "serves L ps r (snd (authenticatedConnectionBody L E req r))"
| discovers: "serves L ps r (snd (discoverBody L E body nodeID r))"
| creates: "Creates \<in> ps \<Longrightarrow> freshDraw E r \<Longrightarrow> serves L ps r (snd (createConnectionBody L E body nodeID r))"
| decides: "(st, code) = (''accepted'', 200) \<or> (st, code) = (''rejected'', 403) \<Longrightarrow>
    serves L ps r (snd (decideBody L E st code body nodeID r))"
| cancels: "serves L ps r (snd (cancelBody L E body nodeID r))"
| acknowledges: "serves L ps r (snd (ackBody L E body nodeID r))"
| begins: "Polls \<in> ps \<Longrightarrow> serves L ps r (snd (inboxBegin L body nodeID r))"
| inbox: "0 \<le> limit \<Longrightarrow> serves L ps r (snd (inboxRound E now nodeID after limit r))"
| leaves: "Polls \<in> ps \<Longrightarrow> serves L ps r (releaseInbox nodeID r)"
| status: "serves L ps r (snd (statusRound E now nodeID wait input r))"

text \<open>The settings \<open>startCoordinator\<close> overrides after it has read the state.\<close>

definition starts :: "(gostring \<Rightarrow> stateFile option) \<Rightarrow> gostring \<Rightarrow> registry \<Rightarrow> bool" where
  "starts files p r \<longleftrightarrow> (\<exists>token net r0 wait ttl lease most. newRegistry files p token net = Inr r0
     \<and> r = r0\<lparr>connectionWait := wait, connectionTTL := ttl, connectionLease := lease, connectionMax := most\<rparr>)"

definition coordinator_step :: "'z json_scheme \<Rightarrow> registry \<Rightarrow> registry \<Rightarrow> bool" where
  "coordinator_step L r r' \<longleftrightarrow> serves L UNIV r r' \<or> starts (disk r) (path r) r'"

definition coordinator_init :: "registry \<Rightarrow> bool" where
  "coordinator_init r \<longleftrightarrow> (\<exists>files p. files p = None \<and> starts files p r)"

end
