(* ===== verification/Server_Safety.thy ===== *)
theory Server_Safety
  imports Server
begin

text \<open>
  What holds of every coordinator that started without a state file and has since served any
  requests, in any interleaving of their sections, and restarted any number of times.
\<close>

section \<open>Sections are moves\<close>

lemma moves_limit: "moves L ps r (snd (allowRequest E now key limit r))"
proof -
  define rs where "rs = (if 4096 < length (rates r) then fold (\<lambda>k m. case mget m k of
                     None \<Rightarrow> m
                   | Some w \<Rightarrow> if 2 * nminute \<le> timeSub now (rwStarted w) then mdel k m else m) (rangeKeys (visit E 0) (rates r)) (rates r)
                else rates r)"
  obtain rs' where "snd (allowRequestLocked key limit now (r\<lparr>rates := rs\<rparr>)) = r\<lparr>rates := rs\<rparr>\<lparr>rates := rs'\<rparr>"
    by (rule allow_rates)
  then have "snd (allowRequest E now key limit r) = r\<lparr>nonces := nonces r, rates := rs'\<rparr>"
    by (simp add: allowRequest_def Let_def rs_def)
  with moves_counts [where L = L and ps = ps and r = r and ns = "nonces r" and rs = rs'] show ?thesis by simp
qed

lemma serves_moves: "serves L ps r r' \<Longrightarrow> moves L ps r r'"
proof (induction rule: serves.induct)
  case (decides st code r E body nodeID)
  then show ?case by (intro moves_decideBody) (auto simp: settlements_def)
next
  case approve
  then show ?case by (simp add: moves_approve)
next
  case reject
  then show ?case by (simp add: moves_reject)
next
  case revoke
  then show ?case by (simp add: moves_revoke)
qed (simp_all add: moves_limit moves_request moves_poll moves_register moves_heartbeat moves_list moves_audit
    moves_authenticate moves_discoverBody moves_createBody moves_cancelBody moves_ackBody moves_inboxBegin
    moves_inboxRound moves1 [OF releases] moves_statusRound)

section \<open>Whole requests are moves\<close>

lemma authenticated_conns:
  "csConnections (state (snd (authenticatedConnectionBody L E req r))) = csConnections (state r)"
  by (rule authenticatedConnectionBody_cases [where P = "\<lambda>x. csConnections (state (snd x)) = csConnections (state r)"])
    simp_all

lemma moves_authenticated:
  assumes "\<And>body nodeID r1. csConnections (state r1) = csConnections (state r) \<Longrightarrow> moves L ps r1 (snd (rest body nodeID r1))"
  shows "moves L ps r (snd (case authenticatedConnectionBody L E req r of
      (Inl err, r1) \<Rightarrow> (f err, r1) | (Inr (body, nodeID), r1) \<Rightarrow> rest body nodeID r1))"
  using moves_authenticate [of L ps r E req] authenticated_conns [of L E req r] assms
  by (auto split: prod.split sum.split intro: moves_trans)

lemma moves_discover: "moves L ps r (snd (discoverNodes L E req r))"
  unfolding discoverNodes_def by (rule moves_authenticated) (rule moves_discoverBody)

lemma freshDraw_cong: "freshDraw E r \<Longrightarrow> csConnections (state r1) = csConnections (state r) \<Longrightarrow> freshDraw E r1"
  by (simp add: freshDraw_def)

lemma moves_serveConnections:
  assumes "Polls \<in> ps" and "serveConnections L E req r = Some x"
  shows "x = answered (createConnection L E req r) \<or> moves L ps r (snd x)"
proof -
  have settled: "(''accepted'', 200) \<in> settlements" "(''rejected'', 403) \<in> settlements" by (simp_all add: settlements_def)
  have "moves L ps r (snd (waitConnectionInbox L E req r))" unfolding waitConnectionInbox_def
    by (rule moves_authenticated) (rule moves_inboxBody [OF assms(1)])
  moreover have "moves L ps r (snd (ackConnectionInbox L E req r))" unfolding ackConnectionInbox_def authenticatedThen_def
    by (rule moves_authenticated) (rule moves_ackBody)
  moreover have "moves L ps r (snd (decideConnection L E req ''accepted'' 200 r))"
    unfolding decideConnection_def authenticatedThen_def
    by (rule moves_authenticated) (rule moves_decideBody [OF settled(1)], simp)
  moreover have "moves L ps r (snd (decideConnection L E req ''rejected'' 403 r))"
    unfolding decideConnection_def authenticatedThen_def
    by (rule moves_authenticated) (rule moves_decideBody [OF settled(2)], simp)
  moreover have "moves L ps r (snd (cancelConnection L E req r))" unfolding cancelConnection_def authenticatedThen_def
    by (rule moves_authenticated) (rule moves_cancelBody)
  moreover have "moves L ps r (snd (connectionStatus L E req wait r))" for wait unfolding connectionStatus_def
    by (rule moves_authenticated) (rule moves_statusBody)
  ultimately show ?thesis
    using assms(2) unfolding serveConnections_def answered_def by (auto split: if_splits)
qed

lemma moves_createConnection:
  assumes "Creates \<in> ps" and "freshDraw E r"
  shows "moves L ps r (snd (createConnection L E req r))" unfolding createConnection_def authenticatedThen_def
  by (rule moves_authenticated) (rule moves_createBody [OF assms(1) freshDraw_cong [OF assms(2)]])

lemma servePublic_eq:
  obtains key limit ok r1 where "allowRequest E (clock E 8) key limit r = (ok, r1)"
    and "\<not> hasPrefix (rqPath req) ''/v1/connections/'' \<Longrightarrow> servePublic L E req r
      = answered (if ok then publicRoutes L E req r1 else (HttpError ''rate limit exceeded'' 429, r1))"
proof -
  define limit where "limit = (if rqPath req = ''/v1/nodes/register'' then publicRequestsPerMinute * 5 else publicRequestsPerMinute)"
  define key where "key = (if rqPath req = ''/v1/nodes/register'' then ''unauthenticated-register:'' else ''enrollment:'')
    @ requestSource (rqRemoteAddr req)"
  obtain ok r1 where a: "allowRequest E (clock E 8) key limit r = (ok, r1)" by fastforce
  have "\<not> hasPrefix (rqPath req) ''/v1/connections/'' \<Longrightarrow> servePublic L E req r
      = answered (if ok then publicRoutes L E req r1 else (HttpError ''rate limit exceeded'' 429, r1))"
    using a unfolding limit_def key_def by (simp add: servePublic_def Let_def answered_def split: bool.split)
  with a that show thesis by blast
qed

lemma moves_routes: "moves L ps r (snd (publicRoutes L E req r))"
  by (simp add: publicRoutes_def moves_request moves_poll moves_register moves_heartbeat moves_discover)

lemma moves_servePublic:
  assumes "Polls \<in> ps" and "Creates \<in> ps" and "freshDraw E r"
  shows "moves L ps r (snd (servePublic L E req r))"
proof (cases "hasPrefix (rqPath req) ''/v1/connections/''")
  case True
  have "moves L ps r (snd x)" if "serveConnections L E req r = Some x" for x
    using moves_serveConnections [OF assms(1) that] moves_createConnection [OF assms(2,3)] by (auto simp: answered_def)
  with True show ?thesis by (auto simp: servePublic_def split: option.split)
next
  case False
  obtain key limit ok r1 where a: "allowRequest E (clock E 8) key limit r = (ok, r1)"
    and eq: "servePublic L E req r
      = answered (if ok then publicRoutes L E req r1 else (HttpError ''rate limit exceeded'' 429, r1))"
    by (rule servePublic_eq [of E r req L]) (use False in blast)
  have "moves L ps r r1" using moves_limit [of L ps r E "clock E 8" key limit] by (simp add: a)
  with moves_trans [OF this moves_routes [of L ps r1 E req]] show ?thesis by (simp add: eq answered_def)
qed

lemma moves_serveAdmin: "moves L {Administers} r (snd (serveAdminRequest L E req r))"
proof -
  define key where "key = ''admin:'' @ requestSource (rqRemoteAddr req)"
  obtain ok r1 where a: "allowRequest E (clock E 8) key adminRequestsPerMinute r = (ok, r1)" by fastforce
  have r1: "moves L {Administers} r r1" using moves_limit [of L "{Administers}" r E "clock E 8" key adminRequestsPerMinute] by (simp add: a)
  have "moves L {Administers} r1 (snd (adminRoutes L E req r1))"
    by (simp add: adminRoutes_def moves_list moves_audit moves_approve moves_reject moves_revoke)
  with r1 show ?thesis
    unfolding serveAdminRequest_def key_def [symmetric] a
    by (auto split: bool.split intro: moves_trans)
qed

section \<open>The state file\<close>

definition files_ok :: "'z lib_scheme \<Rightarrow> registry \<Rightarrow> bool" where
  "files_ok L r \<longleftrightarrow> disk r (path r) \<noteq> Some TornFile
     \<and> (\<forall>st. disk r (path r) = Some (StateFile st) \<longrightarrow> state_inv L st)"

lemma revoked_files: "disk (revoked E req nodeID r) = disk r" "path (revoked E req nodeID r) = path r"
proof -
  have "disk (revokePending E nodeID k r) = disk r" "path (revokePending E nodeID k r) = path r" for k r
    by (simp_all add: revokePending_def split: option.split)
  then show "disk (revoked E req nodeID r) = disk r" "path (revoked E req nodeID r) = path r"
    by (simp_all add: revoked_def fold_same [where f = disk] fold_same [where f = path] dropCredential_def)
qed

lemma completed_files:
  "disk (completed E req n key now (storeNode n now r)) = disk r"
  "path (completed E req n key now (storeNode n now r)) = path r"
proof -
  have "disk (completeEnrollment E req n key now k r) = disk r" "path (completeEnrollment E req n key now k r) = path r" for k r
    by (simp_all add: completeEnrollment_def split: option.split)
  then show "disk (completed E req n key now (storeNode n now r)) = disk r"
    "path (completed E req n key now (storeNode n now r)) = path r"
    by (simp_all add: completed_def fold_same [where f = disk] fold_same [where f = path] storeNode_def)
qed

lemma deliver_files:
  "disk (fold (deliverEvent now) events r) = disk r" "path (fold (deliverEvent now) events r) = path r"
  by (simp_all add: fold_same [where f = disk] fold_same [where f = path] deliverEvent_def)

lemma move_files:
  assumes "move L ps r r'"
  shows "path r' = path r \<and> (disk r' = disk r \<or> (\<exists>out. r' = snd (persistLocked out r)))"
  using assms
proof (cases rule: move.cases)
  case (settles k c st code nodeID reason c' now r1 E r2)
  then show ?thesis by (auto simp: settle_def)
qed (auto simp: addPending_def approvePending_def rejectPending_def Let_def revoked_files completed_files
    deliver_files enqueueConnection_def claimInbox_def releaseInbox_def)

lemma persist_file:
  "disk (snd (persistLocked out r)) (path r) \<in> {disk r (path r), Some (StateFile (state r))}"
  by (cases out) (simp_all add: persist_outcomes)

lemma files_ok_move:
  assumes "move L ps r r'" and "state_inv L (state r)" and "files_ok L r"
  shows "files_ok L r'"
  using move_files [OF assms(1)]
proof (elim conjE disjE exE)
  fix out assume "path r' = path r" "r' = snd (persistLocked out r)"
  with assms(2,3) persist_file [of out r] show ?thesis by (auto simp: files_ok_def)
qed (use assms(3) in \<open>simp add: files_ok_def\<close>)

section \<open>The invariant of a running coordinator\<close>

definition server_inv :: "'z lib_scheme \<Rightarrow> registry \<Rightarrow> bool" where
  "server_inv L r \<longleftrightarrow> state_inv L (state r) \<and> signals_ok r \<and> files_ok L r"

lemma server_inv_move:
  assumes "move L ps r r'" and "server_inv L r"
  shows "server_inv L r'"
proof -
  from assms(2) have inv: "state_inv L (state r)" "signals_ok r" "files_ok L r" by (simp_all add: server_inv_def)
  have "signals_ok r'"
    using signal_step_move [OF assms(1) state_invD(5) [OF inv(1)]] inv(2) by (simp add: signal_step_def)
  with inv show ?thesis
    by (simp add: server_inv_def state_inv_move [OF assms(1)] files_ok_move [OF assms(1)])
qed

lemma server_inv_moves: "moves L ps r r' \<Longrightarrow> server_inv L r \<Longrightarrow> server_inv L r'"
  by (induction rule: rtranclp_induct) (auto intro: server_inv_move)

lemma newRegistry_state:
  assumes "newRegistry files p token net = Inr r"
  shows "disk r = files \<and> path r = p \<and> signals_ok r
    \<and> (files p = None \<and> state r = emptyState \<or> (\<exists>st. files p = Some (StateFile st) \<and> state r = st))"
  using assms
  by (auto simp: newRegistry_def freshRegistry_def Let_def signals_ok_def channels_ok_def watched_ok_def signalOf_def
      split: option.splits stateFile.splits sum.splits)

lemma server_inv_starts:
  assumes "starts files p r" and "\<And>st. files p = Some (StateFile st) \<Longrightarrow> state_inv L st"
  shows "server_inv L r"
proof -
  from assms(1) obtain token net r0 wait ttl lease most where r0: "newRegistry files p token net = Inr r0"
    and r: "r = r0\<lparr>connectionWait := wait, connectionTTL := ttl, connectionLease := lease, connectionMax := most\<rparr>"
    unfolding starts_def by blast
  note st = newRegistry_state [OF r0]
  have sig: "signals_ok r"
    using signals_ok_same(1) [of r0 r] st by (simp add: r sameSignals_def)
  have "state_inv L (state r0)" using st assms(2) state_inv_empty by auto
  moreover have "files_ok L r0" using st assms(2) by (auto simp: files_ok_def)
  ultimately show ?thesis using sig by (simp add: server_inv_def r files_ok_def)
qed

lemma server_inv_step:
  assumes "server_inv L r" and "coordinator_step L r r'"
  shows "server_inv L r'"
  using assms(2) unfolding coordinator_step_def
proof
  assume "serves L UNIV r r'"
  with assms(1) show ?thesis by (blast intro: server_inv_moves serves_moves)
next
  assume "starts (disk r) (path r) r'"
  then show ?thesis
    by (rule server_inv_starts) (use assms(1) in \<open>simp add: server_inv_def files_ok_def\<close>)
qed

interpretation coordinator: inductive_invariant coordinator_init "coordinator_step L" "server_inv L"
proof
  show "coordinator_init r \<Longrightarrow> server_inv L r" for r
    unfolding coordinator_init_def by (auto intro: server_inv_starts)
qed (rule server_inv_step)

section \<open>Reachable states\<close>

abbreviation reachable :: "'z json_scheme \<Rightarrow> registry \<Rightarrow> bool" where
  "reachable L \<equiv> reach coordinator_init (coordinator_step L)"

lemma starts_unchanged:
  assumes "newRegistry files p token net = Inr r"
  shows "starts files p r"
proof -
  have "r = r\<lparr>connectionWait := connectionWait r, connectionTTL := connectionTTL r, connectionLease := connectionLease r,
      connectionMax := connectionMax r\<rparr>" by simp
  with assms show ?thesis unfolding starts_def by blast
qed

lemma sampleRegistry_reachable: "reachable L sampleRegistry"
proof (rule reach_init)
  have "newRegistry (\<lambda>_. None) ''/s.json'' ''token'' ''net'' = Inr sampleRegistry"
    by (simp only: newRegistry_def sampleRegistry_def Let_def option.case)
  then have "starts (\<lambda>_. None) ''/s.json'' sampleRegistry" by (rule starts_unchanged)
  then show "coordinator_init sampleRegistry" unfolding coordinator_init_def by (rule_tac exI, rule_tac exI, rule_tac conjI [OF refl])
qed

text \<open>A coordinator that has just answered its first request, for the witnesses.\<close>

lemma enrolledRegistry_reachable: "reachable enrollJson enrolledRegistry"
  by (rule reach_step [OF sampleRegistry_reachable])
    (unfold coordinator_step_def enrolledRegistry_def, rule disjI1, rule requests)

text \<open>C13: In every reachable state the tables are well formed and agree: pending handshakes with
  their history and device codes, nodes with their credentials, connection requests with the
  idempotency index, within the bounds of the queues.\<close>

theorem reachable_state_ok:
  assumes "reachable L r"
  shows "tables_ok (state r) \<and> pending_ok (state r) \<and> nodes_ok L (state r) \<and> connections_ok (state r)"
  using coordinator.reach_inv [OF assms] by (simp add: server_inv_def state_inv_def)

theorem reachable_state_ok_witness: "pending_ok (state enrolledRegistry) \<and> connections_ok (state enrolledRegistry)"
  using reachable_state_ok [OF enrolledRegistry_reachable] by simp

text \<open>No reachable coordinator has panicked: no wake-up channel is ever closed twice.\<close>

theorem never_panics:
  assumes "reachable L r"
  shows "\<not> panicked r"
  using coordinator.reach_inv [OF assms] by (simp add: server_inv_def signals_ok_def channels_ok_def)

theorem never_panics_witness: "\<not> panicked enrolledRegistry"
  by (rule never_panics [OF enrolledRegistry_reachable])

text \<open>C14: Whenever the coordinator stops, whatever writes had failed before, it can start again
  from its files, and in a well formed state.\<close>

theorem restart_succeeds:
  assumes "reachable L r"
  shows "\<exists>r'. newRegistry (disk r) (path r) token net = Inr r' \<and> state_inv L (state r')"
proof -
  have "files_ok L r" using coordinator.reach_inv [OF assms] by (simp add: server_inv_def)
  then show ?thesis
    by (cases "disk r (path r)")
      (auto simp: files_ok_def newRegistry_def Let_def freshRegistry_def state_inv_empty split: stateFile.split)
qed

theorem restart_succeeds_witness:
  "\<exists>r'. newRegistry (disk enrolledRegistry) (path enrolledRegistry) ''t'' ''n'' = Inr r' \<and> state_inv enrollJson (state r')"
  by (rule restart_succeeds [OF enrolledRegistry_reachable])

end
