(* ===== verification/Server_Properties.thy ===== *)
theory Server_Properties
  imports Server_Safety
begin

text \<open>
  Who may change what: credentials change through the administrator alone, and a connection request
  that is settled stays as it was settled. What the servers answer: payloads below 400 and
  enveloped errors from 400 on.
\<close>

section \<open>Credentials\<close>

lemma move_authorized:
  assumes "move L ps r r'" and "Administers \<notin> ps"
  shows "csAuthorized (state r') = csAuthorized (state r)"
  using assms(1)
proof (cases rule: move.cases)
  case (settles k c st code nodeID reason c' now r1 E r2)
  then show ?thesis by auto
qed (use assms(2) in \<open>simp_all add: enqueue_sel\<close>)

lemma moves_authorized:
  "moves L ps r r' \<Longrightarrow> Administers \<notin> ps \<Longrightarrow> csAuthorized (state r') = csAuthorized (state r)"
  by (induction rule: rtranclp_induct) (simp_all add: move_authorized)

lemma create_authorized: "csAuthorized (state (snd (createConnection L E req r))) = csAuthorized (state r)"
proof -
  have locked: "csAuthorized (state (snd (createConnectionLocked E now source input r1))) = csAuthorized (state r1)"
    for now source input r1
  proof (rule createConnectionLocked_cases [where P = "\<lambda>x. csAuthorized (state (snd x)) = csAuthorized (state r1)"], goal_cases)
    case (3 sourceNode target cid connection r2 d d' resp)
    then have "r2 = snd (enqueueConnection E now source input cid ((snd (cleanupLocked E now r1))\<lparr>disk := d\<rparr>))" by simp
    then show ?case by (simp add: enqueue_sel)
  qed simp_all
  have "csAuthorized (state (snd (createConnectionBody L E body source r1))) = csAuthorized (state r1)" for body source r1
    by (simp add: createConnectionBody_def locked split: option.split)
  moreover have "csAuthorized (state (snd (authenticatedConnectionBody L E req r))) = csAuthorized (state r)"
    using moves_authorized [OF moves_authenticate [of L "{}" r E req]] by simp
  ultimately show ?thesis
    by (auto simp: createConnection_def authenticatedThen_def split: prod.split sum.split)
qed

lemma servePublic_authorized: "csAuthorized (state (snd (servePublic L E req r))) = csAuthorized (state r)"
proof (cases "hasPrefix (rqPath req) ''/v1/connections/''")
  case True
  have "csAuthorized (state (snd x)) = csAuthorized (state r)" if "serveConnections L E req r = Some x" for x
    using moves_serveConnections [OF _ that, of "{Polls}"] create_authorized moves_authorized [of L "{Polls}" r "snd x"]
    by (auto simp: answered_def)
  with True show ?thesis by (auto simp: servePublic_def split: option.split)
next
  case False
  obtain key limit ok r1 where a: "allowRequest E (clock E 8) key limit r = (ok, r1)"
    and eq: "servePublic L E req r
      = answered (if ok then publicRoutes L E req r1 else (HttpError ''rate limit exceeded'' 429, r1))"
    by (rule servePublic_eq [of E r req L]) (use False in blast)
  have "moves L {} r r1" using moves_limit [of L "{}" r E "clock E 8" key limit] by (simp add: a)
  moreover from moves_trans [OF this moves_routes [of L "{}" r1 E req]]
  have "moves L {} r (snd (publicRoutes L E req r1))" .
  ultimately show ?thesis by (auto simp: eq answered_def dest: moves_authorized)
qed

lemma unauthorized_admin:
  assumes "\<not> adminAuthorized req r"
  shows "snd (adminRoutes L E req r) = r"
  using assms
  by (simp add: adminRoutes_def listHandshakes_def listAudit_def approveHandshake_def rejectHandshake_def revokeNode_def)



section \<open>Answers\<close>

definition wellAnswered :: "response \<Rightarrow> bool" where
  "wellAnswered resp \<longleftrightarrow> (case resp of HttpError _ code \<Rightarrow> 400 \<le> code | WriteJSON code _ \<Rightarrow> code \<in> {200, 201})"

definition roundAnswered :: "roundResult \<Rightarrow> bool" where
  "roundAnswered res \<longleftrightarrow> (case res of Answered resp \<Rightarrow> wellAnswered resp | Parked _ resp \<Rightarrow> wellAnswered resp)"

lemma wellAnswered_simps [simp]:
  "wellAnswered (HttpError m c) \<longleftrightarrow> 400 \<le> c" "wellAnswered (WriteJSON c p) \<longleftrightarrow> c = 200 \<or> c = 201"
  "roundAnswered (Answered resp) = wellAnswered resp" "roundAnswered (Parked ch resp) = wellAnswered resp"
  by (simp_all add: wellAnswered_def roundAnswered_def)

lemma persistOr_answered: "wellAnswered a \<Longrightarrow> wellAnswered (fst (persistOr out a m r))"
  by (simp add: persistOr_def)

lemma enrollment_answers:
  "wellAnswered (fst (requestEnrollment L E req r))" "wellAnswered (fst (pollEnrollment L E req r))"
  "wellAnswered (fst (listHandshakes E req r))" "wellAnswered (fst (listAudit req r))"
  "wellAnswered (fst (approveHandshake L E req r))" "wellAnswered (fst (rejectHandshake L E req r))"
  "wellAnswered (fst (revokeNode L E req r))"
proof -
  have enroll: "wellAnswered (fst (enrollLocked E p secret r))" for p secret
    by (rule enrollLocked_cases [where P = "\<lambda>x. wellAnswered (fst x)"]) (simp_all add: persistOr_answered)
  show "wellAnswered (fst (requestEnrollment L E req r))"
    by (rule requestEnrollment_cases [where P = "\<lambda>x. wellAnswered (fst x)"]) (simp_all add: enroll)
  show "wellAnswered (fst (pollEnrollment L E req r))"
    by (rule pollEnrollment_cases [where P = "\<lambda>x. wellAnswered (fst x)"]) auto
  show "wellAnswered (fst (listHandshakes E req r))"
    by (rule listHandshakes_cases [where P = "\<lambda>x. wellAnswered (fst x)"]) simp_all
  show "wellAnswered (fst (listAudit req r))"
    by (rule listAudit_cases [where P = "\<lambda>x. wellAnswered (fst x)"]) simp_all
  show "wellAnswered (fst (approveHandshake L E req r))"
    by (rule approveHandshake_cases [where P = "\<lambda>x. wellAnswered (fst x)"]) (simp_all add: persistOr_answered)
  show "wellAnswered (fst (rejectHandshake L E req r))"
    by (rule rejectHandshake_cases [where P = "\<lambda>x. wellAnswered (fst x)"]) (simp_all add: persistOr_answered)
  show "wellAnswered (fst (revokeNode L E req r))"
    by (rule revokeNode_cases [where P = "\<lambda>x. wellAnswered (fst x)"]) (simp_all add: persistOr_answered)
qed

lemma authenticated_answers:
  assumes "fst (authenticatedConnectionBody L E req r) = Inl err"
  shows "wellAnswered err"
proof -
  have "fst (authenticatedConnectionBody L E req r) = Inl err \<longrightarrow> wellAnswered err"
    by (rule authenticatedConnectionBody_cases [where P = "\<lambda>x. fst x = Inl err \<longrightarrow> wellAnswered err"]) auto
  with assms show ?thesis by blast
qed

lemma node_answers:
  "wellAnswered (fst (registerNode L E req r))" "wellAnswered (fst (heartbeatNode L E req r))"
  "wellAnswered (fst (discoverNodes L E req r))"
proof -
  have "fst (updateNode L E req r) = Inl err \<longrightarrow> wellAnswered err" for err
    by (rule updateNode_cases [where P = "\<lambda>x. fst x = Inl err \<longrightarrow> wellAnswered err"]) (auto simp: updateAnswer_def)
  then show "wellAnswered (fst (registerNode L E req r))" "wellAnswered (fst (heartbeatNode L E req r))"
    by (auto simp: registerNode_def heartbeatNode_def split: prod.split sum.split)
  have "wellAnswered (fst (discoverBody L E body nodeID r1))" for body nodeID r1
    by (simp add: discoverBody_def discoverLocked_def Let_def split: option.split)
  then show "wellAnswered (fst (discoverNodes L E req r))"
    using authenticated_answers [of L E req r]
    by (auto simp: discoverNodes_def split: prod.split sum.split)
qed

lemma settled_answered:
  "settled r (WriteJSON 200 p) resp d \<Longrightarrow> wellAnswered resp" "settled r (WriteJSON 201 p) resp d \<Longrightarrow> wellAnswered resp"
  by (auto simp: settled_def)

lemma broker_answers:
  "wellAnswered (fst (createConnectionBody L E body nodeID r))" "wellAnswered (fst (decideBody L E st code body nodeID r))"
  "wellAnswered (fst (cancelBody L E body nodeID r))" "wellAnswered (fst (ackBody L E body nodeID r))"
  "roundAnswered (fst (inboxBody L E body nodeID r))" "roundAnswered (fst (statusBody L E wait body nodeID r))"
proof -
  have create: "wellAnswered (fst (createConnectionLocked E now source input r))" for now source input
    by (rule createConnectionLocked_cases [where P = "\<lambda>x. wellAnswered (fst x)"]) (auto dest: settled_answered)
  show "wellAnswered (fst (createConnectionBody L E body nodeID r))"
    by (simp add: createConnectionBody_def create split: option.split)
  have decide: "wellAnswered (fst (decideConnectionLocked E now nodeID st code input r))" for now input
    by (rule decideConnectionLocked_cases [where P = "\<lambda>x. wellAnswered (fst x)"]) (auto dest: settled_answered)
  show "wellAnswered (fst (decideBody L E st code body nodeID r))"
    by (simp add: decideBody_def decide split: option.split)
  have cancel: "wellAnswered (fst (cancelConnectionLocked E now nodeID input r))" for now input
    by (rule cancelConnectionLocked_cases [where P = "\<lambda>x. wellAnswered (fst x)"]) (auto dest: settled_answered)
  show "wellAnswered (fst (cancelBody L E body nodeID r))"
    by (simp add: cancelBody_def cancel split: option.split)
  have "wellAnswered (fst (ackLocked E nodeID cursor r))" for cursor
    by (rule ackLocked_cases [where P = "\<lambda>x. wellAnswered (fst x)"]) (auto dest: settled_answered)
  then show "wellAnswered (fst (ackBody L E body nodeID r))"
    by (simp add: ackBody_def split: option.split)
  have round: "roundAnswered (fst (inboxRound E now nodeID after limit r1))" for now after limit r1
    by (rule inboxRound_cases [where P = "\<lambda>x. roundAnswered (fst x)"]) (auto dest: settled_answered)
  have turn: "roundAnswered (fst (inboxTurn E now nodeID after limit r1))" for now after limit r1
    using round [of now after limit r1]
    by (auto simp: inboxTurn_def split: prod.split roundResult.split)
  have start: "fst (inboxBegin L body nodeID r) = Inl err \<Longrightarrow> wellAnswered err" for err
    by (auto simp: inboxBegin_def claimInbox_def Let_def split: option.splits if_splits)
  show "roundAnswered (fst (inboxBody L E body nodeID r))"
    using start turn by (auto simp: inboxBody_def split: prod.split sum.split)
  have "roundAnswered (fst (statusRound E now nodeID wait input r))" for now input
    by (rule statusRound_cases [where P = "\<lambda>x. roundAnswered (fst x)"]) (auto dest: settled_answered)
  then show "roundAnswered (fst (statusBody L E wait body nodeID r))"
    by (simp add: statusBody_def split: option.split)
qed

lemma connection_answers:
  assumes "serveConnections L E req r = Some x"
  shows "roundAnswered (fst x)"
proof -
  have auth: "wellAnswered (fst (authenticatedThen L E req rest r))"
    if "\<And>body nodeID r1. wellAnswered (fst (rest body nodeID r1))" for rest
    using authenticated_answers [of L E req r] that by (auto simp: authenticatedThen_def split: prod.split sum.split)
  have wait: "roundAnswered (fst (waitConnectionInbox L E req r))"
    using authenticated_answers [of L E req r] broker_answers
    by (auto simp: waitConnectionInbox_def split: prod.split sum.split)
  have status: "roundAnswered (fst (connectionStatus L E req wait r))" for wait
    using authenticated_answers [of L E req r] broker_answers
    by (auto simp: connectionStatus_def split: prod.split sum.split)
  have "wellAnswered (fst (createConnection L E req r))" "wellAnswered (fst (ackConnectionInbox L E req r))"
    "wellAnswered (fst (decideConnection L E req st code r))" "wellAnswered (fst (cancelConnection L E req r))" for st code
    unfolding createConnection_def ackConnectionInbox_def decideConnection_def cancelConnection_def
    by (rule auth, rule broker_answers)+
  with assms wait status show ?thesis unfolding serveConnections_def answered_def by (auto split: if_splits)
qed

lemma servers_answer:
  "roundAnswered (fst (servePublic L E req r))" "wellAnswered (fst (serveAdminRequest L E req r))"
proof -
  have "wellAnswered (fst (publicRoutes L E req r1))" for r1
    by (simp add: publicRoutes_def enrollment_answers node_answers notFound_def)
  then show "roundAnswered (fst (servePublic L E req r))"
    by (auto simp: servePublic_def notFound_def answered_def Let_def dest: connection_answers split: option.split prod.split bool.split)
  have "wellAnswered (fst (adminRoutes L E req r1))" for r1
    by (simp add: adminRoutes_def enrollment_answers notFound_def)
  then show "wellAnswered (fst (serveAdminRequest L E req r))"
    by (auto simp: serveAdminRequest_def split: prod.split bool.split)
qed

lemma apiErrorCode_nonempty: "apiErrorCode status message \<noteq> ''''"
  by (simp add: apiErrorCode_def Let_def)



end
