(* ===== verification/Broker.thy ===== *)
theory Broker
  imports Server_Properties
begin

text \<open>
  What the connection broker promises its two sides: a request is settled once and by whom it
  concerns, asking again with the same key gives the same request, the inbox hands out each
  queued request once per lease, in order and after it is on disk.
\<close>

section \<open>Sample run\<close>

text \<open>Node n1 asks node n2 for its service web.\<close>

definition brokerEnv :: env where
  "brokerEnv = busyEnv (unixTime 100)"

definition webInput :: createConnectionInput where
  "webInput = \<lparr>ciIdempotencyKey = ''key'', ciTargetNode = ''n2'', ciService = ''web'', ciReturnRelay = ''''\<rparr>"

definition webRequest :: connectionRequest where
  "webRequest = queuedConnection sampleToken ''n1'' webInput 1 (unixTime 100) connectionRequestLifetime"

definition brokerJson :: json where
  "brokerJson = nodesJson\<lparr>
     jsonID := (\<lambda>_. Some \<lparr>idRequestID = sampleToken, idReason = ''''\<rparr>),
     jsonCreate := (\<lambda>_. Some webInput),
     jsonWait := (\<lambda>_. Some \<lparr>iwAfterCursor = 0, iwWaitSeconds = 25, iwMaxEvents = 32\<rparr>)\<rparr>"

lemma brokerJson_nodes: "node_ok brokerJson k n = node_ok nodesJson k n"
  by (simp add: node_ok_def service_ok_def validSHA256Pin_def normalizePin_def toLower_def brokerJson_def)

lemma pairRegistry_inv: "server_inv brokerJson pairRegistry"
proof -
  have n1: "node_ok brokerJson ''n1'' registeredNode"
    by (simp add: brokerJson_nodes node_ok_def registeredNode_def sampleNode_def zeroNode_def)
  have n2: "node_ok brokerJson ''n2'' lanNode"
    using nodesRegistry_nodes by (simp add: brokerJson_nodes nodes_ok_def nodesRegistry_def go_simps)
  have "nodes_ok brokerJson (state pairRegistry)"
    using n1 n2 by (auto simp: nodes_ok_def pairRegistry_def nodesRegistry_def go_simps split: if_splits)
  moreover have "pending_ok (state pairRegistry)"
    by (simp add: pending_ok_def sourcePending_def pairRegistry_def nodesRegistry_def sampleRegistry_def freshRegistry_def emptyState_def)
  moreover have "connections_ok (state pairRegistry)"
    by (simp add: connections_ok_def targetPending_def pairRegistry_def nodesRegistry_def sampleRegistry_def freshRegistry_def emptyState_def)
  moreover have "signals_ok pairRegistry"
    by (simp add: signals_ok_def channels_ok_def watched_ok_def signalOf_def pairRegistry_def nodesRegistry_def
        sampleRegistry_def freshRegistry_def split: sum.split)
  moreover have "files_ok brokerJson pairRegistry"
    by (simp add: files_ok_def pairRegistry_def nodesRegistry_def sampleRegistry_def freshRegistry_def)
  ultimately show ?thesis
    using pairRegistry_tables by (simp add: server_inv_def state_inv_def)
qed

lemma cleanNonces_idle:
  assumes "\<And>k expiry. mget (nonces r) k = Some expiry \<Longrightarrow> now \<le> expiry"
  shows "cleanNonces E now r = r"
proof -
  have "expireNonce now k (nonces r) = nonces r" for k
    using assms [of k] by (force simp: expireNonce_def split: option.split)
  then have "fold (expireNonce now) ks (nonces r) = nonces r" for ks
    by (intro fold_keeps [where P = "\<lambda>m. m = nonces r"]) simp_all
  then show ?thesis by (simp add: cleanNonces_def)
qed

lemma cleanup_idle:
  assumes "csPending (state r) = []" and nonces: "\<And>k expiry. mget (nonces r) k = Some expiry \<Longrightarrow> now \<le> expiry"
    and "length (csHistory (state r)) \<le> maxHandshakeHistory"
    and nodes: "\<And>k n. mget (csNodes (state r)) k = Some n \<Longrightarrow> now - 2 * nminute \<le> dnLastSeen n
      \<and> (\<forall>sv \<in> set (dnServices n). length (activeCandidates now sv) = length (svDirectCandidates sv))"
    and conns: "\<And>k c. mget (csConnections (state r)) k = Some c \<Longrightarrow>
      (if connectionTerminal (crState c) then now - 24 * nhour \<le> crUpdatedAt c
       else now \<le> crExpiresAt c \<and> (crState c = ''offered'' \<longrightarrow> crOfferLeaseEnds c = 0 \<or> now \<le> crOfferLeaseEnds c))"
  shows "cleanupLocked E now r = (False, r)"
proof -
  have p: "pendingSweep E now r = (r, False)" by (simp add: pendingSweep_def assms(1))
  have "sweepNode now k (r, False) = (r, False)" for k
    using nodes [of k] by (auto simp: sweepNode_def not_less split: option.split)
  then have n: "nodeSweep E now (r, False) = (r, False)"
    unfolding nodeSweep_def by (intro fold_keeps [where P = "\<lambda>rc. rc = (r, False)"]) simp_all
  have "sweepConnection now k (r, False) = (r, False)" for k
    using conns [of k] by (auto simp: sweepConnection_def not_less connectionTerminal_def split: option.split if_splits)
  then have c: "connectionSweep E now (r, False) = (r, False)"
    unfolding connectionSweep_def by (intro fold_keeps [where P = "\<lambda>rc. rc = (r, False)"]) simp_all
  have "cleanNonces E now r = r" using nonces by (simp add: cleanNonces_idle)
  then show ?thesis
    using assms(3) by (simp add: cleanupLocked_def p n c pruneHistory_def not_less)
qed

lemma sample_nodes_idle:
  assumes "n \<in> {registeredNode, lanNode}"
  shows "unixTime 100 - 2 * nminute \<le> dnLastSeen n
      \<and> (\<forall>sv \<in> set (dnServices n). length (activeCandidates (unixTime 100) sv) = length (svDirectCandidates sv))"
  using assms by (auto simp: registeredNode_def lanNode_def sampleNode_def zeroNode_def zeroService_def
      activeCandidates_def unixTime_def time_units)

lemma pairRegistry_nodes: "csNodes (state pairRegistry) = [(''n1'', registeredNode), (''n2'', lanNode)]"
  by (simp add: pairRegistry_def)

lemma pairRegistry_rest:
  "csPending (state pairRegistry) = []" "csHistory (state pairRegistry) = []" "nonces pairRegistry = []"
  "csConnections (state pairRegistry) = []" "csConnectionIdempotency (state pairRegistry) = []"
  "csConnectionCursors (state pairRegistry) = []" "connectionMax pairRegistry = maxConnectionRequests"
  "connectionTTL pairRegistry = connectionRequestLifetime" "connectionLease pairRegistry = connectionOfferLease"
  by (simp_all add: pairRegistry_def nodesRegistry_def sampleRegistry_def freshRegistry_def emptyState_def)

definition queuedRegistry :: registry where
  "queuedRegistry = snd (createConnectionLocked brokerEnv (unixTime 100) ''n1'' webInput pairRegistry)"

lemma broker_writes: "persistLocked (writes brokerEnv k) r = (True, snd (persistLocked WroteFile r))"
  by (simp add: brokerEnv_def busyEnv_def quietEnv_def persistLocked_def Let_def)

lemma pair_idle:
  assumes "state r = state pairRegistry" "nonces r = []"
  shows "cleanupLocked E (unixTime 100) r = (False, r)"
  by (rule cleanup_idle)
    (use sample_nodes_idle [of registeredNode] sample_nodes_idle [of lanNode] in
      \<open>auto simp: assms pairRegistry_rest pairRegistry_nodes go_simps split: if_splits\<close>)

lemma pair_create:
  assumes st: "state r = state pairRegistry" "nonces r = []"
    and "connectionMax r = maxConnectionRequests" "connectionTTL r = connectionRequestLifetime"
  shows "createConnectionLocked brokerEnv (unixTime 100) ''n1'' webInput r
     = (WriteJSON 201 (ConnectionPayload webRequest), notifyRequestLocked sampleToken (notifyTargetLocked ''n2''
         (snd (persistLocked WroteFile (snd (enqueueConnection brokerEnv (unixTime 100) ''n1'' webInput sampleToken r))))))"
proof -
  obtain connection r1 where e: "enqueueConnection brokerEnv (unixTime 100) ''n1'' webInput sampleToken r = (connection, r1)"
    and c: "connection = queuedConnection sampleToken ''n1'' webInput
           (mgetz 0 (csConnectionCursors (state r)) (ciTargetNode webInput) + 1) (unixTime 100) (connectionTTL r)"
    by (rule enqueueConnection_obtain)
  have c: "connection = webRequest" by (simp add: c webRequest_def assms pairRegistry_rest mgetz_def)
  have draw: "randomToken (entropy brokerEnv 0) = Some sampleToken"
    using sample_token by (simp add: brokerEnv_def busyEnv_def)
  have input: "ciTargetNode webInput = ''n2''" "ciService webInput = ''web''" "ciReturnRelay webInput = ''''"
    by (simp_all add: webInput_def)
  have nodes: "mget (csNodes (state r)) ''n1'' = Some registeredNode" "mget (csNodes (state r)) ''n2'' = Some lanNode"
    by (simp_all add: st pairRegistry_nodes go_simps)
  have net: "dnVirtualNetwork registeredNode = dnVirtualNetwork lanNode"
    "(\<exists>service \<in> set (dnServices lanNode). svName service = ''web'') = True"
    by (simp_all add: registeredNode_def lanNode_def sampleNode_def)
  have idem: "mgetz '''' (csConnectionIdempotency (state r)) i = ''''" for i
    by (simp add: st pairRegistry_rest mgetz_def)
  have bounds: "(connectionMax r \<le> int (length (csConnections (state r)))) = False"
    "(maxConnectionsPerTarget \<le> targetPending ''n2'' (state r)) = False"
    by (simp_all add: assms pairRegistry_rest limit_defs targetPending_def)
  show ?thesis
    unfolding createConnectionLocked_def sweepAndPersist_def pair_idle [OF st] Let_def prod.case if_False bool.case
      idem input nodes option.case net bounds draw e broker_writes
    by (simp add: c)
qed

lemma queuedRegistry_create:
  shows "createConnectionLocked brokerEnv (unixTime 100) ''n1'' webInput pairRegistry
     = (WriteJSON 201 (ConnectionPayload webRequest), queuedRegistry)"
    and "state queuedRegistry = state (snd (enqueueConnection brokerEnv (unixTime 100) ''n1'' webInput sampleToken pairRegistry))"
    and "nonces queuedRegistry = []" and "rates queuedRegistry = []" and "connectionLease queuedRegistry = connectionOfferLease"
    and "inboxWaiters queuedRegistry = []"
  unfolding queuedRegistry_def pair_create [OF refl pairRegistry_rest(3,7,8)]
  by (simp_all add: enqueueConnection_def Let_def pairRegistry_def nodesRegistry_def sampleRegistry_def freshRegistry_def)

lemma queuedRegistry_state:
  "csConnections (state queuedRegistry) = [(sampleToken, webRequest)]"
  "csNodes (state queuedRegistry) = [(''n1'', registeredNode), (''n2'', lanNode)]"
  "csPending (state queuedRegistry) = []" "csHistory (state queuedRegistry) = []"
  by (simp_all add: queuedRegistry_create(2) enqueue_sel pairRegistry_rest pairRegistry_nodes go_simps webRequest_def
      mgetz_def webInput_def)

lemma queuedRegistry_inv: "server_inv brokerJson queuedRegistry"
proof -
  have "freshDraw brokerEnv pairRegistry" by (simp add: freshDraw_def pairRegistry_rest)
  then have "moves brokerJson UNIV pairRegistry queuedRegistry"
    unfolding queuedRegistry_def by (intro moves_create) (simp_all add: webInput_def)
  then show ?thesis by (rule server_inv_moves) (rule pairRegistry_inv)
qed

section \<open>Settled requests\<close>

text \<open>
  What may become of a stored request: its identity never changes, and once it is settled neither
  does anything else of it until it is removed.
\<close>

definition staysTrue :: "connectionRequest option \<Rightarrow> connectionRequest option \<Rightarrow> bool" where
  "staysTrue c c' \<longleftrightarrow> (case c' of None \<Rightarrow> True
    | Some d \<Rightarrow> (case c of None \<Rightarrow> False
        | Some c \<Rightarrow> sameRequest c d \<and> (connectionTerminal (crState c) \<longrightarrow> d = c)))"

lemma staysTrue_simps [simp]:
  "staysTrue c c" "staysTrue c None" "staysTrue (Some x) (Some y) \<longleftrightarrow> sameRequest x y \<and> (connectionTerminal (crState x) \<longrightarrow> y = x)"
  by (simp_all add: staysTrue_def split: option.split)

lemma staysTrue_trans: "staysTrue a b \<Longrightarrow> staysTrue b c \<Longrightarrow> staysTrue a c"
  by (auto simp: staysTrue_def intro: sameRequest_trans split: option.splits)

lemma staysTrue_swept: "sweptConnections now c c' \<Longrightarrow> staysTrue c c'"
  by (cases c) (auto simp: sweptConnections_def sweptConnection_def connection_changes split: if_splits)

abbreviation requestAt :: "gostring \<Rightarrow> registry \<Rightarrow> connectionRequest option" where
  "requestAt k r \<equiv> mget (csConnections (state r)) k"

lemma deliver_settled:
  assumes "table_ok r" and "events = pendingEventsLocked E nodeID after limit (state r)" and "0 \<le> limit"
  shows "staysTrue (requestAt k r) (requestAt k (fold (deliverEvent now) events r))"
proof (rule deliver_keeps [where Q = "\<lambda>c. crState c = ''queued''"])
  show "distinct (map crID events)" by (rule pendingEvents_facts [OF assms])
  show "\<forall>c \<in> set events. mget (csConnections (state r)) (crID c) = Some c \<and> crState c = ''queued''"
    using pendingEvents_facts(4) [OF assms] by blast
  fix c s
  assume s: "staysTrue (requestAt k r) (requestAt k s)" and c: "requestAt (crID c) s = Some c" "crState c = ''queued''"
  have "staysTrue (requestAt k s) (requestAt k (deliverEvent now c s))"
    using c by (cases "k = crID c") (simp_all add: deliverEvent_state connection_changes)
  with s show "staysTrue (requestAt k r) (requestAt k (deliverEvent now c s))" by (rule staysTrue_trans)
qed simp

lemma move_settled:
  assumes "move L ps r r'" and "Creates \<notin> ps" and "table_ok r"
  shows "staysTrue (requestAt k r) (requestAt k r')"
  using assms(1)
proof (cases rule: move.cases)
  case (sweeps E now)
  with cleanup_connections [of r now k E] assms(3) show ?thesis
    by (auto simp: table_ok_def intro: staysTrue_swept)
next
  case (settles j c st code nodeID reason c' now r1 E r2)
  have j: "crID c = j" using connections_okD(1) [OF _ settles(2)] assms(3) by (simp add: table_ok_def connection_ok_def)
  have "requestAt k r' = (if k = j then Some c' else requestAt k r)"
    using settles j by auto
  with settles show ?thesis by (simp add: connection_changes)
next
  case (delivers events E nodeID after limit now)
  with deliver_settled [OF assms(3)] show ?thesis by simp
qed (use assms(2) in \<open>simp_all add: revoked_state\<close>)

lemma moves_settled:
  assumes "moves L ps r r'" and "Creates \<notin> ps" and "server_inv L r"
  shows "staysTrue (requestAt k r) (requestAt k r')"
  using assms(1)
proof (induction rule: rtranclp_induct)
  case (step s t)
  have "server_inv L s" using step.hyps(1) assms(3) by (rule server_inv_moves)
  then have "table_ok s" by (simp add: server_inv_def state_inv_def table_ok_def tables_okD)
  from staysTrue_trans [OF step.IH move_settled [OF step.hyps(2) assms(2) this]] show ?case .
qed simp

lemma create_settled:
  assumes "server_inv L r" and "freshDraw E r" and "requestAt k r \<noteq> None"
  shows "staysTrue (requestAt k r) (requestAt k (snd (createConnection L E req r)))"
proof -
  have locked: "staysTrue (requestAt k r1) (requestAt k (snd (createConnectionLocked E now source input r1)))"
    if "csConnections (state r1) = csConnections (state r)" for now source input r1
  proof (rule createConnectionLocked_cases [where P = "\<lambda>x. staysTrue (requestAt k r1) (requestAt k (snd x))"], goal_cases)
    case (3 sourceNode target cid connection r2 d d' resp)
    then have r2: "r2 = snd (enqueueConnection E now source input cid ((snd (cleanupLocked E now r1))\<lparr>disk := d\<rparr>))" by simp
    have "cid \<noteq> k" using 3(9) assms(2,3) by (auto simp: freshDraw_def)
    moreover have "staysTrue (requestAt k r1) (requestAt k (snd (cleanupLocked E now r1)))"
      by (rule staysTrue_swept, rule cleanup_connections)
        (use assms(1) that in \<open>simp add: server_inv_def state_inv_def tables_okD\<close>)
    ultimately show ?case by (simp add: r2 enqueue_sel)
  qed (simp_all, (rule staysTrue_swept, rule cleanup_connections,
      use assms(1) that in \<open>simp add: server_inv_def state_inv_def tables_okD\<close>)+)
  have body: "staysTrue (requestAt k r) (requestAt k (snd (createConnectionBody L E body source r1)))"
    if "csConnections (state r1) = csConnections (state r)" for body source r1
    using locked [OF that] that by (simp add: createConnectionBody_def split: option.split)
  show ?thesis
    using authenticated_conns [of L E req r] body
    by (auto simp: createConnection_def authenticatedThen_def split: prod.split sum.split)
qed


section \<open>Who decides\<close>

lemma authenticatedThen_obtain:
  fixes L :: "'z json_scheme"
  assumes "authenticatedThen L E req rest r = (resp, r')" and "\<And>m c. resp \<noteq> HttpError m c"
  obtains body r1 authorized where "rest body (rqNode req) r1 = (resp, r')" "server_inv L r \<Longrightarrow> server_inv L r1"
    "csConnections (state r1) = csConnections (state r)"
    "mget (csAuthorized (state r)) (rqNode req) = Some authorized"
    "fst (verifySignatureLocked L (clock E 0) req body (auPublicKey authorized) r)"
proof -
  have inv: "server_inv L r \<Longrightarrow> server_inv L (snd (authenticatedConnectionBody L E req r))"
    by (rule server_inv_moves [OF moves_authenticate [where ps = "{}"]])
  have "\<exists>body r1 authorized. rest body (rqNode req) r1 = (resp, r') \<and> (server_inv L r \<longrightarrow> server_inv L r1)
    \<and> csConnections (state r1) = csConnections (state r)
    \<and> mget (csAuthorized (state r)) (rqNode req) = Some authorized
    \<and> fst (verifySignatureLocked L (clock E 0) req body (auPublicKey authorized) r)"
    (is "?ok")
  proof (rule authenticatedConnectionBody_cases [where P = "\<lambda>x. authenticatedConnectionBody L E req r = x \<longrightarrow> ?ok",
        THEN mp, OF _ _ refl], goal_cases)
    case (1 m c ns rs)
    with assms(1) assms(2) [of m c] show ?case by (auto simp: authenticatedThen_def)
  next
    case (2 body authorized ns rs)
    show ?case
    proof
      assume a: "authenticatedConnectionBody L E req r = (Inr (body, rqNode req), r\<lparr>nonces := ns, rates := rs\<rparr>)"
      with assms(1) have "rest body (rqNode req) (r\<lparr>nonces := ns, rates := rs\<rparr>) = (resp, r')"
        by (simp add: authenticatedThen_def)
      with 2 inv a show ?ok by (intro exI [of _ body] exI [of _ "r\<lparr>nonces := ns, rates := rs\<rparr>"] exI [of _ authorized]) simp
    qed
  qed
  with that show thesis by blast
qed

lemma decide_answer:
  fixes L :: "'z json_scheme"
  assumes "decideConnectionLocked E now nodeID st code input r = (WriteJSON 200 (ConnectionPayload c), r')"
    and "server_inv L r"
  shows "crTargetNode c = nodeID \<and> crState c = st \<and> crID c = idRequestID input \<and> requestAt (idRequestID input) r' = Some c"
proof -
  define rc where "rc = snd (cleanupLocked E now r)"
  have "server_inv L rc" unfolding rc_def by (rule server_inv_move [OF sweeps [where ps = "{}"] assms(2)])
  then have ok: "crID d = k" if "requestAt k rc = Some d" for k d
    using connections_okD(1) [OF _ that] by (simp add: server_inv_def state_inv_def connection_ok_def)
  show ?thesis
  proof (rule decideConnectionLocked_cases [where P = "\<lambda>x. x = (WriteJSON 200 (ConnectionPayload c), r') \<longrightarrow> ?thesis",
        THEN mp, OF _ _ _ assms(1)], goal_cases)
    case (2 d files)
    with ok [of "idRequestID input" d] show ?case by (auto simp: rc_def)
  next
    case (3 d connection r1 files files' resp)
    with ok [of "idRequestID input" d] show ?case by (auto simp: rc_def settled_def)
  qed simp
qed

lemma cancel_answer:
  fixes L :: "'z json_scheme"
  assumes "cancelConnectionLocked E now nodeID input r = (WriteJSON 200 (ConnectionPayload c), r')"
    and "server_inv L r"
  shows "crSourceNode c = nodeID \<and> crState c = ''canceled'' \<and> crID c = idRequestID input
    \<and> requestAt (idRequestID input) r' = Some c"
proof -
  define rc where "rc = snd (cleanupLocked E now r)"
  have "server_inv L rc" unfolding rc_def by (rule server_inv_move [OF sweeps [where ps = "{}"] assms(2)])
  then have ok: "crID d = k" if "requestAt k rc = Some d" for k d
    using connections_okD(1) [OF _ that] by (simp add: server_inv_def state_inv_def connection_ok_def)
  show ?thesis
  proof (rule cancelConnectionLocked_cases [where P = "\<lambda>x. x = (WriteJSON 200 (ConnectionPayload c), r') \<longrightarrow> ?thesis",
        THEN mp, OF _ _ _ assms(1)], goal_cases)
    case (2 d files)
    with ok [of "idRequestID input" d] show ?case by (auto simp: rc_def)
  next
    case (3 d connection r1 files files' resp)
    with ok [of "idRequestID input" d] show ?case by (auto simp: rc_def settled_def settledConnection_def)
  qed simp
qed


section \<open>The inbox\<close>

lemma deliver_entries:
  assumes "distinct (map crID events)" and "connectionLease r = lease"
  shows "requestAt k (fold (deliverEvent now) events r)
    = (case find (\<lambda>c. crID c = k) events of Some c \<Rightarrow> Some (offeredConnection now lease c) | None \<Rightarrow> requestAt k r)"
  using assms
proof (induction events arbitrary: r)
  case (Cons c events)
  have "find (\<lambda>d. crID d = crID c) events = None"
    using Cons.prems(1) by (auto simp: find_None_iff) (metis imageI)
  moreover have "requestAt k (deliverEvent now c r) = requestAt k r" if "crID c \<noteq> k"
    using that by (simp add: deliverEvent_state)
  moreover have "requestAt (crID c) (deliverEvent now c r) = Some (offeredConnection now lease c)"
    using Cons.prems(2) by (simp add: deliverEvent_state)
  moreover have "connectionLease (deliverEvent now c r) = lease"
    using Cons.prems(2) by (simp add: deliverEvent_state)
  ultimately show ?case
    using Cons.prems(1) Cons.IH [of "deliverEvent now c r"] by (cases "crID c = k") (simp_all split: option.split)
qed simp


section \<open>Asking again\<close>

lemma server_inv_cleanup:
  fixes L :: "'z json_scheme"
  assumes "server_inv L r" shows "server_inv L (snd (cleanupLocked E now r))"
  by (rule server_inv_move [OF sweeps [where ps = "{}"] assms])

lemma server_invD:
  assumes "server_inv L r"
  shows "connections_ok (state r)" "table_ok r" "tables_ok (state r)"
  using assms by (simp_all add: server_inv_def state_inv_def table_ok_def tables_okD)

lemma create_indexed:
  fixes L :: "'z json_scheme"
  assumes inv: "server_inv L r" and rc: "rc = snd (cleanupLocked E now r)"
    and c: "requestAt k rc = Some c" "crSourceNode c = source" "crIdempotencyKey c = ciIdempotencyKey input"
  shows "\<exists>d. createConnectionLocked E now source input r
      = (if fst (sweepAndPersist E now r) then WriteJSON 200 (ConnectionPayload c)
         else HttpError ''failed to persist connection state'' 500, rc\<lparr>disk := d\<rparr>)"
proof -
  have ok: "connections_ok (state rc)" unfolding rc by (rule server_invD, rule server_inv_cleanup, rule inv)
  have k: "k \<noteq> ''''" using connections_okD(1) [OF ok c(1)] by (simp add: connection_ok_def)
  have idx: "mget (csConnectionIdempotency (state rc)) (idempotencyIndex source (ciIdempotencyKey input)) = Some k"
    using connections_okD(2) [OF ok c(1)] c(2,3) by (simp add: requestIndex_def)
  obtain ok d where sweep: "sweepAndPersist E now r = (ok, rc\<lparr>disk := d\<rparr>)"
    unfolding rc by (rule sweepAndPersist_obtain)
  show ?thesis
    by (rule exI [of _ d]) (cases ok, simp_all add: createConnectionLocked_def sweep mgetz_def idx c(1) k Let_def)
qed

text \<open>Asking again with the same idempotency key never makes a second request: as long as the
  first is stored (a settled one is kept for a day) the answer is the first request, unless the
  sweep that came before could not be persisted; and no entry is added to the table.\<close>

theorem create_is_idempotent:
  fixes L :: "'z json_scheme"
  assumes "server_inv L r" and "mget (csConnections (state r)) k = Some c"
    and "crSourceNode c = source" and "crIdempotencyKey c = ciIdempotencyKey input"
    and "now - 24 * nhour \<le> crUpdatedAt c"
  shows "\<exists>c' r'. sameRequest c c' \<and> mget (csConnections (state r')) k = Some c'
    \<and> (createConnectionLocked E now source input r = (WriteJSON 200 (ConnectionPayload c'), r')
       \<or> createConnectionLocked E now source input r = (HttpError ''failed to persist connection state'' 500, r'))
    \<and> (\<forall>j. mget (csConnections (state r)) j = None \<longrightarrow> mget (csConnections (state r')) j = None)"
proof -
  define rc where "rc = snd (cleanupLocked E now r)"
  have "sweptConnections now (Some c) (requestAt k rc)"
    using cleanup_connections [of r now k E] server_invD(3) [OF assms(1)] assms(2) by (simp add: rc_def tables_okD)
  then obtain c' where c': "requestAt k rc = Some c'" "sameRequest c c'"
    using assms(5)
    by (auto simp: sweptConnections_def sweptConnection_def connection_changes split: if_splits)
  then obtain d where "createConnectionLocked E now source input r
      = (if fst (sweepAndPersist E now r) then WriteJSON 200 (ConnectionPayload c')
         else HttpError ''failed to persist connection state'' 500, rc\<lparr>disk := d\<rparr>)"
    using create_indexed [OF assms(1) rc_def c'(1), where source = source and input = input] assms(3,4) by (auto simp: sameRequest_def)
  with c' show ?thesis
    by (intro exI [of _ c'] exI [of _ "rc\<lparr>disk := d\<rparr>"]) (simp add: rc_def cleanup_fresh)
qed

text \<open>The idempotency index is never found inconsistent: the branch of \<open>createConnection\<close> that
  says so is dead.\<close>

theorem index_is_consistent:
  fixes L :: "'z json_scheme"
  assumes "server_inv L r"
  shows "fst (createConnectionLocked E now source input r) \<noteq> HttpError ''idempotency index is inconsistent'' 500"
proof -
  define rc where "rc = snd (cleanupLocked E now r)"
  define existingID where "existingID = mgetz '''' (csConnectionIdempotency (state rc)) (idempotencyIndex source (ciIdempotencyKey input))"
  have ok: "connections_ok (state rc)" unfolding rc_def by (rule server_invD, rule server_inv_cleanup, rule assms)
  obtain ok d where sweep: "sweepAndPersist E now r = (ok, rc\<lparr>disk := d\<rparr>)"
    unfolding rc_def by (rule sweepAndPersist_obtain)
  have "\<exists>c. requestAt existingID rc = Some c" if "existingID \<noteq> ''''"
  proof -
    from that have "mget (csConnectionIdempotency (state rc)) (idempotencyIndex source (ciIdempotencyKey input)) = Some existingID"
      by (auto simp: existingID_def mgetz_def split: option.splits)
    from connections_okD(3) [OF ok this] show ?thesis by blast
  qed
  then show ?thesis
    by (auto simp: createConnectionLocked_def sweep existingID_def [symmetric] Let_def
        split: bool.split option.split prod.split)
qed

text \<open>A request answered with 201 is stored, queued for an active target that publishes the
  service in the source's virtual network, and on disk; the table and the target's queue stay
  within their bounds.\<close>

theorem created_is_stored:
  fixes L :: "'z json_scheme"
  assumes "server_inv L r" and "freshDraw E r"
    and "createConnectionLocked E now source input r = (WriteJSON 201 (ConnectionPayload c), r')"
  shows "mget (csConnections (state r')) (crID c) = Some c \<and> crState c = ''queued'' \<and> crSourceNode c = source
    \<and> crTargetNode c = ciTargetNode input \<and> crService c = ciService input \<and> crExpiresAt c = now + connectionTTL r
    \<and> crCursor c = mgetz 0 (csConnectionCursors (state r')) (ciTargetNode input)
    \<and> (\<exists>n m. mget (csNodes (state r')) source = Some n \<and> mget (csNodes (state r')) (ciTargetNode input) = Some m
        \<and> dnVirtualNetwork n = dnVirtualNetwork m \<and> (\<exists>service \<in> set (dnServices m). svName service = ciService input))
    \<and> disk r' (path r') = Some (StateFile (state r')) \<and> int (length (csConnections (state r'))) \<le> connectionMax r
    \<and> targetPending (ciTargetNode input) (state r') \<le> maxConnectionsPerTarget" (is ?stored)
proof (rule createConnectionLocked_cases [where P = "\<lambda>x. x = (WriteJSON 201 (ConnectionPayload c), r') \<longrightarrow> ?stored",
      THEN mp, OF _ _ _ assms(3)], goal_cases)
  case (3 sourceNode targetNode cid connection r1 d d' resp)
  define rc where "rc = (snd (cleanupLocked E now r))\<lparr>disk := d\<rparr>"
  have tables: "gomap_ok (csConnections (state rc))"
    using server_invD(3) [OF server_inv_cleanup [OF assms(1)]] by (simp add: rc_def tables_okD)
  have r1: "r1 = snd (enqueueConnection E now source input cid rc)" using 3(11) by (simp add: rc_def)
  have conn: "connection = queuedConnection cid source input
      (mgetz 0 (csConnectionCursors (state rc)) (ciTargetNode input) + 1) now (connectionTTL r)"
    using 3(11) by (auto simp: enqueueConnection_def Let_def rc_def)
  have len: "length (mput cid connection (csConnections (state rc))) \<le> Suc (length (csConnections (state rc)))"
    by (rule gomap.size_put_le [OF tables])
  have pending: "targetPending (ciTargetNode input) (state r1) \<le> Suc (targetPending (ciTargetNode input) (state rc))"
    using mcount_put [OF tables, of "\<lambda>c. crTargetNode c = ciTargetNode input \<and> \<not> connectionTerminal (crState c)" cid connection]
    unfolding targetPending_def r1 enqueue_sel conn by (simp add: rc_def split: if_splits)
  have frame: "csNodes (state r1) = csNodes (state rc)" "csConnections (state r1) = mput cid connection (csConnections (state rc))"
    "mgetz 0 (csConnectionCursors (state r1)) (ciTargetNode input) = crCursor connection"
    by (simp_all add: r1 enqueue_sel conn mgetz_def queuedConnection_def rc_def)
  show ?case
  proof
    assume eq: "(resp, notifyRequestLocked cid (notifyTargetLocked (ciTargetNode input) (r1\<lparr>disk := d'\<rparr>)))
      = (WriteJSON 201 (ConnectionPayload c), r')"
    then have c: "c = connection" and d': "d' (path r1) = Some (StateFile (state r1))"
      using 3(12) by (auto simp: settled_def)
    from eq have r': "state r' = state r1" "disk r' = d'" "path r' = path r1" by auto
    have id: "crID c = cid" "crState c = ''queued''" "crSourceNode c = source" "crTargetNode c = ciTargetNode input"
      "crService c = ciService input" "crExpiresAt c = now + connectionTTL r"
      by (simp_all add: c conn queuedConnection_def)
    show ?stored
      unfolding r' frame id using 3(2-8) len pending d' c by (auto simp: rc_def)
  qed
qed simp_all

section \<open>How long a poll waits\<close>

text \<open>No poll waits longer than the server's maximum; a request for 1 to 9223372036 seconds waits
  that long or the maximum, but from 9223372037 seconds on the multiplication wraps around and
  the wait may come out negative, so that the poll is answered at once.\<close>

theorem wait_bounds:
  shows "boundedConnectionWait seconds r \<le> connectionWait r
    \<and> (1 \<le> seconds \<and> seconds \<le> 9223372036 \<longrightarrow>
        boundedConnectionWait seconds r = min (seconds * nsecond) (connectionWait r))
    \<and> (0 \<le> connectionWait r \<longrightarrow> boundedConnectionWait 9223372037 r < 0)"
proof (intro conjI impI)
  show "boundedConnectionWait seconds r \<le> connectionWait r" by (simp add: boundedConnectionWait_def Let_def)
  show "boundedConnectionWait seconds r = min (seconds * nsecond) (connectionWait r)"
    if "1 \<le> seconds \<and> seconds \<le> 9223372036"
    using that by (simp add: boundedConnectionWait_def nsecond_def min_def)
  show "boundedConnectionWait 9223372037 r < 0" if "0 \<le> connectionWait r"
    using that by (simp add: boundedConnectionWait_def nsecond_def int64_def)
qed

section \<open>Witnesses\<close>

definition cancelRequest :: httpRequest where
  "cancelRequest = sampleRequest ''/v1/connections/cancel'' ''99'' ''x''"

definition canceledRequest :: connectionRequest where
  "canceledRequest = settledConnection ''canceled'' 499 '''' (unixTime 100) webRequest"

lemma cancel_locked:
  assumes st: "state r = state queuedRegistry" and nonces: "\<forall>k expiry. mget (nonces r) k = Some expiry \<longrightarrow> unixTime 100 \<le> expiry"
  shows "\<exists>r'. cancelConnectionLocked brokerEnv (unixTime 100) ''n1'' \<lparr>idRequestID = sampleToken, idReason = ''''\<rparr> r
      = (WriteJSON 200 (ConnectionPayload canceledRequest), r') \<and> requestAt sampleToken r' = Some canceledRequest"
proof -
  have idle: "cleanupLocked brokerEnv (unixTime 100) r = (False, r)"
    by (rule cleanup_idle)
      (use nonces sample_nodes_idle [of registeredNode] sample_nodes_idle [of lanNode] in
        \<open>auto simp: st queuedRegistry_state go_simps webRequest_def queuedConnection_def limit_defs time_units
          split: if_splits\<close>)
  have web: "requestAt sampleToken r = Some webRequest" by (simp add: st queuedRegistry_state go_simps)
  define r3 where "r3 = settle brokerEnv ''n1'' canceledRequest r"
  have source: "crSourceNode webRequest = ''n1''" "crState webRequest = ''queued''" "crID canceledRequest = sampleToken"
    by (simp_all add: webRequest_def queuedConnection_def canceledRequest_def)
  have "cancelConnectionLocked brokerEnv (unixTime 100) ''n1'' \<lparr>idRequestID = sampleToken, idReason = ''''\<rparr> r
      = (WriteJSON 200 (ConnectionPayload canceledRequest), notifyRequestLocked (crID canceledRequest)
          (notifyTargetLocked (crTargetNode canceledRequest) (snd (persistLocked WroteFile r3))))"
    by (simp add: cancelConnectionLocked_def sweepAndPersist_def idle web source broker_writes Let_def
        canceledRequest_def [symmetric] r3_def)
  moreover have "requestAt sampleToken r3 = Some canceledRequest" by (simp add: r3_def source)
  ultimately show ?thesis by simp
qed

lemma cancel_sample:
  obtains r' where "cancelConnection brokerJson brokerEnv cancelRequest queuedRegistry = (WriteJSON 200 (ConnectionPayload canceledRequest), r')"
    and "requestAt sampleToken r' = Some canceledRequest"
proof -
  define r1 where "r1 = snd (authenticatedConnectionBody brokerJson brokerEnv cancelRequest queuedRegistry)"
  define v where "v = queuedRegistry\<lparr>nonces := mput ''x'' (unixTime 100 + 2 * nminute) (nonces queuedRegistry)\<rparr>"
  have rest: "nonces queuedRegistry = []" "rates queuedRegistry = []"
    "csAuthorized (state queuedRegistry) = csAuthorized (state pairRegistry)"
    by (simp_all add: queuedRegistry_create enqueue_sel)
  have p: "parseInt64 ''99'' = (99, None)" by code_simp
  have verify: "verifySignatureLocked brokerJson (unixTime 100) cancelRequest body sampleKey queuedRegistry = (True, v)" for body
    unfolding cancelRequest_def v_def
  proof (rule sampleVerify [OF _ p])
    show "ed25519Verify brokerJson = ed25519Verify sampleLib"
      by (simp add: brokerJson_def nodesJson_def enrollJson_def sampleJson_def lib.defs)
  qed (simp_all add: unixTime_def time_units rest)
  have env: "clock brokerEnv k = unixTime 100" for k by (simp add: brokerEnv_def busyEnv_def quietEnv_def)
  have req: "rqNode cancelRequest = ''n1''" "readBody cancelRequest = Some ''''"
    by (simp_all add: cancelRequest_def sampleRequest_def readBody_def)
  have key: "mget (csAuthorized (state queuedRegistry)) ''n1'' = Some \<lparr>auPublicKey = sampleKey\<rparr>"
    by (simp add: rest pairRegistry_def nodesRegistry_def go_simps)
  obtain rs where a: "snd (allowRequestLocked (''connection-node:'' @ ''n1'') (publicRequestsPerMinute * 5) (unixTime 100) v)
      = v\<lparr>rates := rs\<rparr>" by (rule allow_rates)
  have "fst (allowRequestLocked (''connection-node:'' @ ''n1'') (publicRequestsPerMinute * 5) (unixTime 100) v) = True"
    by (simp add: allowRequestLocked_def v_def rest mgetz_def Let_def publicRequestsPerMinute_def unixTime_def)
  with a have allow: "allowRequestLocked (''connection-node:'' @ ''n1'') (publicRequestsPerMinute * 5) (unixTime 100) v
      = (True, v\<lparr>rates := rs\<rparr>)" by (intro prod_eqI) (simp_all only: fst_conv snd_conv)
  define r2 where "r2 = v\<lparr>rates := rs\<rparr>"
  have auth: "authenticatedConnectionBody brokerJson brokerEnv cancelRequest queuedRegistry = (Inr ('''', ''n1''), r2)"
    unfolding authenticatedConnectionBody_def req option.case Let_def key authorizedNode.simps env verify prod.case bool.case
      allow r2_def ..
  have st: "state r2 = state queuedRegistry" and nonces: "\<forall>k expiry. mget (nonces r2) k = Some expiry \<longrightarrow> unixTime 100 \<le> expiry"
    by (auto simp: r2_def v_def rest go_simps time_units split: if_splits)
  obtain r' where c: "cancelConnectionLocked brokerEnv (unixTime 100) ''n1'' \<lparr>idRequestID = sampleToken, idReason = ''''\<rparr> r2
      = (WriteJSON 200 (ConnectionPayload canceledRequest), r')" "requestAt sampleToken r' = Some canceledRequest" using cancel_locked [OF st nonces] by blast
  have "sampleToken \<noteq> ''''" by (rule randomToken_nonempty [OF sample_token])
  moreover have "trimSpace '''' = ''''" by code_simp
  moreover have input: "jsonID brokerJson '''' = Some \<lparr>idRequestID = sampleToken, idReason = ''''\<rparr>" by (simp add: brokerJson_def)
  ultimately have "cancelConnection brokerJson brokerEnv cancelRequest queuedRegistry = (WriteJSON 200 (ConnectionPayload canceledRequest), r')"
    by (simp add: cancelConnection_def authenticatedThen_def auth cancelBody_def input maxConnectionReason_def env c)
  with c(2) that show thesis by blast
qed


text \<open>A stranger's request after the cancellation changes nothing.\<close>

definition canceledRegistry :: registry where
  "canceledRegistry = snd (cancelConnection brokerJson brokerEnv cancelRequest queuedRegistry)"

lemma canceledRegistry_facts:
  "server_inv brokerJson canceledRegistry" "requestAt sampleToken canceledRegistry = Some canceledRequest"
  "csAuthorized (state canceledRegistry) = csAuthorized (state pairRegistry)"
proof -
  have m: "moves brokerJson {} queuedRegistry canceledRegistry"
    unfolding canceledRegistry_def cancelConnection_def authenticatedThen_def
    by (rule moves_authenticated) (rule moves_cancelBody)
  then show "server_inv brokerJson canceledRegistry" by (rule server_inv_moves) (rule queuedRegistry_inv)
  from moves_authorized [OF m] show "csAuthorized (state canceledRegistry) = csAuthorized (state pairRegistry)"
    by (simp add: queuedRegistry_create(2) enqueue_sel)
  show "requestAt sampleToken canceledRegistry = Some canceledRequest"
    by (rule cancel_sample) (simp add: canceledRegistry_def)
qed


definition brokerInbox :: "roundResult \<times> registry" where
  "brokerInbox = inboxRound brokerEnv (unixTime 100) ''n2'' 0 32 queuedRegistry"

lemma queuedRegistry_quiet: "cleanupLocked brokerEnv (unixTime 100) queuedRegistry = (False, queuedRegistry)"
  by (rule cleanup_idle)
    (use sample_nodes_idle [of registeredNode] sample_nodes_idle [of lanNode] in
      \<open>auto simp: queuedRegistry_state queuedRegistry_create(3) go_simps webRequest_def queuedConnection_def limit_defs time_units
        split: if_splits\<close>)


theorem create_is_idempotent_witness:
  "\<exists>c' r'. sameRequest webRequest c' \<and> mget (csConnections (state r')) sampleToken = Some c'
    \<and> snd (createConnectionLocked brokerEnv (unixTime 100) ''n1'' webInput queuedRegistry) = r'"
proof -
  have "mget (csConnections (state queuedRegistry)) sampleToken = Some webRequest" by (simp add: queuedRegistry_state go_simps)
  from create_is_idempotent [OF queuedRegistry_inv this, where source = "''n1''" and input = webInput and now = "unixTime 100"
      and E = brokerEnv]
  show ?thesis by (auto simp: webRequest_def queuedConnection_def webInput_def time_units)
qed

theorem index_is_consistent_witness:
  "fst (createConnectionLocked brokerEnv (unixTime 100) ''n1'' webInput queuedRegistry) \<noteq> HttpError ''idempotency index is inconsistent'' 500"
  by (rule index_is_consistent [OF queuedRegistry_inv])

theorem created_is_stored_witness:
  "createConnectionLocked brokerEnv (unixTime 100) ''n1'' webInput pairRegistry = (WriteJSON 201 (ConnectionPayload webRequest), queuedRegistry)
   \<and> mget (csConnections (state queuedRegistry)) (crID webRequest) = Some webRequest
   \<and> disk queuedRegistry (path queuedRegistry) = Some (StateFile (state queuedRegistry))"
proof -
  have "freshDraw brokerEnv pairRegistry" by (simp add: freshDraw_def pairRegistry_rest)
  from created_is_stored [OF pairRegistry_inv this queuedRegistry_create(1)] queuedRegistry_create(1) show ?thesis by simp
qed

theorem wait_bounds_witness: "boundedConnectionWait 9223372037 sampleRegistry < 0 \<and> boundedConnectionWait 5 sampleRegistry = 5000000000"
  using wait_bounds [of 5 sampleRegistry]
  by (simp add: sampleRegistry_def freshRegistry_def connectionWaitMaximum_def time_units)

end
