(* ===== verification/Long_Poll.thy ===== *)
theory Long_Poll
  imports Broker
begin

text \<open>
  The two long polls (\<open>waitConnectionInbox\<close> and \<open>connectionStatus\<close> of
  src/internal/app/connection_server.go) as tasks beside the registry: between its rounds a task is
  parked on a wake-up channel, without the lock, while every other handler runs. A task wakes when
  its channel is closed, or gives up at its deadline or when its client is gone.
\<close>

section \<open>Tasks\<close>

datatype task =
    InboxReady gostring uint64 int
  | InboxParked gostring uint64 int nat
  | InboxLeaving gostring
  | StatusReady gostring connectionStatusWaitInput
  | StatusParked gostring connectionStatusWaitInput nat

primrec claimOf :: "task \<Rightarrow> gostring list" where
  "claimOf (InboxReady n after limit) = [n]"
| "claimOf (InboxParked n after limit ch) = [n]"
| "claimOf (InboxLeaving n) = [n]"
| "claimOf (StatusReady n input) = []"
| "claimOf (StatusParked n input ch) = []"

definition claimed :: "task list \<Rightarrow> gostring list" where
  "claimed ts = concat (map claimOf ts)"

lemma claimed_simps [simp]: "claimed [] = []" "claimed (t # ts) = claimOf t @ claimed ts" "claimed (xs @ ys) = claimed xs @ claimed ys"
  by (simp_all add: claimed_def)

section \<open>Steps\<close>

text \<open>
  Every other section of the server runs between the tasks' steps. \<open>waits\<close> starts an inbox wait
  (or refuses it), a round either parks the task or answers and leaves the deferred release to a
  step of its own.
\<close>

inductive poll_step :: "'z json_scheme \<Rightarrow> registry \<times> task list \<Rightarrow> registry \<times> task list \<Rightarrow> bool" for L where
  other: "serves L {Administers, Creates} r r' \<Longrightarrow> poll_step L (r, ts) (r', ts)"
| waits: "inboxBegin L body n r = (Inr (wait, after, limit), r') \<Longrightarrow>
    poll_step L (r, ts) (r', InboxReady n after limit # ts)"
| refused: "inboxBegin L body n r = (Inl err, r') \<Longrightarrow> poll_step L (r, ts) (r', ts)"
| inbox_parks: "inboxRound E now n after limit r = (Parked ch resp, r') \<Longrightarrow>
    poll_step L (r, xs @ InboxReady n after limit # ys) (r', xs @ InboxParked n after limit ch # ys)"
| inbox_answers: "inboxRound E now n after limit r = (Answered resp, r') \<Longrightarrow>
    poll_step L (r, xs @ InboxReady n after limit # ys) (r', xs @ InboxLeaving n # ys)"
| inbox_wakes: "ch \<in> set (closedChans r) \<Longrightarrow>
    poll_step L (r, xs @ InboxParked n after limit ch # ys) (r, xs @ InboxReady n after limit # ys)"
| inbox_ends: "poll_step L (r, xs @ InboxParked n after limit ch # ys) (r, xs @ InboxLeaving n # ys)"
| leaves: "poll_step L (r, xs @ InboxLeaving n # ys) (releaseInbox n r, xs @ ys)"
| asks: "poll_step L (r, ts) (r, StatusReady n input # ts)"
| status_parks: "statusRound E now n True input r = (Parked ch resp, r') \<Longrightarrow>
    poll_step L (r, xs @ StatusReady n input # ys) (r', xs @ StatusParked n input ch # ys)"
| status_answers: "statusRound E now n True input r = (Answered resp, r') \<Longrightarrow>
    poll_step L (r, xs @ StatusReady n input # ys) (r', xs @ ys)"
| status_wakes: "ch \<in> set (closedChans r) \<Longrightarrow>
    poll_step L (r, xs @ StatusParked n input ch # ys) (r, xs @ StatusReady n input # ys)"
| status_ends: "poll_step L (r, xs @ StatusParked n input ch # ys) (r, xs @ ys)"
| restart: "starts (disk r) (path r) r' \<Longrightarrow> poll_step L (r, ts) (r', [])"

text \<open>A coordinator without tasks, in any state its invariant allows (every reachable one).\<close>

definition poll_init :: "'z lib_scheme \<Rightarrow> registry \<times> task list \<Rightarrow> bool" where
  "poll_init L s \<longleftrightarrow> server_inv L (fst s) \<and> inboxWaiters (fst s) = [] \<and> snd s = []"

section \<open>The invariant\<close>

definition queuedAfter :: "registry \<Rightarrow> gostring \<Rightarrow> uint64 \<Rightarrow> bool" where
  "queuedAfter r n after \<longleftrightarrow> (\<exists>k c. mget (csConnections (state r)) k = Some c \<and> crTargetNode c = n
     \<and> crState c = ''queued'' \<and> after < crCursor c)"

primrec task_ok :: "registry \<Rightarrow> task \<Rightarrow> bool" where
  "task_ok r (InboxReady n after limit) \<longleftrightarrow> 0 < limit"
| "task_ok r (InboxParked n after limit ch) \<longleftrightarrow> 0 < limit \<and> (ch \<in> set (closedChans r)
     \<or> mget (connectionSignals r) n = Some ch \<and> \<not> queuedAfter r n after)"
| "task_ok r (InboxLeaving n) \<longleftrightarrow> True"
| "task_ok r (StatusReady n input) \<longleftrightarrow> True"
| "task_ok r (StatusParked n input ch) \<longleftrightarrow> (ch \<in> set (closedChans r)
     \<or> mget (requestSignals r) (swRequestID input) = Some ch
       \<and> requestState r (swRequestID input) = Some (swKnownState input))"

definition claims_ok :: "registry \<Rightarrow> task list \<Rightarrow> bool" where
  "claims_ok r ts \<longleftrightarrow> distinct (claimed ts) \<and> (\<forall>n. mgetz False (inboxWaiters r) n \<longleftrightarrow> n \<in> set (claimed ts))"

definition poll_inv :: "'z lib_scheme \<Rightarrow> registry \<times> task list \<Rightarrow> bool" where
  "poll_inv L s \<longleftrightarrow> server_inv L (fst s) \<and> (\<forall>t \<in> set (snd s). task_ok (fst s) t) \<and> claims_ok (fst s) (snd s)"

text \<open>Closing or keeping a waiter's channel, as every move does, keeps a parked task sound.\<close>

lemma task_ok_wakes:
  assumes "wakes r r'" and "task_ok r t"
  shows "task_ok r' t"
proof (cases t)
  case (InboxParked n after limit ch)
  show ?thesis
  proof (cases "ch \<in> set (closedChans r')")
    case False
    with assms InboxParked have s: "mget (connectionSignals r) n = Some ch" "\<not> queuedAfter r n after"
      by (auto simp: wakes_def)
    with assms(1) False have s': "mget (connectionSignals r') n = Some ch" "\<not> queueGrew r r' n"
      by (auto simp: wakes_def)
    have "\<not> queuedAfter r' n after"
      using s(2) s'(2) unfolding queuedAfter_def queueGrew_def by metis
    with s' assms(2) InboxParked show ?thesis by simp
  qed (use assms(2) InboxParked in simp)
next
  case (StatusParked n input ch)
  show ?thesis
  proof (cases "ch \<in> set (closedChans r')")
    case False
    with assms StatusParked have s: "mget (requestSignals r) (swRequestID input) = Some ch"
      "requestState r (swRequestID input) = Some (swKnownState input)" by (auto simp: wakes_def)
    with assms(1) False have "mget (requestSignals r') (swRequestID input) = Some ch
        \<and> requestState r' (swRequestID input) = requestState r (swRequestID input)"
      unfolding wakes_def by blast
    with s StatusParked show ?thesis by simp
  qed (use StatusParked in simp)
qed (use assms(2) in simp_all)

lemma moves_wakes:
  assumes "moves L ps r r'" and "server_inv L r"
  shows "wakes r r'"
  using assms(1)
proof (induction rule: rtranclp_induct)
  case (step s t)
  have s: "server_inv L s" using step.hyps(1) assms(2) by (rule server_inv_moves)
  then have "signal_step s t" using step.hyps(2) by (intro signal_step_move server_invD)
  then have "wakes s t" using s by (simp add: signal_step_def server_inv_def)
  with step.IH show ?case by (rule wakes_trans)
qed (rule wakes_refl)

lemma move_waiters:
  assumes "move L ps r r'" and "Polls \<notin> ps"
  shows "inboxWaiters r' = inboxWaiters r"
  using assms(1)
proof (cases rule: move.cases)
  case (settles k c st code nodeID reason c' now r1 E r2)
  then show ?thesis by (auto simp: settle_def)
next
  case (revokes req nodeID E)
  have "inboxWaiters (revokePending E nodeID k r) = inboxWaiters r" for k r
    by (simp add: revokePending_def split: option.split)
  then show ?thesis by (simp add: revokes revoked_def fold_same [where f = inboxWaiters] dropCredential_def)
next
  case (admits n authorized now input E req)
  have "inboxWaiters (completeEnrollment E req n (auPublicKey authorized) now k r) = inboxWaiters r" for k r
    by (simp add: completeEnrollment_def split: option.split)
  then show ?thesis by (simp add: admits completed_def fold_same [where f = inboxWaiters] storeNode_def)
next
  case (delivers events E nodeID after limit now)
  have "inboxWaiters (deliverEvent now c r) = inboxWaiters r" for c r by (simp add: deliverEvent_def)
  then show ?thesis by (simp add: delivers fold_same [where f = inboxWaiters])
qed (use assms(2) in \<open>simp_all add: addPending_def approvePending_def rejectPending_def Let_def enqueueConnection_def\<close>)

lemma moves_waiters: "moves L ps r r' \<Longrightarrow> Polls \<notin> ps \<Longrightarrow> inboxWaiters r' = inboxWaiters r"
  by (induction rule: rtranclp_induct) (simp_all add: move_waiters)

lemma poll_inv_moves:
  assumes "poll_inv L (r, ts)" and "moves L ps r r'"
  shows "server_inv L r'" and "\<forall>t \<in> set ts. task_ok r' t" and "Polls \<notin> ps \<Longrightarrow> claims_ok r' ts"
proof -
  from assms(1) have inv: "server_inv L r" "\<forall>t \<in> set ts. task_ok r t" "claims_ok r ts" by (simp_all add: poll_inv_def)
  show "server_inv L r'" using assms(2) inv(1) by (rule server_inv_moves)
  from moves_wakes [OF assms(2) inv(1)] inv(2) show "\<forall>t \<in> set ts. task_ok r' t" by (blast intro: task_ok_wakes)
  show "Polls \<notin> ps \<Longrightarrow> claims_ok r' ts"
    using inv(3) moves_waiters [OF assms(2)] by (simp add: claims_ok_def)
qed

text \<open>What a round knows when it parks.\<close>

lemma pendingEvents_empty:
  assumes "pendingEventsLocked E n after limit (state r) = []" and "0 < limit"
  shows "\<not> queuedAfter r n after"
proof
  let ?all = "filter (\<lambda>c. crTargetNode c = n \<and> crState c = ''queued'' \<and> after < crCursor c)
    (rangeVals (visit E 6) (csConnections (state r)))"
  assume "queuedAfter r n after"
  then have "?all \<noteq> []" by (auto simp: queuedAfter_def filter_empty_conv set_rangeVals)
  then have "sortBy crCursor ?all \<noteq> []" using set_sortBy [of crCursor ?all] by (simp only: flip: set_empty) simp
  with assms show False by (simp add: pendingEventsLocked_def Let_def split: if_splits)
qed

lemma inbox_parked:
  assumes "inboxRound E now n after limit r = (Parked ch resp, r')" and "0 < limit"
  shows "mget (connectionSignals r') n = Some ch \<and> \<not> queuedAfter r' n after"
proof (rule inboxRound_cases [where P = "\<lambda>x. x = (Parked ch resp, r') \<longrightarrow> mget (connectionSignals r') n = Some ch
      \<and> \<not> queuedAfter r' n after", THEN mp, OF _ _ assms(1)], goal_cases)
  case (2 signal r1 d res)
  have "\<not> queuedAfter (snd (cleanupLocked E now r)) n after" by (rule pendingEvents_empty [OF 2(1) assms(2)])
  moreover have "state r1 = state (snd (cleanupLocked E now r))" "mget (connectionSignals r1) n = Some signal"
    using 2(2) by (auto simp: targetSignalLocked_def split: option.splits)
  ultimately have parked: "mget (connectionSignals r1) n = Some signal" "\<not> queuedAfter r1 n after"
    by (simp_all add: queuedAfter_def)
  show ?case
  proof
    assume "(res, r1\<lparr>disk := d\<rparr>) = (Parked ch resp, r')"
    with 2(3) have "ch = signal" "r' = r1\<lparr>disk := d\<rparr>" by auto
    with parked show "mget (connectionSignals r') n = Some ch \<and> \<not> queuedAfter r' n after"
      by (simp add: queuedAfter_def)
  qed
qed simp

lemma status_parked:
  fixes L :: "'z json_scheme"
  assumes "statusRound E now n wait input r = (Parked ch resp, r')" and "server_inv L r"
  shows "mget (requestSignals r') (swRequestID input) = Some ch \<and> requestState r' (swRequestID input) = Some (swKnownState input)"
proof (rule statusRound_cases [where P = "\<lambda>x. x = (Parked ch resp, r') \<longrightarrow> mget (requestSignals r') (swRequestID input) = Some ch
      \<and> requestState r' (swRequestID input) = Some (swKnownState input)", THEN mp, OF _ _ _ assms(1)], goal_cases)
  case (3 c signal r1 d res)
  have "connection_ok (swRequestID input) c"
    using connections_okD(1) [OF server_invD(1) [OF server_inv_cleanup [OF assms(2)]] 3(1)] .
  then have id: "crID c = swRequestID input" by (simp add: connection_ok_def)
  have "state r1 = state (snd (cleanupLocked E now r))" "mget (requestSignals r1) (crID c) = Some signal"
    using 3(6) by (auto simp: requestSignalLocked_def split: option.splits)
  then have parked: "mget (requestSignals r1) (swRequestID input) = Some signal"
    "requestState r1 (swRequestID input) = Some (swKnownState input)"
    using 3(1,4) id by (simp_all add: requestState_def)
  show ?case
  proof
    assume "(res, r1\<lparr>disk := d\<rparr>) = (Parked ch resp, r')"
    with 3(7) have "ch = signal" "r' = r1\<lparr>disk := d\<rparr>" by auto
    with parked show "mget (requestSignals r') (swRequestID input) = Some ch
      \<and> requestState r' (swRequestID input) = Some (swKnownState input)"
      by (simp add: requestState_def)
  qed
qed simp_all

lemma claim_begin:
  assumes "inboxBegin L body n r = (Inr (wait, after, limit), r')" and "claims_ok r ts"
  shows "claims_ok r' (InboxReady n after limit # ts)" and "0 < limit"
proof -
  from assms(1) have r': "\<not> mgetz False (inboxWaiters r) n" "r' = r\<lparr>inboxWaiters := mput n True (inboxWaiters r)\<rparr>"
    by (auto simp: inboxBegin_def claimInbox_def Let_def split: option.splits if_splits)
  with assms(2) show "claims_ok r' (InboxReady n after limit # ts)" by (auto simp: claims_ok_def mgetz_def)
  from assms(1) show "0 < limit"
    by (auto simp: inboxBegin_def claimInbox_def boundedMaxEvents_def maxInboxEvents_def Let_def split: option.splits if_splits)
qed

lemma claim_refused: "inboxBegin L body n r = (Inl err, r') \<Longrightarrow> r' = r"
  by (auto simp: inboxBegin_def claimInbox_def Let_def split: option.splits if_splits)

lemma claims_replace:
  "claimOf t = claimOf t' \<Longrightarrow> claims_ok r (xs @ t # ys) = claims_ok r (xs @ t' # ys)"
  by (simp add: claims_ok_def)

lemma starts_waiters: "starts files p r \<Longrightarrow> inboxWaiters r = []"
proof -
  have "newRegistry files p token net = Inr r0 \<Longrightarrow> inboxWaiters r0 = []" for token net r0
    by (auto simp: newRegistry_def freshRegistry_def Let_def split: option.splits stateFile.splits)
  then show "starts files p r \<Longrightarrow> inboxWaiters r = []" unfolding starts_def by auto
qed

lemma poll_inv_step:
  fixes L :: "'z json_scheme"
  assumes "poll_step L s s'" and "poll_inv L s"
  shows "poll_inv L s'"
  using assms
proof (induction rule: poll_step.induct)
  case (other r r' ts)
  from poll_inv_moves [OF other(2) serves_moves [OF other(1)]] show ?case by (simp add: poll_inv_def)
next
  case (waits body n r wait after limit r' ts)
  have "moves L {Polls} r r'" using moves_inboxBegin [of "{Polls}" L r body n] waits(1) by simp
  from poll_inv_moves [OF waits(2) this] claim_begin [OF waits(1)] waits(2) show ?case by (auto simp: poll_inv_def)
next
  case (refused body n r err r' ts)
  with claim_refused [OF refused(1)] show ?case by simp
next
  case (inbox_parks E now n after limit r ch resp r' xs ys)
  have limit: "0 < limit" using inbox_parks(2) by (simp add: poll_inv_def)
  have "moves L {} r r'" using moves_inboxRound [of limit L "{}" r E now n after] inbox_parks(1) limit by simp
  from poll_inv_moves [OF inbox_parks(2) this] inbox_parked [OF inbox_parks(1) limit] limit
    claims_replace [of "InboxReady n after limit" "InboxParked n after limit ch" r' xs ys]
  show ?case by (auto simp: poll_inv_def)
next
  case (inbox_answers E now n after limit r resp r' xs ys)
  have limit: "0 < limit" using inbox_answers(2) by (simp add: poll_inv_def)
  have "moves L {} r r'" using moves_inboxRound [of limit L "{}" r E now n after] inbox_answers(1) limit by simp
  from poll_inv_moves [OF inbox_answers(2) this] claims_replace [of "InboxReady n after limit" "InboxLeaving n" r' xs ys]
  show ?case by (auto simp: poll_inv_def)
next
  case (inbox_wakes ch r xs n after limit ys)
  then show ?case
    using claims_replace [of "InboxParked n after limit ch" "InboxReady n after limit" r xs ys] by (auto simp: poll_inv_def)
next
  case (inbox_ends r xs n after limit ch ys)
  then show ?case
    using claims_replace [of "InboxParked n after limit ch" "InboxLeaving n" r xs ys] by (auto simp: poll_inv_def)
next
  case (leaves r xs n ys)
  have "moves L {Polls} r (releaseInbox n r)" by (rule moves1, rule releases) simp
  note m = poll_inv_moves [OF leaves this]
  have "claims_ok (releaseInbox n r) (xs @ ys)"
    using leaves by (auto simp: poll_inv_def claims_ok_def releaseInbox_def mgetz_def)
  with m show ?case by (simp add: poll_inv_def)
next
  case (asks r ts n input)
  then show ?case by (simp add: poll_inv_def claims_ok_def)
next
  case (status_parks E now n input r ch resp r' xs ys)
  have "moves L {} r r'" using moves_statusRound [of L "{}" r E now n True input] status_parks(1) by simp
  from poll_inv_moves [OF status_parks(2) this] status_parked [OF status_parks(1), of L]
    claims_replace [of "StatusReady n input" "StatusParked n input ch" r' xs ys] status_parks(2)
  show ?case by (auto simp: poll_inv_def)
next
  case (status_answers E now n input r resp r' xs ys)
  have "moves L {} r r'" using moves_statusRound [of L "{}" r E now n True input] status_answers(1) by simp
  from poll_inv_moves [OF status_answers(2) this] show ?case by (auto simp: poll_inv_def claims_ok_def)
next
  case (status_wakes ch r xs n input ys)
  then show ?case
    using claims_replace [of "StatusParked n input ch" "StatusReady n input" r xs ys] by (auto simp: poll_inv_def)
next
  case (status_ends r xs n input ch ys)
  then show ?case by (auto simp: poll_inv_def claims_ok_def)
next
  case (restart r r' ts)
  have "server_inv L r'"
    by (rule server_inv_starts [OF restart(1)]) (use restart(2) in \<open>simp add: poll_inv_def server_inv_def files_ok_def\<close>)
  with starts_waiters [OF restart(1)] show ?case by (simp add: poll_inv_def claims_ok_def mgetz_def)
qed

interpretation long_polls: inductive_invariant "poll_init L" "poll_step L" "poll_inv L"
proof
  show "poll_inv L s" if "poll_init L s" for s
    using that by (cases s) (simp add: poll_init_def poll_inv_def claims_ok_def mgetz_def)
qed (rule poll_inv_step)

section \<open>What a poll can rely on\<close>

text \<open>C12: No wake-up of an inbox wait is lost: whenever a wait is parked while a newer request is
  queued for its node, its channel has been closed and it can run again. However requests, sweeps,
  decisions and other polls are interleaved, no request waits for a wait that sleeps.\<close>

theorem no_lost_inbox_wakeup:
  assumes "reach (poll_init L) (poll_step L) (r, ts)" and "InboxParked n after limit ch \<in> set ts"
    and "mget (csConnections (state r)) k = Some c" and "crTargetNode c = n" "crState c = ''queued''" "after < crCursor c"
  shows "ch \<in> set (closedChans r)"
proof -
  have "task_ok r (InboxParked n after limit ch)"
    using long_polls.reach_inv [OF assms(1)] assms(2) by (auto simp: poll_inv_def)
  with assms(3-6) show ?thesis by (auto simp: queuedAfter_def)
qed

text \<open>No wake-up of a status wait is lost: whenever a status wait is parked and the request is in
  another state than the one the client knows, or is gone, its channel has been closed; also when
  the sweep removed the request and its entry in the channel table.\<close>

theorem no_lost_status_wakeup:
  assumes "reach (poll_init L) (poll_step L) (r, ts)" and "StatusParked n input ch \<in> set ts"
    and "\<forall>c. mget (csConnections (state r)) (swRequestID input) = Some c \<longrightarrow> crState c \<noteq> swKnownState input"
  shows "ch \<in> set (closedChans r)"
proof -
  have "task_ok r (StatusParked n input ch)"
    using long_polls.reach_inv [OF assms(1)] assms(2) by (auto simp: poll_inv_def)
  with assms(3) show ?thesis by (auto simp: requestState_def)
qed

text \<open>At most one inbox wait per node exists at a time, and a node is marked as waiting exactly
  while it has one: the mark is neither lost while the wait sleeps nor left behind when it ends.\<close>

theorem one_wait_per_node:
  assumes "reach (poll_init L) (poll_step L) (r, ts)"
  shows "distinct (claimed ts) \<and> (mgetz False (inboxWaiters r) n = (n \<in> set (claimed ts)))"
  using long_polls.reach_inv [OF assms] by (auto simp: poll_inv_def claims_ok_def)

section \<open>Witnesses\<close>

text \<open>Node n2 waits on its empty inbox; node n1 then creates a request for it.\<close>

definition claimedPair :: registry where
  "claimedPair = pairRegistry\<lparr>inboxWaiters := mput ''n2'' True []\<rparr>"

definition parkedPair :: registry where
  "parkedPair = snd (inboxRound brokerEnv (unixTime 100) ''n2'' 0 32 claimedPair)"

definition wokenPair :: registry where
  "wokenPair = snd (createConnectionBody brokerJson brokerEnv '''' ''n1'' parkedPair)"

lemma pair_waiters: "inboxWaiters pairRegistry = []"
  by (simp add: pairRegistry_def nodesRegistry_def sampleRegistry_def freshRegistry_def)

lemma pair_begins: "inboxBegin brokerJson '''' ''n2'' pairRegistry = (Inr (25 * nsecond, 0, 32), claimedPair)"
  by (simp add: inboxBegin_def brokerJson_def claimInbox_def pair_waiters mgetz_def claimedPair_def boundedMaxEvents_def
      maxInboxEvents_def boundedConnectionWait_def pairRegistry_def nodesRegistry_def sampleRegistry_def freshRegistry_def
      int64_def connectionWaitMaximum_def time_units)

lemma claimed_reach:
  "reach (poll_init brokerJson) (poll_step brokerJson) (claimedPair, [InboxReady ''n2'' 0 32])"
proof (rule reach_step)
  show "reach (poll_init brokerJson) (poll_step brokerJson) (pairRegistry, [])"
    by (rule reach_init) (simp add: poll_init_def pairRegistry_inv pair_waiters)
  show "poll_step brokerJson (pairRegistry, []) (claimedPair, [InboxReady ''n2'' 0 32])"
    by (rule waits) (rule pair_begins)
qed

lemma pair_parks:
  obtains ch resp where "inboxRound brokerEnv (unixTime 100) ''n2'' 0 32 claimedPair = (Parked ch resp, parkedPair)"
    and "state parkedPair = state pairRegistry" "nonces parkedPair = []"
    and "connectionMax parkedPair = maxConnectionRequests" "connectionTTL parkedPair = connectionRequestLifetime"
proof -
  have quiet: "cleanupLocked brokerEnv (unixTime 100) claimedPair = (False, claimedPair)"
    by (rule pair_idle) (simp_all add: claimedPair_def pairRegistry_rest)
  have none: "pendingEventsLocked brokerEnv ''n2'' 0 32 (state claimedPair) = []"
    by (simp add: pendingEventsLocked_def claimedPair_def pairRegistry_rest rangeVals_def sortBy_def brokerEnv_def busyEnv_def quietEnv_def)
  obtain ch r1 where signal: "targetSignalLocked ''n2'' claimedPair = (ch, r1)" by (cases "targetSignalLocked ''n2'' claimedPair")
  then have r1: "state r1 = state pairRegistry" "nonces r1 = []" "connectionMax r1 = maxConnectionRequests"
      "connectionTTL r1 = connectionRequestLifetime"
    by (auto simp: targetSignalLocked_def claimedPair_def pairRegistry_rest split: option.splits)
  have "inboxRound brokerEnv (unixTime 100) ''n2'' 0 32 claimedPair = (Parked ch (WriteJSON 200 (InboxPayload 0 [])), r1)"
    by (simp add: inboxRound_def quiet none signal r1 pairRegistry_rest mgetz_def)
  then show thesis using that r1 by (simp add: parkedPair_def)
qed

lemma parked_reach:
  obtains ch where "reach (poll_init brokerJson) (poll_step brokerJson) (wokenPair, [InboxParked ''n2'' 0 32 ch])"
proof (rule pair_parks)
  fix ch resp
  assume round: "inboxRound brokerEnv (unixTime 100) ''n2'' 0 32 claimedPair = (Parked ch resp, parkedPair)"
    and st: "state parkedPair = state pairRegistry"
  have "poll_step brokerJson (claimedPair, [InboxReady ''n2'' 0 32]) (parkedPair, [InboxParked ''n2'' 0 32 ch])"
    using inbox_parks [OF round, where xs = "[]" and ys = "[]"] by simp
  with claimed_reach have "reach (poll_init brokerJson) (poll_step brokerJson) (parkedPair, [InboxParked ''n2'' 0 32 ch])"
    by (rule reach_step)
  moreover have "freshDraw brokerEnv parkedPair" by (simp add: freshDraw_def st pairRegistry_rest)
  then have "poll_step brokerJson (parkedPair, [InboxParked ''n2'' 0 32 ch]) (wokenPair, [InboxParked ''n2'' 0 32 ch])"
    unfolding wokenPair_def by (intro other creates) simp_all
  ultimately show thesis using that by (blast intro: reach_step)
qed

lemma woken_request: "requestAt sampleToken wokenPair = Some webRequest"
proof (rule pair_parks)
  fix ch resp
  assume st: "state parkedPair = state pairRegistry" and rest: "nonces parkedPair = []"
    "connectionMax parkedPair = maxConnectionRequests" "connectionTTL parkedPair = connectionRequestLifetime"
  have "state wokenPair = state (snd (enqueueConnection brokerEnv (unixTime 100) ''n1'' webInput sampleToken parkedPair))"
    using pair_create [OF st rest]
    by (simp add: wokenPair_def createConnectionBody_def brokerJson_def webInput_def brokerEnv_def busyEnv_def quietEnv_def)
  then show ?thesis using st rest
    by (simp add: enqueue_sel pairRegistry_rest mgetz_def webInput_def webRequest_def go_simps)
qed

theorem no_lost_inbox_wakeup_witness:
  "\<exists>ch \<in> set (closedChans wokenPair). reach (poll_init brokerJson) (poll_step brokerJson) (wokenPair, [InboxParked ''n2'' 0 32 ch])"
proof -
  obtain ch where ch: "reach (poll_init brokerJson) (poll_step brokerJson) (wokenPair, [InboxParked ''n2'' 0 32 ch])"
    by (rule parked_reach)
  have "crTargetNode webRequest = ''n2''" "crState webRequest = ''queued''" "0 < crCursor webRequest"
    by (simp_all add: webRequest_def queuedConnection_def webInput_def)
  from no_lost_inbox_wakeup [OF ch _ woken_request this] ch show ?thesis by (intro bexI [of _ ch]) simp_all
qed

theorem one_wait_per_node_witness: "mgetz False (inboxWaiters claimedPair) ''n2''"
  using one_wait_per_node [OF claimed_reach, of "''n2''"] by simp

text \<open>Node n1 follows its queued request, and cancels it.\<close>

definition webStatus :: connectionStatusWaitInput where
  "webStatus = \<lparr>swRequestID = sampleToken, swKnownState = ''queued'', swWaitSeconds = 30\<rparr>"

definition followedRegistry :: registry where
  "followedRegistry = snd (statusRound brokerEnv (unixTime 100) ''n1'' True webStatus queuedRegistry)"

definition settledRegistry :: registry where
  "settledRegistry = snd (cancelBody brokerJson brokerEnv '''' ''n1'' followedRegistry)"

lemma follow_parks:
  obtains ch resp where "statusRound brokerEnv (unixTime 100) ''n1'' True webStatus queuedRegistry = (Parked ch resp, followedRegistry)"
    and "state followedRegistry = state queuedRegistry" "nonces followedRegistry = []"
proof -
  have web: "crSourceNode webRequest = ''n1''" "crState webRequest = ''queued''" "crID webRequest = sampleToken"
    by (simp_all add: webRequest_def queuedConnection_def)
  have at: "requestAt sampleToken queuedRegistry = Some webRequest" by (simp add: queuedRegistry_state go_simps)
  obtain ch r1 where signal: "requestSignalLocked sampleToken queuedRegistry = (ch, r1)"
    by (cases "requestSignalLocked sampleToken queuedRegistry")
  then have r1: "state r1 = state queuedRegistry" "nonces r1 = []"
    by (auto simp: requestSignalLocked_def queuedRegistry_create split: option.splits)
  have "statusRound brokerEnv (unixTime 100) ''n1'' True webStatus queuedRegistry
      = (Parked ch (WriteJSON 200 (ConnectionPayload webRequest)), r1)"
    by (simp add: statusRound_def queuedRegistry_quiet at web webStatus_def connectionTerminal_def signal)
  then show thesis using that r1 by (simp add: followedRegistry_def)
qed

lemma followed_reach:
  obtains ch where "reach (poll_init brokerJson) (poll_step brokerJson) (settledRegistry, [StatusParked ''n1'' webStatus ch])"
proof (rule follow_parks)
  fix ch resp
  assume round: "statusRound brokerEnv (unixTime 100) ''n1'' True webStatus queuedRegistry = (Parked ch resp, followedRegistry)"
  have "reach (poll_init brokerJson) (poll_step brokerJson) (queuedRegistry, [])"
    by (rule reach_init) (simp add: poll_init_def queuedRegistry_inv queuedRegistry_create(6))
  then have "reach (poll_init brokerJson) (poll_step brokerJson) (queuedRegistry, [StatusReady ''n1'' webStatus])"
    by (rule reach_step) (rule asks)
  moreover have "poll_step brokerJson (queuedRegistry, [StatusReady ''n1'' webStatus]) (followedRegistry, [StatusParked ''n1'' webStatus ch])"
    using status_parks [OF round, where xs = "[]" and ys = "[]"] by simp
  ultimately have "reach (poll_init brokerJson) (poll_step brokerJson) (followedRegistry, [StatusParked ''n1'' webStatus ch])"
    by (rule reach_step)
  moreover have "poll_step brokerJson (followedRegistry, [StatusParked ''n1'' webStatus ch]) (settledRegistry, [StatusParked ''n1'' webStatus ch])"
    unfolding settledRegistry_def by (intro other cancels)
  ultimately show thesis using that by (blast intro: reach_step)
qed

lemma settled_request: "requestAt sampleToken settledRegistry = Some canceledRequest"
proof (rule follow_parks)
  assume st: "state followedRegistry = state queuedRegistry" and "nonces followedRegistry = []"
  then have "\<forall>k expiry. mget (nonces followedRegistry) k = Some expiry \<longrightarrow> unixTime 100 \<le> expiry" by simp
  from cancel_locked [OF st this] obtain r' where
    c: "cancelConnectionLocked brokerEnv (unixTime 100) ''n1'' \<lparr>idRequestID = sampleToken, idReason = ''''\<rparr> followedRegistry
      = (WriteJSON 200 (ConnectionPayload canceledRequest), r')" "requestAt sampleToken r' = Some canceledRequest" by blast
  have "sampleToken \<noteq> ''''" by (rule randomToken_nonempty [OF sample_token])
  moreover have "trimSpace '''' = ''''" by code_simp
  moreover have "jsonID brokerJson '''' = Some \<lparr>idRequestID = sampleToken, idReason = ''''\<rparr>" by (simp add: brokerJson_def)
  moreover have "clock brokerEnv 2 = unixTime 100" by (simp add: brokerEnv_def busyEnv_def quietEnv_def)
  ultimately show ?thesis using c by (simp add: settledRegistry_def cancelBody_def maxConnectionReason_def)
qed

theorem no_lost_status_wakeup_witness:
  "\<exists>ch \<in> set (closedChans settledRegistry).
     reach (poll_init brokerJson) (poll_step brokerJson) (settledRegistry, [StatusParked ''n1'' webStatus ch])"
proof -
  obtain ch where ch: "reach (poll_init brokerJson) (poll_step brokerJson) (settledRegistry, [StatusParked ''n1'' webStatus ch])"
    by (rule followed_reach)
  have "requestAt (swRequestID webStatus) settledRegistry = Some canceledRequest" "crState canceledRequest \<noteq> swKnownState webStatus"
    using settled_request by (simp_all add: webStatus_def canceledRequest_def)
  with no_lost_status_wakeup [OF ch, where n = "''n1''" and input = webStatus and ch = ch] ch
  show ?thesis by (intro bexI [of _ ch]) simp_all
qed

end
