(* ===== verification/Profile.thy ===== *)
theory Profile
  imports CoordTypes
begin

text \<open>
  The configuration of a node (src/internal/app/profile.go, the node side of coordinator_types.go)
  and its files: what reading one gives (\<open>loadProfile\<close>), and the write to a temporary file that
  is renamed into place (\<open>saveProfile\<close> and every other file a node keeps).
\<close>

section \<open>Records\<close>

record mapping =
  mpName :: gostring
  mpKind :: gostring
  mpListen :: gostring
  mpTarget :: gostring
  mpTargetNode :: gostring
  mpService :: gostring
  mpUpstream :: gostring
  mpUUID :: gostring
  mpUpstreamUUID :: gostring
  mpCertificate :: gostring
  mpKey :: gostring
  mpPinnedSHA256 :: gostring
  mpCertificateSHA256 :: gostring

record nodeConfig =
  nfID :: gostring
  nfName :: gostring

record coordinatorClient =
  ccURL :: gostring
  ccPinnedSHA256 :: gostring
  ccCredential :: "nodeCredential option"
  ccEnrollment :: "enrollmentState option"

record coordinatorServer =
  svrListen :: gostring
  svrAdminListen :: gostring
  svrAdminToken :: gostring
  svrCertificate :: gostring
  svrKey :: gostring
  svrPinnedSHA256 :: gostring
  svrConnectionWaitSeconds :: int
  svrConnectionRequestTTLSeconds :: int
  svrConnectionOfferLeaseSeconds :: int
  svrConnectionMaxPending :: int

record relayConfig =
  rcListen :: gostring
  rcEndpoint :: gostring
  rcPriority :: int
  rcCertificate :: gostring
  rcKey :: gostring
  rcPinnedSHA256 :: gostring
  rcAdmissionTokenHash :: gostring

record subnodeConfig =
  scRelayNodeID :: gostring
  scRelayEndpoint :: gostring
  scRelayPinnedSHA256 :: gostring
  scRelayToken :: gostring

record profile =
  pfVersion :: int
  pfInstance :: gostring
  pfDisabled :: bool
  pfRole :: gostring
  pfSegment :: gostring
  pfVirtualNetwork :: gostring
  pfNode :: nodeConfig
  pfCoordinator :: coordinatorClient
  pfServer :: coordinatorServer
  pfRelay :: relayConfig
  pfSubnode :: subnodeConfig
  pfMappings :: "mapping list"

definition profileVersion :: int where "profileVersion = 8"

text \<open>The zero values, from which a struct literal or a missing JSON field starts.\<close>

definition zeroMapping :: mapping where
  "zeroMapping = \<lparr>mpName = '''', mpKind = '''', mpListen = '''', mpTarget = '''', mpTargetNode = '''',
     mpService = '''', mpUpstream = '''', mpUUID = '''', mpUpstreamUUID = '''', mpCertificate = '''',
     mpKey = '''', mpPinnedSHA256 = '''', mpCertificateSHA256 = ''''\<rparr>"

definition zeroCoordinatorClient :: coordinatorClient where
  "zeroCoordinatorClient = \<lparr>ccURL = '''', ccPinnedSHA256 = '''', ccCredential = None, ccEnrollment = None\<rparr>"

definition zeroCoordinatorServer :: coordinatorServer where
  "zeroCoordinatorServer = \<lparr>svrListen = '''', svrAdminListen = '''', svrAdminToken = '''', svrCertificate = '''',
     svrKey = '''', svrPinnedSHA256 = '''', svrConnectionWaitSeconds = 0, svrConnectionRequestTTLSeconds = 0,
     svrConnectionOfferLeaseSeconds = 0, svrConnectionMaxPending = 0\<rparr>"

definition zeroRelayConfig :: relayConfig where
  "zeroRelayConfig = \<lparr>rcListen = '''', rcEndpoint = '''', rcPriority = 0, rcCertificate = '''', rcKey = '''',
     rcPinnedSHA256 = '''', rcAdmissionTokenHash = ''''\<rparr>"

definition zeroSubnodeConfig :: subnodeConfig where
  "zeroSubnodeConfig = \<lparr>scRelayNodeID = '''', scRelayEndpoint = '''', scRelayPinnedSHA256 = '''', scRelayToken = ''''\<rparr>"

definition zeroProfile :: profile where
  "zeroProfile = \<lparr>pfVersion = 0, pfInstance = '''', pfDisabled = False, pfRole = '''', pfSegment = '''',
     pfVirtualNetwork = '''', pfNode = \<lparr>nfID = '''', nfName = ''''\<rparr>, pfCoordinator = zeroCoordinatorClient,
     pfServer = zeroCoordinatorServer, pfRelay = zeroRelayConfig, pfSubnode = zeroSubnodeConfig, pfMappings = []\<rparr>"

section \<open>Files\<close>

text \<open>
  What \<open>os.ReadFile\<close> and \<open>json.Unmarshal\<close> find: no file, a file that cannot be read, one that is
  not JSON (the target keeps its value), one with a field of the wrong type (the target holds what
  could be read), or the value.
\<close>

datatype 'a fileState = NoFile | Unreadable | Torn | Mistyped 'a | Holds 'a

datatype fileError = ReadFailed | NotJSON

text \<open>A file read into a fresh variable, whose zero value is \<open>zero\<close>.\<close>

definition readJSON :: "'a \<Rightarrow> 'a fileState \<Rightarrow> 'a \<times> fileError option" where
  "readJSON zero f =
     (case f of
        NoFile \<Rightarrow> (zero, None)
      | Unreadable \<Rightarrow> (zero, Some ReadFailed)
      | Torn \<Rightarrow> (zero, Some NotJSON)
      | Mistyped v \<Rightarrow> (v, Some NotJSON)
      | Holds v \<Rightarrow> (v, None))"

text \<open>A file and the temporary file beside it; both survive a crash.\<close>

record 'a slot =
  slotFile :: "'a fileState"
  slotTemp :: "'a fileState"

definition replaceFile :: "writeOutcome \<Rightarrow> 'a \<Rightarrow> 'a slot \<Rightarrow> bool \<times> 'a slot" where
  "replaceFile outcome v s =
     (case outcome of
        MkdirFails \<Rightarrow> (False, s)
      | MarshalFails \<Rightarrow> (False, s)
      | WriteFails \<Rightarrow> (False, s\<lparr>slotTemp := Torn\<rparr>)
      | RenameFails \<Rightarrow> (False, s\<lparr>slotTemp := Holds v\<rparr>)
      | WroteFile \<Rightarrow> (True, s\<lparr>slotTemp := NoFile, slotFile := Holds v\<rparr>))"

lemma replaceFile_file:
  "slotFile (snd (replaceFile outcome v s)) = (if fst (replaceFile outcome v s) then Holds v else slotFile s)"
  by (cases outcome) (simp_all add: replaceFile_def)

datatype profileError = ProfileUnreadable fileError | UnsupportedVersion int | UnsupportedRole gostring

definition loadProfile :: "profile fileState \<Rightarrow> profileError + profile" where
  "loadProfile f =
     (case f of
        NoFile \<Rightarrow> Inr (zeroProfile\<lparr>pfVersion := profileVersion, pfRole := ''client'',
                    pfSegment := ''default'', pfVirtualNetwork := ''default''\<rparr>)
      | _ \<Rightarrow>
          (case readJSON zeroProfile f of
             (p, Some err) \<Rightarrow> Inl (ProfileUnreadable err)
           | (p, None) \<Rightarrow>
               if pfVersion p \<noteq> profileVersion then Inl (UnsupportedVersion (pfVersion p))
               else if \<not> validNodeRole (pfRole p) then Inl (UnsupportedRole (pfRole p))
               else Inr p))"

definition saveProfile :: "writeOutcome \<Rightarrow> profile \<Rightarrow> profile slot \<Rightarrow> bool \<times> profile slot" where
  "saveProfile outcome p s = replaceFile outcome p s"

lemma loadProfile_ok:
  assumes "loadProfile f = Inr p"
  shows "pfVersion p = profileVersion" and "validNodeRole (pfRole p)"
  using assms by (auto simp: loadProfile_def readJSON_def validNodeRole_def zeroProfile_def split: fileState.splits if_splits)

lemma loadProfile_Holds:
  "pfVersion p = profileVersion \<Longrightarrow> validNodeRole (pfRole p) \<Longrightarrow> loadProfile (Holds p) = Inr p"
  by (simp add: loadProfile_def readJSON_def)

section \<open>The other files of a node\<close>

text \<open>
  The peers a node was told of (\<open>saveDiscovered\<close>, \<open>loadDiscovered\<close> of coordinator_client.go):
  peers.json beside the profile.
\<close>

definition loadDiscovered :: "discoveredNode list slot \<Rightarrow> fileError + discoveredNode list" where
  "loadDiscovered peers =
     (case readJSON [] (slotFile peers) of (nodes, None) \<Rightarrow> Inr nodes | (nodes, Some err) \<Rightarrow> Inl err)"

definition saveDiscovered :: "writeOutcome \<Rightarrow> discoveredNode list \<Rightarrow> discoveredNode list slot \<Rightarrow> bool \<times> discoveredNode list slot" where
  "saveDiscovered outcome nodes peers = replaceFile outcome nodes peers"

section \<open>What a node tells of itself\<close>

text \<open>
  \<open>localDirectCandidates\<close> and \<open>localDiscoveredNode\<close> of coordinator_client.go. The addresses of the
  network interfaces, or the failure to list them, are the environment's.
\<close>

definition candidateAddress :: "gostring \<Rightarrow> ip \<Rightarrow> gostring option" where
  "candidateAddress port a =
     (let address = joinHostPort (ipText a) port
      in if validateDirectCandidate address = None then Some address else None)"

definition boundedCandidates :: "gostring list \<Rightarrow> directCandidate list" where
  "boundedCandidates addresses =
     fold (\<lambda>address output.
         if length output = maxDirectCandidates \<or> (output \<noteq> [] \<and> dcAddress (last output) = address) then output
         else output @ [\<lparr>dcAddress = address, dcExpiresAt = 0\<rparr>])
       addresses []"

definition localDirectCandidates :: "ip list option \<Rightarrow> gostring \<Rightarrow> directCandidate list" where
  "localDirectCandidates interfaces listen =
     (case splitHostPort listen of
        Inl _ \<Rightarrow> []
      | Inr (host, port) \<Rightarrow>
          (case if wildcardHost host \<or> host = ''[::]'' then interfaces
                else Some (case parseIP host of None \<Rightarrow> [] | Some a \<Rightarrow> [a]) of
             None \<Rightarrow> []
           | Some ips \<Rightarrow> boundedCandidates (sort (List.map_filter (candidateAddress port) ips))))"

definition publishedOf :: "ip list option \<Rightarrow> profile \<Rightarrow> mapping \<Rightarrow> publishedService" where
  "publishedOf interfaces p m =
     \<lparr>svNodeID = nfID (pfNode p), svName = mpName m, svSegment = pfSegment p,
      svDirectCandidates = localDirectCandidates interfaces (mpListen m),
      svUUID = mpUUID m, svPinnedSHA256 = mpCertificateSHA256 m\<rparr>"

definition localDiscoveredNode :: "ip list option \<Rightarrow> profile \<Rightarrow> discoveredNode" where
  "localDiscoveredNode interfaces p =
     zeroNode\<lparr>dnID := nfID (pfNode p), dnName := nfName (pfNode p), dnRole := pfRole p,
       dnSegment := pfSegment p, dnVirtualNetwork := pfVirtualNetwork p,
       dnServices := map (publishedOf interfaces p) (filter (\<lambda>m. mpKind m = ''publish'') (pfMappings p)),
       dnRelay := (if pfRole p = ''relay''
                   then Some \<lparr>raEndpoint = rcEndpoint (pfRelay p), raPinnedSHA256 = rcPinnedSHA256 (pfRelay p),
                              raPriority = rcPriority (pfRelay p)\<rparr>
                   else None),
       dnUpstreamRelay := (if pfRole p = ''subnode'' then scRelayNodeID (pfSubnode p) else '''')\<rparr>"

text \<open>\<open>setNodeDisabled\<close> of runtime.go, behind the start and stop actions.\<close>

datatype disableError = DisableProfile profileError | DisableSave

definition setNodeDisabled :: "writeOutcome \<Rightarrow> bool \<Rightarrow> profile slot \<Rightarrow> disableError option \<times> profile slot" where
  "setNodeDisabled outcome disabled s =
     (case loadProfile (slotFile s) of
        Inl err \<Rightarrow> (Some (DisableProfile err), s)
      | Inr p \<Rightarrow>
          if pfDisabled p = disabled then (None, s)
          else (case saveProfile outcome (p\<lparr>pfDisabled := disabled\<rparr>) s of
                  (True, s') \<Rightarrow> (None, s')
                | (False, s') \<Rightarrow> (Some DisableSave, s')))"

section \<open>What the candidates are\<close>

lemma boundedCandidates_facts:
  assumes "sorted addresses"
  shows "length (boundedCandidates addresses) \<le> maxDirectCandidates
    \<and> sorted_wrt (<) (map dcAddress (boundedCandidates addresses))
    \<and> dcAddress ` set (boundedCandidates addresses) \<subseteq> set addresses
    \<and> (length (boundedCandidates addresses) < maxDirectCandidates \<longrightarrow> dcAddress ` set (boundedCandidates addresses) = set addresses)"
  using assms
proof (induction addresses rule: rev_induct)
  case Nil
  then show ?case by (simp add: boundedCandidates_def)
next
  case (snoc a xs)
  let ?out = "boundedCandidates xs"
  have eq: "boundedCandidates (xs @ [a])
      = (if length ?out = maxDirectCandidates \<or> (?out \<noteq> [] \<and> dcAddress (last ?out) = a) then ?out
         else ?out @ [\<lparr>dcAddress = a, dcExpiresAt = 0\<rparr>])"
    by (simp add: boundedCandidates_def)
  have IH: "length ?out \<le> maxDirectCandidates" "sorted_wrt (<) (map dcAddress ?out)" "dcAddress ` set ?out \<subseteq> set xs"
      "length ?out < maxDirectCandidates \<Longrightarrow> dcAddress ` set ?out = set xs"
    and below: "\<forall>x \<in> set xs. x \<le> a"
    using snoc by (auto simp: sorted_append)
  have last: "?out \<noteq> [] \<Longrightarrow> c \<in> set ?out \<Longrightarrow> c = last ?out \<or> dcAddress c < dcAddress (last ?out)" for c
    using IH(2) by (cases ?out rule: rev_cases) (auto simp: sorted_wrt_append)
  have lt: "dcAddress c < a" if "c \<in> set ?out" "dcAddress (last ?out) \<noteq> a" for c
  proof -
    have "?out \<noteq> []" using that(1) by auto
    moreover from this have "last ?out \<in> set ?out" by simp
    then have "dcAddress (last ?out) \<le> a" using IH(3) below by blast
    ultimately show ?thesis using last [of c] that by force
  qed
  show ?case
  proof (cases "length ?out = maxDirectCandidates \<or> (?out \<noteq> [] \<and> dcAddress (last ?out) = a)")
    case True
    have "?out \<noteq> [] \<and> dcAddress (last ?out) = a \<Longrightarrow> a \<in> dcAddress ` set ?out" by force
    with True IH eq show ?thesis by auto
  next
    case False
    then have out: "boundedCandidates (xs @ [a]) = ?out @ [\<lparr>dcAddress = a, dcExpiresAt = 0\<rparr>]"
      unfolding eq by (rule if_not_P)
    moreover from False have "dcAddress c < a" if "c \<in> set ?out" for c using lt [OF that] that by auto
    then have "sorted_wrt (<) (map dcAddress (boundedCandidates (xs @ [a])))"
      using IH(2) by (simp add: out sorted_wrt_append)
    moreover have "dcAddress ` set (boundedCandidates (xs @ [a])) = insert a (dcAddress ` set ?out)"
      by (simp add: out)
    ultimately show ?thesis using False IH by auto
  qed
qed

lemma candidateAddress_valid: "candidateAddress port a = Some address \<Longrightarrow> validateDirectCandidate address = None"
  by (simp add: candidateAddress_def Let_def split: if_splits)

lemma localDirectCandidates_facts:
  "length (localDirectCandidates interfaces listen) \<le> maxDirectCandidates"
  "sorted_wrt (<) (map dcAddress (localDirectCandidates interfaces listen))"
  "c \<in> set (localDirectCandidates interfaces listen) \<Longrightarrow> validateDirectCandidate (dcAddress c) = None"
proof -
  have b: "length (boundedCandidates (sort xs)) \<le> maxDirectCandidates
      \<and> sorted_wrt (<) (map dcAddress (boundedCandidates (sort xs)))
      \<and> dcAddress ` set (boundedCandidates (sort xs)) \<subseteq> set xs" for xs
    using boundedCandidates_facts [of "sort xs"] by simp
  show "length (localDirectCandidates interfaces listen) \<le> maxDirectCandidates"
    "sorted_wrt (<) (map dcAddress (localDirectCandidates interfaces listen))"
    using b by (auto simp: localDirectCandidates_def split: sum.split option.split)
  have v: "validateDirectCandidate (dcAddress c) = None"
    if "c \<in> set (boundedCandidates (sort (List.map_filter (candidateAddress port) ips)))" for port ips
  proof -
    have "dcAddress c \<in> set (List.map_filter (candidateAddress port) ips)"
      using b [of "List.map_filter (candidateAddress port) ips"] that by blast
    then show ?thesis by (auto simp: map_filter_def dest: candidateAddress_valid)
  qed
  show "c \<in> set (localDirectCandidates interfaces listen) \<Longrightarrow> validateDirectCandidate (dcAddress c) = None"
    unfolding localDirectCandidates_def by (auto intro: v split: sum.splits option.splits if_splits)
qed

end
