(* ===== verification/Managed_Profiles.thy ===== *)
theory Managed_Profiles
  imports Profile "HOL-Library.Product_Lexorder"
begin

text \<open>
  The profiles the service manager runs (src/internal/app/service_profiles.go, with
  \<open>validateCoordinatorURL\<close> of coordinator_client.go): which profile is valid, and the scan of the
  configuration directory.
\<close>

section \<open>The library of a node\<close>

text \<open>
  A node uses, besides the library of the coordinator, \<open>url.Parse\<close> and the signing side of
  Ed25519; like the rest of the library they are parameters. Of a parsed URL the program reads
  these parts.
\<close>

record parsedURL =
  urScheme :: gostring
  urHost :: gostring
  urUser :: bool
  urPath :: gostring
  urRawQuery :: gostring
  urFragment :: gostring

record nodelib = json +
  urlParse :: "gostring \<Rightarrow> parsedURL option"
  ed25519Sign :: "gostring \<Rightarrow> gostring \<Rightarrow> gostring"
  ed25519Public :: "gostring \<Rightarrow> gostring"

text \<open>\<open>URL.Hostname\<close> and \<open>URL.Port\<close>: the port only when it is all digits.\<close>

definition urlHostPort :: "gostring \<Rightarrow> gostring \<times> gostring" where
  "urlHostPort host =
     (let (h, port) =
        (case lastIndexByte CHR '':'' host of
           None \<Rightarrow> (host, '''')
         | Some i \<Rightarrow> if list_all isDigit (drop (i + 1) host) then (take i host, drop (i + 1) host) else (host, ''''))
      in (if hasPrefix h ''['' \<and> h \<noteq> [] \<and> last h = CHR '']'' then butlast (tl h) else h, port))"

datatype urlError = NotOrigin | NoExplicitPort | BadURLPort

definition validateCoordinatorURL :: "'z nodelib_scheme \<Rightarrow> gostring \<Rightarrow> urlError option" where
  "validateCoordinatorURL L raw =
     (case urlParse L raw of
        None \<Rightarrow> Some NotOrigin
      | Some u \<Rightarrow>
          if urScheme u \<noteq> ''https'' \<or> urHost u = '''' \<or> urUser u \<or> (urPath u \<noteq> '''' \<and> urPath u \<noteq> ''/'')
             \<or> urRawQuery u \<noteq> '''' \<or> urFragment u \<noteq> '''' then Some NotOrigin
          else let (hostname, port) = urlHostPort (urHost u)
               in if hostname = '''' \<or> port = '''' then Some NoExplicitPort
                  else (case portNumber port of None \<Rightarrow> Some BadURLPort | Some _ \<Rightarrow> None))"

section \<open>Validation\<close>

datatype fileKind = RegularFile | OtherFile

datatype managedError =
    InvalidInstance gostring
  | InvalidRole gostring
  | NetworkRequired
  | InvalidURL urlError
  | InvalidCoordinatorPin
  | MappingNameRequired
  | MappingDuplicated gostring
  | MappingListen gostring hostPortError
  | PublishTarget gostring hostPortError
  | PublishCredentials gostring
  | FileRequired gostring
  | FileMissing gostring
  | FileNotRegular gostring
  | PullServiceRequired gostring
  | PullUpstream gostring hostPortError
  | PullCredentials gostring
  | MappingKind gostring gostring
  | ListenersConflict gostring gostring
  | CoordinatorListen hostPortError
  | AdminListen adminListenError
  | PublicAdminConflict
  | CoordinatorCredentials
  | RelayNeedsCoordinator
  | RelayListen hostPortError
  | RelayEndpoint hostPortError
  | RelayConfiguration
  | SubnodeRequirements
  | SubnodeEndpoint hostPortError
  | SubnodePin
  | ProfileNotRead
  | ProfileNotLoaded profileError
  | InstanceMismatch gostring

text \<open>A sequence of checks that returns at the first that fails.\<close>

fun firstError :: "'e option list \<Rightarrow> 'e option" where
  "firstError [] = None"
| "firstError (check # checks) = (case check of None \<Rightarrow> firstError checks | Some err \<Rightarrow> Some err)"

definition failIf :: "bool \<Rightarrow> 'e \<Rightarrow> 'e option" where
  "failIf b err = (if b then Some err else None)"

lemma firstError_None [simp]: "firstError checks = None \<longleftrightarrow> (\<forall>check \<in> set checks. check = None)"
  by (induction checks) (auto split: option.split)

declare firstError.simps [simp del]

lemma failIf_None [simp]: "failIf b err = None \<longleftrightarrow> \<not> b"
  by (simp add: failIf_def)

definition validateManagedFile :: "(gostring \<Rightarrow> fileKind option) \<Rightarrow> gostring \<Rightarrow> gostring \<Rightarrow> managedError option" where
  "validateManagedFile stat label p =
     (if p = '''' then Some (FileRequired label)
      else case stat p of
             None \<Rightarrow> Some (FileMissing label)
           | Some OtherFile \<Rightarrow> Some (FileNotRegular label)
           | Some RegularFile \<Rightarrow> None)"

definition validatePublish :: "'z lib_scheme \<Rightarrow> (gostring \<Rightarrow> fileKind option) \<Rightarrow> mapping \<Rightarrow> managedError option" where
  "validatePublish L stat m =
     firstError
       [map_option (PublishTarget (mpName m)) (validateHostPort (mpTarget m)),
        failIf (mpUUID m = '''' \<or> \<not> validSHA256Pin L (mpCertificateSHA256 m)) (PublishCredentials (mpName m)),
        validateManagedFile stat ''publish certificate'' (mpCertificate m),
        validateManagedFile stat ''publish key'' (mpKey m)]"

definition validatePull :: "'z lib_scheme \<Rightarrow> mapping \<Rightarrow> managedError option" where
  "validatePull L m =
     (if mpTargetNode m \<noteq> '''' then failIf (mpService m = '''') (PullServiceRequired (mpName m))
      else firstError
        [map_option (PullUpstream (mpName m)) (validateHostPort (mpUpstream m)),
         failIf (mpUUID m = '''' \<or> \<not> validSHA256Pin L (mpPinnedSHA256 m)) (PullCredentials (mpName m))])"

text \<open>The loop of \<open>validateManagedMappings\<close>, with the names it has seen.\<close>

definition checkMapping ::
    "'z lib_scheme \<Rightarrow> (gostring \<Rightarrow> fileKind option) \<Rightarrow> gostring list \<Rightarrow> mapping \<Rightarrow> managedError option" where
  "checkMapping L stat seen m =
     firstError
       [failIf (mpName m = '''') MappingNameRequired,
        failIf (mpName m \<in> set seen) (MappingDuplicated (mpName m)),
        map_option (MappingListen (mpName m)) (validateHostPort (mpListen m)),
        (if mpKind m = ''publish'' then validatePublish L stat m
         else if mpKind m = ''pull'' then validatePull L m
         else Some (MappingKind (mpName m) (mpKind m)))]"

fun validateMappingsFrom ::
    "'z lib_scheme \<Rightarrow> (gostring \<Rightarrow> fileKind option) \<Rightarrow> gostring list \<Rightarrow> mapping list \<Rightarrow> managedError option" where
  "validateMappingsFrom L stat seen [] = None"
| "validateMappingsFrom L stat seen (m # ms) =
     (case checkMapping L stat seen m of
        Some err \<Rightarrow> Some err
      | None \<Rightarrow> validateMappingsFrom L stat (mpName m # seen) ms)"

definition validateManagedMappings ::
    "'z lib_scheme \<Rightarrow> (gostring \<Rightarrow> fileKind option) \<Rightarrow> profile \<Rightarrow> managedError option" where
  "validateManagedMappings L stat p = validateMappingsFrom L stat [] (pfMappings p)"

definition managedListeners :: "profile \<Rightarrow> gostring list" where
  "managedListeners p =
     (if pfRole p = ''coordinator'' then [svrListen (pfServer p), svrAdminListen (pfServer p)] else [])
     @ (if pfRole p = ''relay'' then [rcListen (pfRelay p)] else [])
     @ map mpListen (pfMappings p)"

text \<open>The two nested loops: the first later listener that conflicts with an earlier one.\<close>

fun listenerConflict :: "'z lib_scheme \<Rightarrow> gostring list \<Rightarrow> managedError option" where
  "listenerConflict L [] = None"
| "listenerConflict L (left # rest) =
     (case find (\<lambda>right. left \<noteq> '''' \<and> right \<noteq> '''' \<and> sameListenAddress L left right) rest of
        Some right \<Rightarrow> Some (ListenersConflict left right)
      | None \<Rightarrow> listenerConflict L rest)"

definition validateManagedListenerConflicts :: "'z lib_scheme \<Rightarrow> profile \<Rightarrow> managedError option" where
  "validateManagedListenerConflicts L p = listenerConflict L (managedListeners p)"

definition validateCoordinatorRole ::
    "'z lib_scheme \<Rightarrow> (gostring \<Rightarrow> fileKind option) \<Rightarrow> profile \<Rightarrow> managedError option" where
  "validateCoordinatorRole L stat p =
     (let server = pfServer p
      in firstError
        [map_option CoordinatorListen (validateHostPort (svrListen server)),
         map_option AdminListen (validateAdminListen (svrAdminListen server)),
         failIf (sameListenAddress L (svrListen server) (svrAdminListen server)) PublicAdminConflict,
         failIf (svrAdminToken server = '''' \<or> \<not> validSHA256Pin L (svrPinnedSHA256 server)) CoordinatorCredentials,
         validateManagedFile stat ''coordinator certificate'' (svrCertificate server),
         validateManagedFile stat ''coordinator key'' (svrKey server)])"

definition validateRelayRole ::
    "'z lib_scheme \<Rightarrow> (gostring \<Rightarrow> fileKind option) \<Rightarrow> profile \<Rightarrow> managedError option" where
  "validateRelayRole L stat p =
     (let relay = pfRelay p
      in firstError
        [failIf (ccURL (pfCoordinator p) = '''') RelayNeedsCoordinator,
         map_option RelayListen (validateHostPort (rcListen relay)),
         map_option RelayEndpoint (validateHostPort (rcEndpoint relay)),
         failIf (rcPriority relay < 0 \<or> \<not> validSHA256Pin L (rcPinnedSHA256 relay)
                 \<or> (rcAdmissionTokenHash relay \<noteq> '''' \<and> \<not> validRelayAdmissionTokenHash (rcAdmissionTokenHash relay)))
           RelayConfiguration,
         validateManagedFile stat ''relay certificate'' (rcCertificate relay),
         validateManagedFile stat ''relay key'' (rcKey relay)])"

definition validateSubnodeRole :: "'z lib_scheme \<Rightarrow> profile \<Rightarrow> managedError option" where
  "validateSubnodeRole L p =
     (let subnode = pfSubnode p
      in firstError
        [failIf (ccURL (pfCoordinator p) = '''' \<or> scRelayNodeID subnode = '''' \<or> scRelayToken subnode = '''') SubnodeRequirements,
         map_option SubnodeEndpoint (validateHostPort (scRelayEndpoint subnode)),
         failIf (\<not> validSHA256Pin L (scRelayPinnedSHA256 subnode)) SubnodePin])"

definition validateManagedProfile ::
    "'z nodelib_scheme \<Rightarrow> (gostring \<Rightarrow> fileKind option) \<Rightarrow> profile \<Rightarrow> managedError option" where
  "validateManagedProfile L stat p =
     (if pfDisabled p then None
      else firstError
        [map_option InvalidInstance (validateInstance (pfInstance p)),
         failIf (\<not> validNodeRole (pfRole p)) (InvalidRole (pfRole p)),
         failIf (trimSpace (pfVirtualNetwork p) = '''' \<or> trimSpace (pfSegment p) = '''') NetworkRequired,
         (if ccURL (pfCoordinator p) \<noteq> '''' then
            firstError [map_option InvalidURL (validateCoordinatorURL L (ccURL (pfCoordinator p))),
              failIf (\<not> validSHA256Pin L (ccPinnedSHA256 (pfCoordinator p))) InvalidCoordinatorPin]
          else None),
         validateManagedMappings L stat p,
         validateManagedListenerConflicts L p,
         (if pfRole p = ''coordinator'' then validateCoordinatorRole L stat p
          else if pfRole p = ''relay'' then validateRelayRole L stat p
          else if pfRole p = ''subnode'' then validateSubnodeRole L p
          else None)])"

section \<open>The scan\<close>

text \<open>
  An entry of the nodes directory: whether it is a directory, and what the two successive reads of
  its profile find (the manager's own, whose digest tells when a profile changed, and
  \<open>loadProfile\<close>'s; the file may be replaced in between).
\<close>

record dirEntry =
  deName :: gostring
  deIsDir :: bool
  deBody :: "gostring option"
  deProfile :: "profile fileState"

record managedProfile =
  mfInstance :: gostring
  mfRole :: gostring
  mfSignature :: gostring
  mfDisabled :: bool
  mfErr :: "managedError option"

definition serviceRoleOrder :: "gostring \<Rightarrow> nat" where
  "serviceRoleOrder role = (if role = ''coordinator'' then 0 else if role = ''relay'' then 1 else 2)"

definition managedEntry ::
    "'z nodelib_scheme \<Rightarrow> (gostring \<Rightarrow> fileKind option) \<Rightarrow> dirEntry \<Rightarrow> managedProfile" where
  "managedEntry L stat e =
     (let candidate = \<lparr>mfInstance = deName e, mfRole = '''', mfSignature = sha256 L (case deBody e of None \<Rightarrow> [] | Some b \<Rightarrow> b),
                       mfDisabled = False, mfErr = None\<rparr>
      in case deBody e of
           None \<Rightarrow> candidate\<lparr>mfErr := Some ProfileNotRead\<rparr>
         | Some _ \<Rightarrow>
             (case loadProfile (deProfile e) of
                Inl err \<Rightarrow> candidate\<lparr>mfErr := Some (ProfileNotLoaded err)\<rparr>
              | Inr p \<Rightarrow> candidate\<lparr>mfRole := pfRole p, mfDisabled := pfDisabled p,
                  mfErr := if pfInstance p \<noteq> deName e then Some (InstanceMismatch (pfInstance p))
                           else validateManagedProfile L stat p\<rparr>))"

definition managedProfiles ::
    "'z nodelib_scheme \<Rightarrow> (gostring \<Rightarrow> fileKind option) \<Rightarrow> dirEntry list \<Rightarrow> managedProfile list" where
  "managedProfiles L stat entries =
     sortBy (\<lambda>m. (serviceRoleOrder (mfRole m), mfInstance m))
       (map (managedEntry L stat) (filter (\<lambda>e. deIsDir e \<and> validateInstance (deName e) = None) entries))"

section \<open>What validation means\<close>

text \<open>A valid mapping, and a valid profile, without the order of the checks.\<close>

definition mapping_ok :: "'z lib_scheme \<Rightarrow> (gostring \<Rightarrow> fileKind option) \<Rightarrow> mapping \<Rightarrow> bool" where
  "mapping_ok L stat m \<longleftrightarrow> mpName m \<noteq> '''' \<and> validateHostPort (mpListen m) = None
     \<and> (mpKind m = ''publish'' \<and> validateHostPort (mpTarget m) = None \<and> mpUUID m \<noteq> ''''
          \<and> validSHA256Pin L (mpCertificateSHA256 m)
          \<and> mpCertificate m \<noteq> '''' \<and> stat (mpCertificate m) = Some RegularFile
          \<and> mpKey m \<noteq> '''' \<and> stat (mpKey m) = Some RegularFile
        \<or> mpKind m = ''pull'' \<and> mpTargetNode m \<noteq> '''' \<and> mpService m \<noteq> ''''
        \<or> mpKind m = ''pull'' \<and> mpTargetNode m = '''' \<and> validateHostPort (mpUpstream m) = None
          \<and> mpUUID m \<noteq> '''' \<and> validSHA256Pin L (mpPinnedSHA256 m))"

definition disjointListeners :: "'z lib_scheme \<Rightarrow> gostring list \<Rightarrow> bool" where
  "disjointListeners L xs \<longleftrightarrow> sorted_wrt (\<lambda>a b. a = '''' \<or> b = '''' \<or> \<not> sameListenAddress L a b) xs"

lemma validateManagedFile_None [simp]:
  "validateManagedFile stat label p = None \<longleftrightarrow> p \<noteq> '''' \<and> stat p = Some RegularFile"
  by (auto simp: validateManagedFile_def split: option.splits fileKind.splits)

lemma checkMapping_None: "checkMapping L stat seen m = None \<longleftrightarrow> mapping_ok L stat m \<and> mpName m \<notin> set seen"
proof -
  have p: "validatePublish L stat m = None \<longleftrightarrow> validateHostPort (mpTarget m) = None \<and> mpUUID m \<noteq> ''''
      \<and> validSHA256Pin L (mpCertificateSHA256 m) \<and> mpCertificate m \<noteq> '''' \<and> stat (mpCertificate m) = Some RegularFile
      \<and> mpKey m \<noteq> '''' \<and> stat (mpKey m) = Some RegularFile"
    by (auto simp: validatePublish_def)
  have q: "validatePull L m = None \<longleftrightarrow> mpTargetNode m \<noteq> '''' \<and> mpService m \<noteq> ''''
      \<or> mpTargetNode m = '''' \<and> validateHostPort (mpUpstream m) = None \<and> mpUUID m \<noteq> '''' \<and> validSHA256Pin L (mpPinnedSHA256 m)"
    by (auto simp: validatePull_def)
  have "''publish'' \<noteq> ''pull''" by simp
  then show ?thesis unfolding checkMapping_def mapping_ok_def
    by (cases "mpKind m = ''publish''"; cases "mpKind m = ''pull''") (simp_all add: p q, blast+)
qed

lemma validateMappingsFrom_None:
  "validateMappingsFrom L stat seen ms = None \<longleftrightarrow>
     (\<forall>m \<in> set ms. mapping_ok L stat m) \<and> distinct (map mpName ms) \<and> set (map mpName ms) \<inter> set seen = {}"
proof (induction ms arbitrary: seen)
  case (Cons m ms)
  have "validateMappingsFrom L stat seen (m # ms) = None
      \<longleftrightarrow> mapping_ok L stat m \<and> mpName m \<notin> set seen \<and> validateMappingsFrom L stat (mpName m # seen) ms = None"
    using checkMapping_None [of L stat seen m] by (simp split: option.split) auto
  also have "\<dots> \<longleftrightarrow> (\<forall>x \<in> set (m # ms). mapping_ok L stat x) \<and> distinct (map mpName (m # ms))
      \<and> set (map mpName (m # ms)) \<inter> set seen = {}"
    unfolding Cons.IH by auto
  finally show ?case .
qed simp

lemma listenerConflict_None: "listenerConflict L xs = None \<longleftrightarrow> disjointListeners L xs"
proof (induction xs)
  case Nil
  show ?case by (simp add: disjointListeners_def)
next
  case (Cons x xs)
  have "(find (\<lambda>right. x \<noteq> '''' \<and> right \<noteq> '''' \<and> sameListenAddress L x right) xs = None)
      \<longleftrightarrow> (\<forall>y \<in> set xs. x = '''' \<or> y = '''' \<or> \<not> sameListenAddress L x y)"
    by (auto simp: find_None_iff)
  moreover have "disjointListeners L (x # xs)
      \<longleftrightarrow> (\<forall>y \<in> set xs. x = '''' \<or> y = '''' \<or> \<not> sameListenAddress L x y) \<and> disjointListeners L xs"
    by (simp add: disjointListeners_def)
  ultimately show ?case using Cons.IH by (auto split: option.splits)
qed

text \<open>What the manager promises of a profile it runs.\<close>

definition role_ok :: "'z lib_scheme \<Rightarrow> (gostring \<Rightarrow> fileKind option) \<Rightarrow> profile \<Rightarrow> bool" where
  "role_ok L stat p \<longleftrightarrow>
     (pfRole p = ''coordinator'' \<longrightarrow>
        validateHostPort (svrListen (pfServer p)) = None \<and> validateAdminListen (svrAdminListen (pfServer p)) = None
        \<and> svrAdminToken (pfServer p) \<noteq> '''' \<and> validSHA256Pin L (svrPinnedSHA256 (pfServer p))
        \<and> (\<forall>f \<in> {svrCertificate (pfServer p), svrKey (pfServer p)}. f \<noteq> '''' \<and> stat f = Some RegularFile))
     \<and> (pfRole p = ''relay'' \<longrightarrow>
        ccURL (pfCoordinator p) \<noteq> '''' \<and> validateHostPort (rcListen (pfRelay p)) = None
        \<and> validateHostPort (rcEndpoint (pfRelay p)) = None \<and> 0 \<le> rcPriority (pfRelay p)
        \<and> validSHA256Pin L (rcPinnedSHA256 (pfRelay p))
        \<and> (rcAdmissionTokenHash (pfRelay p) = '''' \<or> validRelayAdmissionTokenHash (rcAdmissionTokenHash (pfRelay p)))
        \<and> (\<forall>f \<in> {rcCertificate (pfRelay p), rcKey (pfRelay p)}. f \<noteq> '''' \<and> stat f = Some RegularFile))
     \<and> (pfRole p = ''subnode'' \<longrightarrow>
        ccURL (pfCoordinator p) \<noteq> '''' \<and> scRelayNodeID (pfSubnode p) \<noteq> '''' \<and> scRelayToken (pfSubnode p) \<noteq> ''''
        \<and> validateHostPort (scRelayEndpoint (pfSubnode p)) = None
        \<and> validSHA256Pin L (scRelayPinnedSHA256 (pfSubnode p)))"

definition profile_ok :: "'z nodelib_scheme \<Rightarrow> (gostring \<Rightarrow> fileKind option) \<Rightarrow> profile \<Rightarrow> bool" where
  "profile_ok L stat p \<longleftrightarrow> validateInstance (pfInstance p) = None \<and> validNodeRole (pfRole p)
     \<and> trimSpace (pfVirtualNetwork p) \<noteq> '''' \<and> trimSpace (pfSegment p) \<noteq> ''''
     \<and> (ccURL (pfCoordinator p) = '''' \<or> validateCoordinatorURL L (ccURL (pfCoordinator p)) = None
          \<and> validSHA256Pin L (ccPinnedSHA256 (pfCoordinator p)))
     \<and> (\<forall>m \<in> set (pfMappings p). mapping_ok L stat m) \<and> distinct (map mpName (pfMappings p))
     \<and> disjointListeners L (managedListeners p) \<and> role_ok L stat p"

lemma hostPort_nonempty: "validateHostPort a = None \<Longrightarrow> a \<noteq> ''''"
  by (auto simp: validateHostPort_def splitHostPort_def)

lemma adminListen_hostPort: "validateAdminListen a = None \<Longrightarrow> validateHostPort a = None"
  by (simp add: validateAdminListen_def split: option.splits)

lemma coordinator_listeners:
  assumes "pfRole p = ''coordinator''" and "disjointListeners L (managedListeners p)"
    and "validateHostPort (svrListen (pfServer p)) = None" and "validateAdminListen (svrAdminListen (pfServer p)) = None"
  shows "\<not> sameListenAddress L (svrListen (pfServer p)) (svrAdminListen (pfServer p))"
proof -
  have "svrListen (pfServer p) \<noteq> ''''" "svrAdminListen (pfServer p) \<noteq> ''''"
    using assms(3,4) by (auto dest: hostPort_nonempty adminListen_hostPort)
  with assms(1,2) show ?thesis
    by (simp add: disjointListeners_def managedListeners_def)
qed

lemma roles_distinct:
  "(if role = ''coordinator'' then A else if role = ''relay'' then B else if role = ''subnode'' then C else None) = None
   \<longleftrightarrow> (role = ''coordinator'' \<longrightarrow> A = None) \<and> (role = ''relay'' \<longrightarrow> B = None) \<and> (role = ''subnode'' \<longrightarrow> C = None)"
  by auto

text \<open>C15: The manager's validation of a profile is exactly this specification: a valid identity and
  coordinator, complete mappings with distinct names, listeners no two of which claim the same
  address, and whatever the role needs. A disabled profile is not looked at.\<close>

theorem validation_is_specification:
  "validateManagedProfile L stat p = None \<longleftrightarrow> pfDisabled p \<or> profile_ok L stat p"
proof -
  have maps: "validateManagedMappings L stat p = None \<longleftrightarrow>
      (\<forall>m \<in> set (pfMappings p). mapping_ok L stat m) \<and> distinct (map mpName (pfMappings p))"
    by (simp add: validateManagedMappings_def validateMappingsFrom_None)
  have listeners: "validateManagedListenerConflicts L p = None \<longleftrightarrow> disjointListeners L (managedListeners p)"
    by (simp add: validateManagedListenerConflicts_def listenerConflict_None)
  have c: "validateCoordinatorRole L stat p = None \<longleftrightarrow>
      validateHostPort (svrListen (pfServer p)) = None \<and> validateAdminListen (svrAdminListen (pfServer p)) = None
      \<and> svrAdminToken (pfServer p) \<noteq> '''' \<and> validSHA256Pin L (svrPinnedSHA256 (pfServer p))
      \<and> (\<forall>f \<in> {svrCertificate (pfServer p), svrKey (pfServer p)}. f \<noteq> '''' \<and> stat f = Some RegularFile)"
    if "pfRole p = ''coordinator''" "disjointListeners L (managedListeners p)"
    using coordinator_listeners [OF that] by (auto simp: validateCoordinatorRole_def Let_def)
  have r: "validateRelayRole L stat p = None \<longleftrightarrow>
      ccURL (pfCoordinator p) \<noteq> '''' \<and> validateHostPort (rcListen (pfRelay p)) = None
      \<and> validateHostPort (rcEndpoint (pfRelay p)) = None \<and> 0 \<le> rcPriority (pfRelay p)
      \<and> validSHA256Pin L (rcPinnedSHA256 (pfRelay p))
      \<and> (rcAdmissionTokenHash (pfRelay p) = '''' \<or> validRelayAdmissionTokenHash (rcAdmissionTokenHash (pfRelay p)))
      \<and> (\<forall>f \<in> {rcCertificate (pfRelay p), rcKey (pfRelay p)}. f \<noteq> '''' \<and> stat f = Some RegularFile)"
    by (auto simp: validateRelayRole_def Let_def not_less)
  have s: "validateSubnodeRole L p = None \<longleftrightarrow>
      ccURL (pfCoordinator p) \<noteq> '''' \<and> scRelayNodeID (pfSubnode p) \<noteq> '''' \<and> scRelayToken (pfSubnode p) \<noteq> ''''
      \<and> validateHostPort (scRelayEndpoint (pfSubnode p)) = None \<and> validSHA256Pin L (scRelayPinnedSHA256 (pfSubnode p))"
    by (auto simp: validateSubnodeRole_def Let_def)
  have "disjointListeners L (managedListeners p) \<Longrightarrow>
      ((if pfRole p = ''coordinator'' then validateCoordinatorRole L stat p
        else if pfRole p = ''relay'' then validateRelayRole L stat p
        else if pfRole p = ''subnode'' then validateSubnodeRole L p else None) = None) = role_ok L stat p"
    unfolding roles_distinct role_ok_def r s using c by blast
  then show ?thesis
    unfolding validateManagedProfile_def profile_ok_def
    by (auto simp: maps listeners)
qed

section \<open>What the scan finds\<close>

lemma managedEntry_instance [simp]: "mfInstance (managedEntry L stat e) = deName e"
  by (simp add: managedEntry_def Let_def split: option.split sum.split)

text \<open>The scan lists every directory with a valid instance name exactly once, whatever its profile
  holds: coordinators first, then relays, each group by name, so that a coordinator on the same
  host is started before the nodes that depend on it. What is listed without an error is a
  profile of that very instance that is valid.\<close>

theorem scan_lists_instances:
  assumes "distinct (map deName entries)"
  shows "distinct (map mfInstance (managedProfiles L stat entries))
    \<and> set (map mfInstance (managedProfiles L stat entries)) = {deName e | e. e \<in> set entries \<and> deIsDir e \<and> validateInstance (deName e) = None}
    \<and> sorted_wrt (\<lambda>m m'. serviceRoleOrder (mfRole m) < serviceRoleOrder (mfRole m')
         \<or> serviceRoleOrder (mfRole m) = serviceRoleOrder (mfRole m') \<and> mfInstance m < mfInstance m') (managedProfiles L stat entries)
    \<and> (\<forall>m \<in> set (managedProfiles L stat entries). mfErr m = None \<longrightarrow>
         (\<exists>e p. e \<in> set entries \<and> deName e = mfInstance m \<and> loadProfile (deProfile e) = Inr p \<and> pfInstance p = mfInstance m
           \<and> pfRole p = mfRole m \<and> pfDisabled p = mfDisabled m \<and> validateManagedProfile L stat p = None))"
proof (intro conjI ballI impI)
  let ?key = "\<lambda>m. (serviceRoleOrder (mfRole m), mfInstance m)"
  let ?es = "filter (\<lambda>e. deIsDir e \<and> validateInstance (deName e) = None) entries"
  let ?ms = "map (managedEntry L stat) ?es"
  have "map mfInstance ?ms = map deName ?es" by simp
  moreover have "distinct (map deName ?es)" using assms by (rule distinct_map_filter)
  ultimately have "distinct (map mfInstance ?ms)" by (simp only:)
  then have "distinct ?ms" "inj_on mfInstance (set ?ms)" by (simp_all only: distinct_map)
  then show d: "distinct (map mfInstance (managedProfiles L stat entries))"
    by (simp only: managedProfiles_def distinct_map distinct_sortBy set_sortBy simp_thms)
  show "set (map mfInstance (managedProfiles L stat entries)) = {deName e | e. e \<in> set entries \<and> deIsDir e \<and> validateInstance (deName e) = None}"
    by (auto simp: managedProfiles_def image_iff)
  have "sorted (map ?key (managedProfiles L stat entries))"
    unfolding managedProfiles_def by (rule sorted_sortBy)
  moreover have "distinct (map ?key (managedProfiles L stat entries))"
  proof -
    have "map snd (map ?key (managedProfiles L stat entries)) = map mfInstance (managedProfiles L stat entries)" by simp
    with d show ?thesis by (metis distinct_map)
  qed
  ultimately have "sorted_wrt (<) (map ?key (managedProfiles L stat entries))"
    by (simp add: strict_sorted_iff)
  then show "sorted_wrt (\<lambda>m m'. serviceRoleOrder (mfRole m) < serviceRoleOrder (mfRole m')
         \<or> serviceRoleOrder (mfRole m) = serviceRoleOrder (mfRole m') \<and> mfInstance m < mfInstance m') (managedProfiles L stat entries)"
    unfolding sorted_wrt_map by (rule sorted_wrt_mono_rel [rotated]) (auto simp: less_prod_def' less_le)
next
  fix m assume "m \<in> set (managedProfiles L stat entries)" and ok: "mfErr m = None"
  then obtain e where e: "e \<in> set entries" "m = managedEntry L stat e" by (auto simp: managedProfiles_def)
  with ok obtain b p where "deBody e = Some b" "loadProfile (deProfile e) = Inr p"
    by (cases "deBody e"; cases "loadProfile (deProfile e)") (auto simp: managedEntry_def Let_def)
  with e ok show "\<exists>e p. e \<in> set entries \<and> deName e = mfInstance m \<and> loadProfile (deProfile e) = Inr p \<and> pfInstance p = mfInstance m
      \<and> pfRole p = mfRole m \<and> pfDisabled p = mfDisabled m \<and> validateManagedProfile L stat p = None"
    by (intro exI [of _ e] exI [of _ p]) (auto simp: managedEntry_def Let_def split: if_splits)
qed

text \<open>A concrete library, as in the other components; its only URL is an origin with a port.\<close>

definition sampleNodeLib :: nodelib where
  "sampleNodeLib = json.extend sampleJson
     \<lparr>urlParse = (\<lambda>raw. if raw = ''https://c:443'' then Some \<lparr>urScheme = ''https'', urHost = ''c:443'',
         urUser = False, urPath = [], urRawQuery = [], urFragment = []\<rparr> else None),
      ed25519Sign = (\<lambda>private message. take 32 private), ed25519Public = (\<lambda>private. take 32 private)\<rparr>"

definition sampleEntries :: "dirEntry list" where
  "sampleEntries =
     [\<lparr>deName = ''Trash'', deIsDir = True, deBody = None, deProfile = NoFile\<rparr>,
      \<lparr>deName = ''home'', deIsDir = True, deBody = Some ''x'', deProfile = Torn\<rparr>,
      \<lparr>deName = ''notes'', deIsDir = False, deBody = Some ''x'', deProfile = Torn\<rparr>]"

theorem scan_lists_instances_witness:
  "set (map mfInstance (managedProfiles sampleNodeLib (\<lambda>_. None) sampleEntries)) = {''home''}"
proof -
  have d: "distinct (map deName sampleEntries)" by (simp add: sampleEntries_def)
  have "validateInstance ''home'' = None" "validateInstance ''Trash'' \<noteq> None" by code_simp+
  then have "{deName e | e. e \<in> set sampleEntries \<and> deIsDir e \<and> validateInstance (deName e) = None} = {''home''}"
    by (auto simp: sampleEntries_def intro!: exI [of _ "\<lparr>deName = ''home'', deIsDir = True, deBody = Some ''x'', deProfile = Torn\<rparr>"])
  with scan_lists_instances [OF d, of sampleNodeLib "\<lambda>_. None", THEN conjunct2, THEN conjunct1]
  show ?thesis by (rule trans)
qed

end
