(* ===== verification/Node_Config.thy ===== *)
theory Node_Config
  imports Managed_Profiles
begin

text \<open>
  The commands that write a profile (src/internal/app/node_config.go): adding and configuring a
  node (\<open>install\<close>), adding and removing a mapping, with the search for conflicting listeners of
  the other nodes of the host (node_manager.go).
\<close>

section \<open>Command line and environment\<close>

text \<open>The options the commands read; \<open>opSet\<close> lists the flags given on the command line.\<close>

record options =
  opRole :: gostring
  opSegment :: gostring
  opName :: gostring
  opKind :: gostring
  opListen :: gostring
  opAdminListen :: gostring
  opTarget :: gostring
  opTargetNode :: gostring
  opService :: gostring
  opTransitListen :: gostring
  opTransitEndpoint :: gostring
  opUpstreamRelayNode :: gostring
  opUpstreamRelayEndpoint :: gostring
  opUpstreamRelayPin :: gostring
  opUpstreamRelayToken :: gostring
  opCoordinator :: gostring
  opCoordinatorPin :: gostring
  opNetwork :: gostring
  opNodeName :: gostring
  opInstance :: gostring
  opRelayPriority :: int
  opConnectionWaitSeconds :: int
  opConnectionTTLSeconds :: int
  opConnectionLeaseSeconds :: int
  opConnectionMaxPending :: int
  opRotateRelayToken :: bool
  opSet :: "gostring list"

definition given :: "options \<Rightarrow> gostring \<Rightarrow> bool" where
  "given opts flag \<longleftrightarrow> flag \<in> set (opSet opts)"

datatype dirListing = NoDirectory | ListingFails | Entries "dirEntry list"

text \<open>
  What a command finds around it: the host name, the random bytes of the successive draws, the pin
  \<open>makeCertificate\<close> returns for the files it writes (or its failure), the nodes directory and which
  of its entries is the profile at hand, whether an address can be bound, the path of a
  file beside the profile, and how the write of the profile ends.
\<close>

record installEnv =
  ieHostname :: gostring
  ieEntropy :: "nat \<Rightarrow> gostring"
  ieCertificate :: "gostring \<Rightarrow> gostring option"
  ieListing :: dirListing
  ieExcluded :: "gostring \<Rightarrow> bool"
  ieAvailable :: "gostring \<Rightarrow> bool"
  ieBeside :: "gostring \<Rightarrow> gostring"
  ieWrite :: writeOutcome

datatype installError =
    Refused gostring
  | BadListener gostring hostPortError
  | BadAdminListener adminListenError
  | BadCoordinatorURL urlError
  | ProfileProblem profileError
  | DirectoryProblem
  | OwnedBy gostring gostring
  | Unavailable gostring
  | NoRandomness gostring
  | NoCertificate
  | NotSaved

definition andThen :: "'e + 'a \<Rightarrow> ('a \<Rightarrow> 'e + 'b) \<Rightarrow> 'e + 'b" where
  "andThen x f = (case x of Inl err \<Rightarrow> Inl err | Inr v \<Rightarrow> f v)"

lemma andThen_Inr [simp]: "andThen x f = Inr v \<longleftrightarrow> (\<exists>y. x = Inr y \<and> f y = Inr v)"
  by (simp add: andThen_def split: sum.split)

text \<open>A check in front of the rest.\<close>

definition unless :: "'e option \<Rightarrow> 'e + 'a \<Rightarrow> 'e + 'a" where
  "unless check rest = (case check of Some err \<Rightarrow> Inl err | None \<Rightarrow> rest)"

lemma unless_Inr [simp]: "unless check rest = Inr v \<longleftrightarrow> check = None \<and> rest = Inr v"
  by (simp add: unless_def split: option.split)

section \<open>Listeners of other nodes\<close>

definition configuredListeners :: "profile \<Rightarrow> (gostring \<times> gostring) list" where
  "configuredListeners p =
     [(''coordinator-public'', svrListen (pfServer p)), (''coordinator-admin'', svrAdminListen (pfServer p)),
      (''relay-transit'', rcListen (pfRelay p))]
     @ map (\<lambda>m. (''mapping:'' @ mpName m, mpListen m)) (pfMappings p)"

definition entryConflict :: "'z lib_scheme \<Rightarrow> gostring \<Rightarrow> dirEntry \<Rightarrow> gostring option" where
  "entryConflict L address e =
     (case loadProfile (deProfile e) of
        Inl _ \<Rightarrow> None
      | Inr p \<Rightarrow> map_option (\<lambda>(name, _). deName e @ ''/'' @ name)
          (find (\<lambda>(_, listen). listen \<noteq> '''' \<and> sameListenAddress L listen address) (configuredListeners p)))"

fun firstConflict :: "'z lib_scheme \<Rightarrow> (gostring \<Rightarrow> bool) \<Rightarrow> gostring \<Rightarrow> dirEntry list \<Rightarrow> gostring option" where
  "firstConflict L excluded address [] = None"
| "firstConflict L excluded address (e # es) =
     (if \<not> deIsDir e \<or> validateInstance (deName e) \<noteq> None \<or> excluded (deName e)
      then firstConflict L excluded address es
      else case entryConflict L address e of
             Some owner \<Rightarrow> Some owner
           | None \<Rightarrow> firstConflict L excluded address es)"

definition configuredListenConflict :: "'z lib_scheme \<Rightarrow> installEnv \<Rightarrow> gostring \<Rightarrow> installError + gostring option" where
  "configuredListenConflict L E address =
     (case ieListing E of
        NoDirectory \<Rightarrow> Inr None
      | ListingFails \<Rightarrow> Inl DirectoryProblem
      | Entries es \<Rightarrow> Inr (firstConflict L (ieExcluded E) address es))"

definition noConflict :: "'z lib_scheme \<Rightarrow> installEnv \<Rightarrow> gostring \<Rightarrow> gostring \<Rightarrow> installError option" where
  "noConflict L E label address =
     (case configuredListenConflict L E address of
        Inl err \<Rightarrow> Some err
      | Inr (Some owner) \<Rightarrow> Some (OwnedBy label owner)
      | Inr None \<Rightarrow> None)"

section \<open>Adding and configuring a node\<close>

definition identityOptions :: "options \<Rightarrow> bool \<Rightarrow> profile \<Rightarrow> profile" where
  "identityOptions opts configure p =
     p\<lparr>pfInstance := opInstance opts,
       pfRole := if \<not> configure \<or> given opts ''role'' then opRole opts else pfRole p,
       pfSegment := if \<not> configure \<or> given opts ''segment'' then opSegment opts else pfSegment p,
       pfVirtualNetwork := if \<not> configure \<or> given opts ''network'' then opNetwork opts else pfVirtualNetwork p\<rparr>"

definition installIdentity :: "installEnv \<Rightarrow> options \<Rightarrow> bool \<Rightarrow> profile \<Rightarrow> installError + profile" where
  "installIdentity E opts configure p0 =
     (let p = identityOptions opts configure p0;
          name = (if \<not> configure \<or> given opts ''node-name''
                  then (if opNodeName opts = '''' then ieHostname E else opNodeName opts) else nfName (pfNode p))
      in unless (firstError
           [failIf (pfRole p = '''') (Refused ''--role is required''),
            failIf (\<not> validNodeRole (pfRole p)) (Refused ''--role must be client, relay, subnode, or coordinator''),
            failIf (trimSpace (pfVirtualNetwork p) = '''' \<or> trimSpace (pfSegment p) = '''')
              (Refused ''--network and --segment cannot be empty'')])
         (andThen (if nfID (pfNode p) \<noteq> '''' then Inr (nfID (pfNode p))
                   else case randomUUID (ieEntropy E 0) of
                          None \<Rightarrow> Inl (NoRandomness ''generate node id'')
                        | Some uuid \<Rightarrow> Inr uuid)
           (\<lambda>nodeID. Inr (p\<lparr>pfNode := \<lparr>nfID = nodeID, nfName = name\<rparr>\<rparr>))))"

text \<open>A certificate is made once; its files lie beside the profile.\<close>

definition coordinatorSettings :: "options \<Rightarrow> bool \<Rightarrow> coordinatorServer \<Rightarrow> installError + coordinatorServer" where
  "coordinatorSettings opts configure server =
     (let pick = (\<lambda>flag offered kept. if configure \<and> \<not> given opts flag then kept else offered);
          orElse = (\<lambda>value fallback. if value = 0 then fallback else value);
          wait = orElse (pick ''connection-wait-seconds'' (opConnectionWaitSeconds opts) (svrConnectionWaitSeconds server))
                   (connectionWaitMaximum div nsecond);
          ttl = orElse (pick ''connection-request-ttl-seconds'' (opConnectionTTLSeconds opts) (svrConnectionRequestTTLSeconds server))
                  (connectionRequestLifetime div nsecond);
          lease = orElse (pick ''connection-offer-lease-seconds'' (opConnectionLeaseSeconds opts) (svrConnectionOfferLeaseSeconds server))
                    (connectionOfferLease div nsecond);
          most = orElse (pick ''connection-max-pending'' (opConnectionMaxPending opts) (svrConnectionMaxPending server))
                   maxConnectionRequests
      in unless (failIf (wait < 1 \<or> 120 < wait \<or> ttl < 10 \<or> 3600 < ttl \<or> lease < 1 \<or> ttl \<le> lease \<or> most < 1 \<or> 100000 < most)
           (Refused ''invalid connection control limits''))
         (Inr (server\<lparr>svrConnectionWaitSeconds := wait, svrConnectionRequestTTLSeconds := ttl,
                      svrConnectionOfferLeaseSeconds := lease, svrConnectionMaxPending := most\<rparr>)))"

definition adminTokenOf :: "installEnv \<Rightarrow> coordinatorServer \<Rightarrow> installError + gostring" where
  "adminTokenOf E server =
     (if svrAdminToken server \<noteq> '''' then Inr (svrAdminToken server)
      else case randomToken (ieEntropy E 1) of
             None \<Rightarrow> Inl (NoRandomness ''generate coordinator admin token'')
           | Some token \<Rightarrow> Inr token)"

definition coordinatorCredentials :: "installEnv \<Rightarrow> coordinatorServer \<Rightarrow> installError + coordinatorServer" where
  "coordinatorCredentials E server =
     andThen (adminTokenOf E server) (\<lambda>token.
       if svrCertificate server \<noteq> '''' then Inr (server\<lparr>svrAdminToken := token\<rparr>)
       else let certificate = ieBeside E ''coordinator.crt''
            in case ieCertificate E certificate of
                 None \<Rightarrow> Inl NoCertificate
               | Some pin \<Rightarrow> Inr (server\<lparr>svrAdminToken := token, svrCertificate := certificate,
                                          svrKey := ieBeside E ''coordinator.key'', svrPinnedSHA256 := pin\<rparr>))"

definition coordinatorListeners :: "'z lib_scheme \<Rightarrow> options \<Rightarrow> bool \<Rightarrow> coordinatorServer \<Rightarrow> installError + coordinatorServer" where
  "coordinatorListeners L opts configure server0 =
     (let listen = (if configure \<and> \<not> given opts ''listen'' then svrListen server0 else opListen opts);
          setAdmin = (\<not> configure \<or> given opts ''admin-listen'' \<or> svrAdminListen server0 = '''');
          admin = (if setAdmin then opAdminListen opts else svrAdminListen server0)
      in unless (firstError
           [failIf (listen = '''') (Refused ''--listen is required for a coordinator''),
            map_option (BadListener ''invalid coordinator public listen address'') (validateHostPort listen),
            (if setAdmin then firstError
               [failIf (admin = '''') (Refused ''--admin-listen is required for a coordinator''),
                map_option BadAdminListener (validateAdminListen admin)]
             else None),
            failIf (sameListenAddress L listen admin)
              (Refused ''--listen and --admin-listen must use different addresses'')])
         (Inr (server0\<lparr>svrListen := listen, svrAdminListen := admin\<rparr>)))"

definition coordinatorPorts :: "'z lib_scheme \<Rightarrow> installEnv \<Rightarrow> coordinatorServer \<Rightarrow> installError option" where
  "coordinatorPorts L E server =
     firstError
       [noConflict L E ''coordinator public port'' (svrListen server),
        noConflict L E ''coordinator admin port'' (svrAdminListen server),
        failIf (\<not> ieAvailable E (svrListen server)) (Unavailable (svrListen server)),
        failIf (\<not> ieAvailable E (svrAdminListen server)) (Unavailable (svrAdminListen server))]"

definition coordinatorTouched :: "options \<Rightarrow> bool \<Rightarrow> profile \<Rightarrow> bool" where
  "coordinatorTouched opts configure p \<longleftrightarrow> pfRole p = ''coordinator'' \<and>
     (\<not> configure \<or> given opts ''listen'' \<or> given opts ''admin-listen'' \<or> given opts ''connection-wait-seconds''
      \<or> given opts ''connection-request-ttl-seconds'' \<or> given opts ''connection-offer-lease-seconds''
      \<or> given opts ''connection-max-pending'' \<or> svrAdminToken (pfServer p) = '''')"

definition installCoordinator ::
    "'z lib_scheme \<Rightarrow> installEnv \<Rightarrow> options \<Rightarrow> bool \<Rightarrow> profile \<Rightarrow> installError + profile" where
  "installCoordinator L E opts configure p =
     (if \<not> coordinatorTouched opts configure p then Inr p
      else andThen (coordinatorListeners L opts configure (pfServer p)) (\<lambda>server.
           andThen (coordinatorSettings opts configure server) (\<lambda>server.
             unless (if configure then None else coordinatorPorts L E server)
               (andThen (coordinatorCredentials E server) (\<lambda>server. Inr (p\<lparr>pfServer := server\<rparr>))))))"

definition relayCertificate :: "installEnv \<Rightarrow> relayConfig \<Rightarrow> installError + relayConfig" where
  "relayCertificate E relay =
     (if rcCertificate relay \<noteq> '''' then Inr relay
      else let certificate = ieBeside E ''relay.crt''
           in case ieCertificate E certificate of
                None \<Rightarrow> Inl NoCertificate
              | Some pin \<Rightarrow> Inr (relay\<lparr>rcCertificate := certificate, rcKey := ieBeside E ''relay.key'',
                                       rcPinnedSHA256 := pin\<rparr>))"

definition relayCredentials ::
    "'z lib_scheme \<Rightarrow> installEnv \<Rightarrow> options \<Rightarrow> relayConfig \<Rightarrow> installError + relayConfig \<times> gostring" where
  "relayCredentials L E opts relay0 =
     andThen (relayCertificate E relay0) (\<lambda>relay.
       if opRotateRelayToken opts \<or> rcAdmissionTokenHash relay = '''' then
         (case randomToken (ieEntropy E 2) of
            None \<Rightarrow> Inl (NoRandomness ''generate relay admission token'')
          | Some token \<Rightarrow> Inr (relay\<lparr>rcAdmissionTokenHash := relayAdmissionTokenHash L token\<rparr>, token))
       else unless (failIf (\<not> validRelayAdmissionTokenHash (rcAdmissionTokenHash relay))
              (Refused ''relay admission token configuration is invalid'')) (Inr (relay, '''')))"

definition relayListeners :: "'z lib_scheme \<Rightarrow> installEnv \<Rightarrow> options \<Rightarrow> bool \<Rightarrow> relayConfig \<Rightarrow> installError + relayConfig" where
  "relayListeners L E opts configure relay =
     (let listen = (if configure \<and> \<not> given opts ''transit-listen'' then rcListen relay else opTransitListen opts);
          endpoint = (if configure \<and> \<not> given opts ''transit-endpoint'' then rcEndpoint relay else opTransitEndpoint opts);
          priority = (if \<not> configure \<or> given opts ''relay-priority'' then opRelayPriority opts else rcPriority relay)
      in unless (firstError
           [failIf (listen = '''' \<or> endpoint = '''') (Refused ''--transit-listen and --transit-endpoint are required for a relay node''),
            map_option (BadListener ''invalid relay transit listen address'') (validateHostPort listen),
            map_option (BadListener ''invalid relay transit endpoint'') (validateHostPort endpoint),
            failIf (priority < 0) (Refused ''--relay-priority cannot be negative''),
            (if configure then None else firstError
               [noConflict L E ''relay transit port'' listen,
                failIf (\<not> ieAvailable E listen) (Unavailable listen)])])
         (Inr (relay\<lparr>rcListen := listen, rcEndpoint := endpoint, rcPriority := priority\<rparr>)))"

definition installRelay ::
    "'z lib_scheme \<Rightarrow> installEnv \<Rightarrow> options \<Rightarrow> bool \<Rightarrow> profile \<Rightarrow> installError + profile \<times> gostring" where
  "installRelay L E opts configure p =
     (if pfRole p = ''relay'' then
        andThen (relayListeners L E opts configure (pfRelay p)) (\<lambda>relay.
          andThen (relayCredentials L E opts relay) (\<lambda>(relay, token). Inr (p\<lparr>pfRelay := relay\<rparr>, token)))
      else if opRotateRelayToken opts then Inl (Refused ''--rotate-relay-token requires a relay node'')
      else if configure \<and> given opts ''role'' then Inr (p\<lparr>pfRelay := zeroRelayConfig\<rparr>, '''')
      else Inr (p, ''''))"

definition installSubnode :: "'z lib_scheme \<Rightarrow> options \<Rightarrow> bool \<Rightarrow> profile \<Rightarrow> installError + profile" where
  "installSubnode L opts configure p =
     (if pfRole p = ''subnode'' then
        let pick = (\<lambda>flag offered kept. if configure \<and> \<not> given opts flag then kept else offered);
            node = pick ''upstream-relay-node'' (opUpstreamRelayNode opts) (scRelayNodeID (pfSubnode p));
            endpoint = pick ''upstream-relay-endpoint'' (opUpstreamRelayEndpoint opts) (scRelayEndpoint (pfSubnode p));
            pin = pick ''upstream-relay-pin'' (opUpstreamRelayPin opts) (scRelayPinnedSHA256 (pfSubnode p));
            token = pick ''upstream-relay-token'' (opUpstreamRelayToken opts) (scRelayToken (pfSubnode p))
        in unless (firstError
             [failIf (node = '''' \<or> endpoint = '''' \<or> pin = '''' \<or> token = '''')
                (Refused ''--upstream-relay-node, --upstream-relay-endpoint, --upstream-relay-pin, and --upstream-relay-token are required for a subnode''),
              map_option (BadListener ''invalid upstream relay endpoint'') (validateHostPort endpoint),
              failIf (\<not> validSHA256Pin L pin) (Refused ''--upstream-relay-pin must be 64 hexadecimal characters'')])
           (Inr (p\<lparr>pfSubnode := \<lparr>scRelayNodeID = node, scRelayEndpoint = endpoint,
                    scRelayPinnedSHA256 = normalizePin L pin, scRelayToken = trimSpace token\<rparr>\<rparr>))
      else if configure \<and> given opts ''role'' then Inr (p\<lparr>pfSubnode := zeroSubnodeConfig\<rparr>)
      else Inr p)"

text \<open>The coordinator the node belongs to, and whether it has to enroll there.\<close>

definition chosenCoordinator ::
    "'z nodelib_scheme \<Rightarrow> options \<Rightarrow> bool \<Rightarrow> coordinatorClient \<Rightarrow> installError + coordinatorClient \<times> bool" where
  "chosenCoordinator L opts configure client =
     (if given opts ''coordinator'' \<or> (\<not> configure \<and> opCoordinator opts \<noteq> '''') then
        if opCoordinator opts = '''' then Inr (zeroCoordinatorClient, False)
        else unless (firstError
               [failIf (opCoordinatorPin opts = '''') (Refused ''--coordinator-pin is required with --coordinator''),
                map_option BadCoordinatorURL (validateCoordinatorURL L (opCoordinator opts))])
             (let origin = trimRightBytes ''/'' (opCoordinator opts);
                  pin = normalizePin L (opCoordinatorPin opts);
                  moved = (ccURL client \<noteq> origin \<or> ccPinnedSHA256 client \<noteq> pin)
              in Inr (if moved then zeroCoordinatorClient\<lparr>ccURL := origin, ccPinnedSHA256 := pin\<rparr> else client,
                      moved \<or> ccCredential client = None))
      else Inr (client, False))"

definition installClient :: "'z nodelib_scheme \<Rightarrow> options \<Rightarrow> bool \<Rightarrow> profile \<Rightarrow> installError + profile \<times> bool" where
  "installClient L opts configure p =
     andThen (chosenCoordinator L opts configure (pfCoordinator p)) (\<lambda>(client, needsEnrollment).
       unless (firstError
         [failIf (pfRole p = ''relay'' \<and> ccURL client = '''')
            (Refused ''a relay node must configure --coordinator and --coordinator-pin''),
          failIf (pfRole p = ''subnode'' \<and> ccURL client = '''')
            (Refused ''a subnode must configure --coordinator and --coordinator-pin'')])
       (Inr (p\<lparr>pfCoordinator := client\<rparr>, needsEnrollment)))"

text \<open>
  The profile \<open>install\<close> builds, with the relay token to print and whether an enrollment follows
  (\<open>installed\<close>), and the command up to the point where the profile is saved. What follows talks
  to the coordinator and to the service manager of the system.
\<close>

definition installed ::
    "'z nodelib_scheme \<Rightarrow> installEnv \<Rightarrow> options \<Rightarrow> bool \<Rightarrow> profile \<Rightarrow> installError + profile \<times> gostring \<times> bool" where
  "installed L E opts configure p =
     andThen (installIdentity E opts configure p) (\<lambda>p.
     andThen (installCoordinator L E opts configure p) (\<lambda>p.
     andThen (installRelay L E opts configure p) (\<lambda>(p, token).
     andThen (installSubnode L opts configure p) (\<lambda>p.
     andThen (installClient L opts configure p) (\<lambda>(p, needsEnrollment). Inr (p, token, needsEnrollment))))))"

definition install ::
    "'z nodelib_scheme \<Rightarrow> installEnv \<Rightarrow> options \<Rightarrow> bool \<Rightarrow> profile slot \<Rightarrow>
      (installError + profile \<times> gostring \<times> bool) \<times> profile slot" where
  "install L E opts configure s =
     (if configure \<and> slotFile s = NoFile then (Inl (Refused ''node instance does not exist''), s)
      else if \<not> configure \<and> slotFile s \<noteq> NoFile then (Inl (Refused ''node instance already exists; use configure-node''), s)
      else case andThen (case loadProfile (slotFile s) of Inl err \<Rightarrow> Inl (ProfileProblem err) | Inr p \<Rightarrow> Inr p)
                  (installed L E opts configure) of
             Inl err \<Rightarrow> (Inl err, s)
           | Inr (p, token, needsEnrollment) \<Rightarrow>
               (case saveProfile (ieWrite E) p s of
                  (False, s') \<Rightarrow> (Inl NotSaved, s')
                | (True, s') \<Rightarrow> (Inr (p, token, needsEnrollment), s')))"

section \<open>Mappings\<close>

text \<open>The checks against the mappings the node has, in the order of the loop.\<close>

fun mappingClash :: "'z lib_scheme \<Rightarrow> options \<Rightarrow> mapping list \<Rightarrow> installError option" where
  "mappingClash L opts [] = None"
| "mappingClash L opts (x # xs) =
     (if mpName x = opName opts then Some (Refused ''mapping name already exists'')
      else if sameListenAddress L (mpListen x) (opListen opts) then Some (OwnedBy ''--listen'' (mpName x))
      else mappingClash L opts xs)"

definition newMapping :: "installEnv \<Rightarrow> options \<Rightarrow> installError + mapping" where
  "newMapping E opts =
     (let m = zeroMapping\<lparr>mpName := opName opts, mpKind := opKind opts, mpListen := opListen opts,
                mpTarget := opTarget opts, mpTargetNode := opTargetNode opts, mpService := opService opts\<rparr>
      in if opKind opts \<noteq> ''publish'' then Inr m
         else case randomUUID (ieEntropy E 0) of
                None \<Rightarrow> Inl (NoRandomness ''generate publish UUID'')
              | Some uuid \<Rightarrow>
                  let certificate = ieBeside E (opName opts @ ''.crt'')
                  in case ieCertificate E certificate of
                       None \<Rightarrow> Inl NoCertificate
                     | Some pin \<Rightarrow> Inr (m\<lparr>mpUUID := uuid, mpCertificate := certificate,
                                          mpKey := ieBeside E (opName opts @ ''.key''), mpCertificateSHA256 := pin\<rparr>))"

definition mappedProfile :: "'z lib_scheme \<Rightarrow> installEnv \<Rightarrow> options \<Rightarrow> profile \<Rightarrow> installError + profile" where
  "mappedProfile L E opts p =
     unless (firstError
       [failIf (opKind opts = ''pull'' \<and> ccURL (pfCoordinator p) = '''')
          (Refused ''an automatic pull requires the node to be registered with a coordinator''),
        mappingClash L opts (pfMappings p),
        map_option (BadListener ''invalid mapping listen address'') (validateHostPort (opListen opts)),
        noConflict L E ''--listen'' (opListen opts),
        failIf (\<not> ieAvailable E (opListen opts)) (Unavailable (opListen opts))])
     (andThen (newMapping E opts) (\<lambda>m. Inr (p\<lparr>pfMappings := pfMappings p @ [m]\<rparr>)))"

definition addMapping ::
    "'z lib_scheme \<Rightarrow> installEnv \<Rightarrow> options \<Rightarrow> profile slot \<Rightarrow> (installError + profile) \<times> profile slot" where
  "addMapping L E opts s =
     (case unless (firstError
         [failIf (opName opts = '''' \<or> opListen opts = '''') (Refused ''--name and --listen are required''),
          failIf (opKind opts \<noteq> ''pull'' \<and> opKind opts \<noteq> ''publish'')
            (Refused ''--kind must be pull or publish; relay capability belongs to a relay node''),
          (if opKind opts = ''publish'' then firstError
             [failIf (opTarget opts = '''') (Refused ''--target is required for publish''),
              map_option (BadListener ''invalid publish target address'') (validateHostPort (opTarget opts))]
           else failIf (opTargetNode opts = '''' \<or> opService opts = '''')
                  (Refused ''--target-node and --service are required for pull''))])
       (andThen (case loadProfile (slotFile s) of Inl err \<Rightarrow> Inl (ProfileProblem err) | Inr p \<Rightarrow> Inr p)
         (mappedProfile L E opts)) of
        Inl err \<Rightarrow> (Inl err, s)
      | Inr p \<Rightarrow>
          (case saveProfile (ieWrite E) p s of
             (False, s') \<Rightarrow> (Inl NotSaved, s')
           | (True, s') \<Rightarrow> (Inr p, s')))"

definition removeMapping :: "writeOutcome \<Rightarrow> gostring \<Rightarrow> profile slot \<Rightarrow> installError option \<times> profile slot" where
  "removeMapping outcome name s =
     (if name = '''' then (Some (Refused ''--name is required''), s)
      else case loadProfile (slotFile s) of
             Inl err \<Rightarrow> (Some (ProfileProblem err), s)
           | Inr p \<Rightarrow>
               if \<not> (\<exists>m \<in> set (pfMappings p). mpName m = name) then (Some (Refused ''mapping not found''), s)
               else (case saveProfile outcome (p\<lparr>pfMappings := filter (\<lambda>m. mpName m \<noteq> name) (pfMappings p)\<rparr>) s of
                       (False, s') \<Rightarrow> (Some NotSaved, s')
                     | (True, s') \<Rightarrow> (None, s')))"

end
