(* ===== verification/Node_Config_Safety.thy ===== *)
theory Node_Config_Safety
  imports Node_Config
begin

text \<open>
  What the commands of Node_Config promise: a profile they save is one the service manager runs, a
  mapping that was added can be removed without a trace; and where they do not.
\<close>

section \<open>A node that was added\<close>

text \<open>
  What the surroundings must provide: certificates whose files exist once they were made and whose
  pin is a digest, an instance name the command line has checked (\<open>profilePathFor\<close>), digests of 32
  bytes, and coordinator URLs that stay valid without their trailing slash.
\<close>

definition sound_surroundings :: "'z nodelib_scheme \<Rightarrow> installEnv \<Rightarrow> (gostring \<Rightarrow> fileKind option) \<Rightarrow> bool" where
  "sound_surroundings L E stat \<longleftrightarrow>
     (\<forall>f pin. ieCertificate E f = Some pin \<longrightarrow> validSHA256Pin L pin)
     \<and> (\<forall>name. ieBeside E name \<noteq> '''' \<and> stat (ieBeside E name) = Some RegularFile)
     \<and> (\<forall>s. length (sha256 L s) = 32)
     \<and> (\<forall>u. validateCoordinatorURL L u = None \<longrightarrow> validateCoordinatorURL L (trimRightBytes ''/'' u) = None
          \<and> trimRightBytes ''/'' u \<noteq> '''')"

lemma installIdentity_ok:
  assumes "installIdentity E opts configure p = Inr p'"
  shows "pfInstance p' = opInstance opts" and "validNodeRole (pfRole p')"
    and "trimSpace (pfVirtualNetwork p') \<noteq> ''''" "trimSpace (pfSegment p') \<noteq> ''''"
    and "pfServer p' = pfServer p" "pfRelay p' = pfRelay p" "pfSubnode p' = pfSubnode p"
    and "pfCoordinator p' = pfCoordinator p" "pfMappings p' = pfMappings p" "pfDisabled p' = pfDisabled p" "pfVersion p' = pfVersion p"
    and "\<not> configure \<Longrightarrow> pfRole p' = opRole opts"
proof -
  define q where "q = identityOptions opts configure p"
  with assms obtain node where p': "p' = q\<lparr>pfNode := node\<rparr>" and "validNodeRole (pfRole q)"
    "trimSpace (pfVirtualNetwork q) \<noteq> ''''" "trimSpace (pfSegment q) \<noteq> ''''"
    by (auto simp: installIdentity_def Let_def)
  then show "validNodeRole (pfRole p')" "trimSpace (pfVirtualNetwork p') \<noteq> ''''" "trimSpace (pfSegment p') \<noteq> ''''" by simp_all
  show "pfInstance p' = opInstance opts" "pfServer p' = pfServer p" "pfRelay p' = pfRelay p" "pfSubnode p' = pfSubnode p"
    "pfCoordinator p' = pfCoordinator p" "pfMappings p' = pfMappings p" "pfDisabled p' = pfDisabled p" "pfVersion p' = pfVersion p"
    "\<not> configure \<Longrightarrow> pfRole p' = opRole opts"
    by (simp_all add: p' q_def identityOptions_def)
qed

lemma installCoordinator_other:
  assumes "installCoordinator L E opts configure p = Inr p'"
  shows "\<exists>server. p' = p\<lparr>pfServer := server\<rparr>"
proof (cases "coordinatorTouched opts configure p")
  case False
  with assms have "p' = p\<lparr>pfServer := pfServer p\<rparr>" by (simp add: installCoordinator_def)
  then show ?thesis by blast
qed (use assms in \<open>auto simp: installCoordinator_def\<close>)

lemma installCoordinator_ok:
  assumes "installCoordinator L E opts False p = Inr p'" and "pfRole p = ''coordinator''"
    and "svrCertificate (pfServer p) = ''''" and "sound_surroundings L E stat"
  shows "validateHostPort (svrListen (pfServer p')) = None" "validateAdminListen (svrAdminListen (pfServer p')) = None"
    "\<not> sameListenAddress L (svrListen (pfServer p')) (svrAdminListen (pfServer p'))"
    "svrAdminToken (pfServer p') \<noteq> ''''" "validSHA256Pin L (svrPinnedSHA256 (pfServer p'))"
    "\<forall>f \<in> {svrCertificate (pfServer p'), svrKey (pfServer p')}. f \<noteq> '''' \<and> stat f = Some RegularFile"
proof -
  from assms(1,2) obtain a b c where a: "coordinatorListeners L opts False (pfServer p) = Inr a"
    and b: "coordinatorSettings opts False a = Inr b" and c: "coordinatorCredentials E b = Inr c" and p': "p' = p\<lparr>pfServer := c\<rparr>"
    by (auto simp: installCoordinator_def coordinatorTouched_def)
  have a': "validateHostPort (svrListen a) = None" "validateAdminListen (svrAdminListen a) = None"
      "\<not> sameListenAddress L (svrListen a) (svrAdminListen a)" "svrCertificate a = ''''"
    using a assms(3) by (auto simp: coordinatorListeners_def Let_def)
  have b': "svrListen b = svrListen a" "svrAdminListen b = svrAdminListen a" "svrCertificate b = svrCertificate a"
    using b by (auto simp: coordinatorSettings_def Let_def)
  have c': "svrListen c = svrListen b" "svrAdminListen c = svrAdminListen b" "svrAdminToken c \<noteq> ''''"
      "svrCertificate b = '''' \<Longrightarrow> \<exists>pin. ieCertificate E (ieBeside E ''coordinator.crt'') = Some pin
         \<and> svrCertificate c = ieBeside E ''coordinator.crt'' \<and> svrKey c = ieBeside E ''coordinator.key'' \<and> svrPinnedSHA256 c = pin"
  proof -
    from c obtain token where t: "adminTokenOf E b = Inr token"
      and c0: "(if svrCertificate b \<noteq> '''' then Inr (b\<lparr>svrAdminToken := token\<rparr>)
         else let certificate = ieBeside E ''coordinator.crt''
              in case ieCertificate E certificate of None \<Rightarrow> Inl NoCertificate
                 | Some pin \<Rightarrow> Inr (b\<lparr>svrAdminToken := token, svrCertificate := certificate,
                     svrKey := ieBeside E ''coordinator.key'', svrPinnedSHA256 := pin\<rparr>)) = Inr c"
      by (auto simp only: coordinatorCredentials_def andThen_Inr)
    have "token \<noteq> ''''" using t by (auto simp: adminTokenOf_def dest: randomToken_nonempty split: if_splits option.splits)
    with c0 show "svrListen c = svrListen b" "svrAdminListen c = svrAdminListen b" "svrAdminToken c \<noteq> ''''"
      by (auto simp: Let_def split: if_splits option.splits)
    show "\<exists>pin. ieCertificate E (ieBeside E ''coordinator.crt'') = Some pin \<and> svrCertificate c = ieBeside E ''coordinator.crt''
        \<and> svrKey c = ieBeside E ''coordinator.key'' \<and> svrPinnedSHA256 c = pin" if "svrCertificate b = ''''"
    proof (cases "ieCertificate E (ieBeside E ''coordinator.crt'')")
      case (Some pin)
      with c0 that have "c = b\<lparr>svrAdminToken := token, svrCertificate := ieBeside E ''coordinator.crt'',
          svrKey := ieBeside E ''coordinator.key'', svrPinnedSHA256 := pin\<rparr>" by simp
      with Some show ?thesis by simp
    qed (use c0 that in simp)
  qed
  from a' b' c' assms(4) show "validateHostPort (svrListen (pfServer p')) = None" "validateAdminListen (svrAdminListen (pfServer p')) = None"
    "\<not> sameListenAddress L (svrListen (pfServer p')) (svrAdminListen (pfServer p'))"
    "svrAdminToken (pfServer p') \<noteq> ''''" "validSHA256Pin L (svrPinnedSHA256 (pfServer p'))"
    "\<forall>f \<in> {svrCertificate (pfServer p'), svrKey (pfServer p')}. f \<noteq> '''' \<and> stat f = Some RegularFile"
    by (auto simp: p' sound_surroundings_def)
qed

lemma installRelay_other:
  assumes "installRelay L E opts configure p = Inr (p', token)"
  shows "\<exists>relay. p' = p\<lparr>pfRelay := relay\<rparr>"
proof (cases "pfRole p = ''relay'' \<or> (configure \<and> given opts ''role'')")
  case False
  with assms have "p' = p\<lparr>pfRelay := pfRelay p\<rparr>" by (auto simp: installRelay_def split: if_splits)
  then show ?thesis by blast
qed (use assms in \<open>auto simp: installRelay_def split: if_splits\<close>)

lemma installRelay_ok:
  assumes "installRelay L E opts False p = Inr (p', token)" and "pfRole p = ''relay''"
    and "pfRelay p = zeroRelayConfig" and "sound_surroundings L E stat"
  shows "validateHostPort (rcListen (pfRelay p')) = None" "validateHostPort (rcEndpoint (pfRelay p')) = None"
    "0 \<le> rcPriority (pfRelay p')" "validSHA256Pin L (rcPinnedSHA256 (pfRelay p'))"
    "rcAdmissionTokenHash (pfRelay p') = relayAdmissionTokenHash L token" "validRelayAdmissionTokenHash (rcAdmissionTokenHash (pfRelay p'))"
    "\<forall>f \<in> {rcCertificate (pfRelay p'), rcKey (pfRelay p')}. f \<noteq> '''' \<and> stat f = Some RegularFile"
proof -
  from assms(1,2) obtain a b where a: "relayListeners L E opts False (pfRelay p) = Inr a"
    and b: "relayCredentials L E opts a = Inr (b, token)" and p': "p' = p\<lparr>pfRelay := b\<rparr>"
    by (auto simp: installRelay_def)
  have a': "validateHostPort (rcListen a) = None" "validateHostPort (rcEndpoint a) = None" "0 \<le> rcPriority a"
      "rcCertificate a = ''''" "rcAdmissionTokenHash a = ''''"
    using a assms(3) by (auto simp: relayListeners_def zeroRelayConfig_def Let_def)
  from b obtain q where q: "relayCertificate E a = Inr q" and b0: "randomToken (ieEntropy E 2) \<noteq> None \<Longrightarrow>
      rcAdmissionTokenHash q = '''' \<Longrightarrow> b = q\<lparr>rcAdmissionTokenHash := relayAdmissionTokenHash L token\<rparr>"
      "rcAdmissionTokenHash q = '''' \<Longrightarrow> randomToken (ieEntropy E 2) \<noteq> None"
    by (auto simp: relayCredentials_def split: if_splits option.splits)
  have q': "rcListen q = rcListen a" "rcEndpoint q = rcEndpoint a" "rcPriority q = rcPriority a" "rcAdmissionTokenHash q = ''''"
      "ieCertificate E (ieBeside E ''relay.crt'') = Some (rcPinnedSHA256 q)" "rcCertificate q = ieBeside E ''relay.crt''"
      "rcKey q = ieBeside E ''relay.key''"
    using q a'(4,5) by (auto simp: relayCertificate_def Let_def split: option.splits)
  then have b': "b = q\<lparr>rcAdmissionTokenHash := relayAdmissionTokenHash L token\<rparr>" using b0 by blast
  from a' b' q' assms(4) show "validateHostPort (rcListen (pfRelay p')) = None" "validateHostPort (rcEndpoint (pfRelay p')) = None"
    "0 \<le> rcPriority (pfRelay p')" "validSHA256Pin L (rcPinnedSHA256 (pfRelay p'))"
    "rcAdmissionTokenHash (pfRelay p') = relayAdmissionTokenHash L token" "validRelayAdmissionTokenHash (rcAdmissionTokenHash (pfRelay p'))"
    "\<forall>f \<in> {rcCertificate (pfRelay p'), rcKey (pfRelay p')}. f \<noteq> '''' \<and> stat f = Some RegularFile"
    by (auto simp: p' sound_surroundings_def relayAdmissionTokenHash_valid)
qed

lemma installSubnode_other:
  assumes "installSubnode L opts configure p = Inr p'"
  shows "\<exists>subnode. p' = p\<lparr>pfSubnode := subnode\<rparr>"
proof (cases "pfRole p = ''subnode'' \<or> (configure \<and> given opts ''role'')")
  case False
  with assms have "p' = p\<lparr>pfSubnode := pfSubnode p\<rparr>" by (auto simp: installSubnode_def split: if_splits)
  then show ?thesis by blast
qed (use assms in \<open>auto simp: installSubnode_def Let_def split: if_splits\<close>)

lemma installSubnode_ok:
  assumes "installSubnode L opts False p = Inr p'" and "pfRole p = ''subnode''"
  shows "scRelayNodeID (pfSubnode p') \<noteq> ''''" "validateHostPort (scRelayEndpoint (pfSubnode p')) = None"
    "validSHA256Pin L (scRelayPinnedSHA256 (pfSubnode p'))" "scRelayToken (pfSubnode p') = trimSpace (opUpstreamRelayToken opts)"
  using assms by (auto simp: installSubnode_def Let_def validSHA256Pin_normalized)

lemma installClient_other:
  assumes "installClient L opts configure p = Inr (p', enroll)"
  shows "\<exists>coordinator. p' = p\<lparr>pfCoordinator := coordinator\<rparr>"
  using assms by (auto simp: installClient_def)

lemma installClient_ok:
  assumes "installClient L opts False p = Inr (p', enroll)" and "pfCoordinator p = zeroCoordinatorClient"
    and "sound_surroundings L E stat" and "opCoordinator opts \<noteq> '''' \<Longrightarrow> validSHA256Pin L (opCoordinatorPin opts)"
  shows "ccURL (pfCoordinator p') = '''' \<or> validateCoordinatorURL L (ccURL (pfCoordinator p')) = None
      \<and> validSHA256Pin L (ccPinnedSHA256 (pfCoordinator p'))"
    and "pfRole p' \<in> {''relay'', ''subnode''} \<Longrightarrow> ccURL (pfCoordinator p') \<noteq> ''''"
proof -
  from assms(1) obtain client where c: "chosenCoordinator L opts False (pfCoordinator p) = Inr (client, enroll)"
    and p': "p' = p\<lparr>pfCoordinator := client\<rparr>" by (auto simp: installClient_def)
  have "ccURL client = '''' \<or> validateCoordinatorURL L (ccURL client) = None \<and> validSHA256Pin L (ccPinnedSHA256 client)"
  proof (cases "opCoordinator opts = ''''")
    case True
    with c assms(2) have "client = zeroCoordinatorClient" by (auto simp: chosenCoordinator_def split: if_splits)
    then show ?thesis by (simp add: zeroCoordinatorClient_def)
  next
    case False
    with c have url: "validateCoordinatorURL L (opCoordinator opts) = None"
      and client: "ccURL client = trimRightBytes ''/'' (opCoordinator opts)" "ccPinnedSHA256 client = normalizePin L (opCoordinatorPin opts)"
      by (auto simp: chosenCoordinator_def Let_def split: if_splits)
    with assms(3) assms(4) [OF False] show ?thesis by (simp add: sound_surroundings_def validSHA256Pin_normalized)
  qed
  then show "ccURL (pfCoordinator p') = '''' \<or> validateCoordinatorURL L (ccURL (pfCoordinator p')) = None
      \<and> validSHA256Pin L (ccPinnedSHA256 (pfCoordinator p'))" by (simp add: p')
  show "pfRole p' \<in> {''relay'', ''subnode''} \<Longrightarrow> ccURL (pfCoordinator p') \<noteq> ''''"
    using assms(1) by (auto simp: installClient_def)
qed


section \<open>Mappings\<close>

definition roleListeners :: "profile \<Rightarrow> gostring list" where
  "roleListeners p =
     (if pfRole p = ''coordinator'' then [svrListen (pfServer p), svrAdminListen (pfServer p)] else [])
     @ (if pfRole p = ''relay'' then [rcListen (pfRelay p)] else [])"

lemma managedListeners_split: "managedListeners p = roleListeners p @ map mpListen (pfMappings p)"
  by (simp add: managedListeners_def roleListeners_def)

lemma mappingClash_None:
  "mappingClash L opts ms = None \<longleftrightarrow> (\<forall>m \<in> set ms. mpName m \<noteq> opName opts \<and> \<not> sameListenAddress L (mpListen m) (opListen opts))"
  by (induction ms) auto

lemma mappedProfile_ok:
  assumes "mappedProfile L E opts p = Inr p'"
  obtains m where "p' = p\<lparr>pfMappings := pfMappings p @ [m]\<rparr>" and "newMapping E opts = Inr m"
    and "validateHostPort (opListen opts) = None"
    and "\<forall>x \<in> set (pfMappings p). mpName x \<noteq> opName opts \<and> \<not> sameListenAddress L (mpListen x) (opListen opts)"
  using assms by (auto simp: mappedProfile_def mappingClash_None)

lemma addMapping_cases:
  assumes "addMapping L E opts s = (Inr p', s')"
  obtains p where "loadProfile (slotFile s) = Inr p" and "mappedProfile L E opts p = Inr p'" and "opName opts \<noteq> ''''"
    and "opKind opts = ''publish'' \<and> validateHostPort (opTarget opts) = None
      \<or> opKind opts = ''pull'' \<and> opTargetNode opts \<noteq> '''' \<and> opService opts \<noteq> ''''"
    and "slotFile s' = Holds p'"
proof -
  let ?checks = "firstError
         [failIf (opName opts = '''' \<or> opListen opts = '''') (Refused ''--name and --listen are required''),
          failIf (opKind opts \<noteq> ''pull'' \<and> opKind opts \<noteq> ''publish'')
            (Refused ''--kind must be pull or publish; relay capability belongs to a relay node''),
          (if opKind opts = ''publish'' then firstError
             [failIf (opTarget opts = '''') (Refused ''--target is required for publish''),
              map_option (BadListener ''invalid publish target address'') (validateHostPort (opTarget opts))]
           else failIf (opTargetNode opts = '''' \<or> opService opts = '''')
                  (Refused ''--target-node and --service are required for pull''))]"
  let ?rest = "andThen (case loadProfile (slotFile s) of Inl err \<Rightarrow> Inl (ProfileProblem err) | Inr p \<Rightarrow> Inr p) (mappedProfile L E opts)"
  from assms obtain q where q: "unless ?checks ?rest = Inr q"
    unfolding addMapping_def by (cases "unless ?checks ?rest") auto
  with assms have "q = p'" and saved: "saveProfile (ieWrite E) p' s = (True, s')"
    unfolding addMapping_def by (auto simp del: unless_Inr split: prod.splits bool.splits)
  with q obtain p where "loadProfile (slotFile s) = Inr p" "mappedProfile L E opts p = Inr p'" "?checks = None"
    by (auto split: sum.splits)
  moreover have "slotFile s' = Holds p'"
    using saved replaceFile_file [of "ieWrite E" p' s] by (simp add: saveProfile_def)
  ultimately show thesis using that by (auto split: if_splits)
qed

lemma newMapping_ok:
  assumes "newMapping E opts = Inr m"
  shows "mpName m = opName opts" "mpKind m = opKind opts" "mpListen m = opListen opts" "mpTarget m = opTarget opts"
    "mpTargetNode m = opTargetNode opts" "mpService m = opService opts"
    and "sound_surroundings L E stat \<Longrightarrow> opKind opts = ''publish'' \<Longrightarrow> mpUUID m \<noteq> '''' \<and> validSHA256Pin L (mpCertificateSHA256 m)
      \<and> mpCertificate m \<noteq> '''' \<and> stat (mpCertificate m) = Some RegularFile \<and> mpKey m \<noteq> '''' \<and> stat (mpKey m) = Some RegularFile"
  using assms by (auto simp: newMapping_def zeroMapping_def sound_surroundings_def Let_def dest: randomUUID_nonempty
      split: if_splits option.splits)

text \<open>C17: Adding a mapping keeps a valid profile valid, when the mapping does not claim an address the
  node itself listens on in its role; that last clash the command does not look for.\<close>

theorem added_mapping_keeps_valid:
  assumes "addMapping L E opts s = (Inr p', s')" and "loadProfile (slotFile s) = Inr p" and "profile_ok L stat p"
    and "sound_surroundings L E stat"
    and "\<forall>a \<in> set (roleListeners p). \<not> sameListenAddress L a (opListen opts)"
  shows "profile_ok L stat p' \<and> loadProfile (slotFile s') = Inr p'"
proof (rule addMapping_cases [OF assms(1)])
  fix q
  assume q: "loadProfile (slotFile s) = Inr q" and mapped: "mappedProfile L E opts q = Inr p'" and name: "opName opts \<noteq> ''''"
    and kind: "opKind opts = ''publish'' \<and> validateHostPort (opTarget opts) = None
      \<or> opKind opts = ''pull'' \<and> opTargetNode opts \<noteq> '''' \<and> opService opts \<noteq> ''''"
    and saved: "slotFile s' = Holds p'"
  from q assms(2) have "q = p" by simp
  with mapped have mapped: "mappedProfile L E opts p = Inr p'" by simp
  show ?thesis
  proof (rule mappedProfile_ok [OF mapped])
    fix m
    assume p': "p' = p\<lparr>pfMappings := pfMappings p @ [m]\<rparr>" and m: "newMapping E opts = Inr m"
      and listen: "validateHostPort (opListen opts) = None"
      and new: "\<forall>x \<in> set (pfMappings p). mpName x \<noteq> opName opts \<and> \<not> sameListenAddress L (mpListen x) (opListen opts)"
    note m' = newMapping_ok [OF m]
    have "mapping_ok L stat m"
      using kind name listen m'(1-6) m'(7) [OF assms(4)] by (auto simp: mapping_ok_def)
    moreover have "disjointListeners L (managedListeners p @ [mpListen m])"
      using assms(3,5) new m'(3) by (auto simp: disjointListeners_def profile_ok_def sorted_wrt_append managedListeners_split)
    moreover have "managedListeners p' = managedListeners p @ [mpListen m]"
      by (simp add: managedListeners_split roleListeners_def p')
    moreover have "role_ok L stat p' = role_ok L stat p" by (simp add: role_ok_def p')
    ultimately have "profile_ok L stat p'"
      using assms(3) new m'(1) by (auto simp: profile_ok_def p')
    moreover have "loadProfile (slotFile s') = Inr p'"
      using loadProfile_ok [OF assms(2)] by (simp add: saved loadProfile_Holds p')
    ultimately show ?thesis by simp
  qed
qed

text \<open>Removing a mapping undoes adding it: the profile is again what it was, and nothing else of
  the file has changed in between.\<close>

theorem remove_undoes_add:
  assumes "addMapping L E opts s = (Inr p', s')" and "loadProfile (slotFile s) = Inr p"
  shows "\<exists>s''. removeMapping WroteFile (opName opts) s' = (None, s'') \<and> slotFile s'' = Holds p"
proof (rule addMapping_cases [OF assms(1)])
  fix q
  assume q: "loadProfile (slotFile s) = Inr q" and mapped: "mappedProfile L E opts q = Inr p'" and name: "opName opts \<noteq> ''''"
    and saved: "slotFile s' = Holds p'"
  from q assms(2) have "q = p" by simp
  with mapped obtain m where p': "p' = p\<lparr>pfMappings := pfMappings p @ [m]\<rparr>" and m: "newMapping E opts = Inr m"
    and new: "\<forall>x \<in> set (pfMappings p). mpName x \<noteq> opName opts \<and> \<not> sameListenAddress L (mpListen x) (opListen opts)"
    by (auto elim: mappedProfile_ok)
  have load: "loadProfile (slotFile s') = Inr p'"
    using loadProfile_ok [OF assms(2)] by (simp add: saved loadProfile_Holds p')
  have "filter (\<lambda>x. mpName x \<noteq> opName opts) (pfMappings p') = pfMappings p"
    using new newMapping_ok(1) [OF m] by (simp add: p')
  then show ?thesis
    using name newMapping_ok(1) [OF m] load
    by (simp add: removeMapping_def saveProfile_def replaceFile_def p')
qed

section \<open>Where validation and the commands part\<close>

text \<open>A host with no other node, where every address is free.\<close>

definition freshHost :: installEnv where
  "freshHost = \<lparr>ieHostname = ''host'', ieEntropy = (\<lambda>_. replicate 32 (CHR 0x07)),
     ieCertificate = (\<lambda>_. Some (replicate 64 (CHR ''a''))), ieListing = NoDirectory, ieExcluded = (\<lambda>_. False),
     ieAvailable = (\<lambda>_. True), ieBeside = (\<lambda>name. ''/n/'' @ name), ieWrite = WroteFile\<rparr>"

definition blankOptions :: options where
  "blankOptions = \<lparr>opRole = [], opSegment = ''default'', opName = [], opKind = [], opListen = [], opAdminListen = [],
     opTarget = [], opTargetNode = [], opService = [], opTransitListen = [], opTransitEndpoint = [],
     opUpstreamRelayNode = [], opUpstreamRelayEndpoint = [], opUpstreamRelayPin = [], opUpstreamRelayToken = [],
     opCoordinator = [], opCoordinatorPin = [], opNetwork = ''default'', opNodeName = [], opInstance = [],
     opRelayPriority = 100, opConnectionWaitSeconds = 25, opConnectionTTLSeconds = 120, opConnectionLeaseSeconds = 15,
     opConnectionMaxPending = 10000, opRotateRelayToken = False, opSet = []\<rparr>"

definition relayOptions :: options where
  "relayOptions = blankOptions\<lparr>opInstance := ''relay'', opRole := ''relay'', opTransitListen := ''0.0.0.0:7000'',
     opTransitEndpoint := ''10.0.0.1:7000'', opCoordinator := ''https://c:443'', opCoordinatorPin := replicate 64 (CHR ''b'')\<rparr>"

definition subnodeOptions :: options where
  "subnodeOptions = blankOptions\<lparr>opInstance := ''sub'', opRole := ''subnode'', opUpstreamRelayNode := ''r'',
     opUpstreamRelayEndpoint := ''10.0.0.1:7000'', opUpstreamRelayPin := replicate 64 (CHR ''a''),
     opUpstreamRelayToken := '' '', opCoordinator := ''https://c:443'', opCoordinatorPin := replicate 64 (CHR ''b'')\<rparr>"

definition pullOptions :: options where
  "pullOptions = blankOptions\<lparr>opName := ''web'', opKind := ''pull'', opListen := ''127.0.0.1:7000'',
     opTargetNode := ''n2'', opService := ''web''\<rparr>"

definition emptySlot :: "profile slot" where
  "emptySlot = \<lparr>slotFile = NoFile, slotTemp = NoFile\<rparr>"

definition relayNode :: "(installError + profile \<times> gostring \<times> bool) \<times> profile slot" where
  "relayNode = install sampleNodeLib freshHost relayOptions False emptySlot"

definition relayProfile :: profile where
  "relayProfile = zeroProfile\<lparr>pfVersion := profileVersion, pfInstance := ''relay'', pfRole := ''relay'',
     pfSegment := ''default'', pfVirtualNetwork := ''default'',
     pfNode := \<lparr>nfID = ''07070707-0707-4707-8707-070707070707'', nfName = ''host''\<rparr>,
     pfCoordinator := zeroCoordinatorClient\<lparr>ccURL := ''https://c:443'', ccPinnedSHA256 := replicate 64 (CHR ''b'')\<rparr>,
     pfRelay := \<lparr>rcListen = ''0.0.0.0:7000'', rcEndpoint = ''10.0.0.1:7000'', rcPriority = 100,
       rcCertificate = ''/n/relay.crt'', rcKey = ''/n/relay.key'', rcPinnedSHA256 = replicate 64 (CHR ''a''),
       rcAdmissionTokenHash = concat (replicate 16 ''3037'')\<rparr>\<rparr>"

lemma relayNode_value [code]:
  "relayNode = (Inr (relayProfile, concat (replicate 32 ''07''), True), \<lparr>slotFile = Holds relayProfile, slotTemp = NoFile\<rparr>)"
  by code_simp

definition relayPulls :: "(installError + profile) \<times> profile slot" where
  "relayPulls = addMapping sampleNodeLib freshHost pullOptions (snd relayNode)"

text \<open>A relay on every address of port 7000 is given a mapping on the same port: the command saves
  it, the manager rejects the profile from then on.\<close>

theorem add_mapping_breaks_relay:
  "case fst relayPulls of Inl err \<Rightarrow> False
   | Inr p \<Rightarrow> validateManagedProfile sampleNodeLib (\<lambda>_. Some RegularFile) p
       = Some (ListenersConflict ''0.0.0.0:7000'' ''127.0.0.1:7000'')"
  by code_simp

text \<open>A subnode is added with a blank admission token, which the manager rejects.\<close>

theorem blank_token_is_saved:
  "case fst (install sampleNodeLib freshHost subnodeOptions False emptySlot) of Inl err \<Rightarrow> False
   | Inr (p, token, enroll) \<Rightarrow> validateManagedProfile sampleNodeLib (\<lambda>_. Some RegularFile) p = Some SubnodeRequirements"
  by code_simp

section \<open>Witnesses\<close>

lemma fresh_surroundings: "sound_surroundings sampleNodeLib freshHost (\<lambda>_. Some RegularFile)"
proof -
  have "validSHA256Pin sampleNodeLib (replicate 64 (CHR ''a''))" by code_simp
  then have pins: "\<forall>f pin. ieCertificate freshHost f = Some pin \<longrightarrow> validSHA256Pin sampleNodeLib pin"
    by (simp only: freshHost_def installEnv.select_convs option.inject) blast
  have files: "\<forall>name. ieBeside freshHost name \<noteq> ''''" by (simp add: freshHost_def)
  have digests: "\<forall>s. length (sha256 sampleNodeLib s) = 32"
    by (simp add: sampleNodeLib_def sampleJson_def json.defs lib.defs sampleLib_def min_def)
  have "validateCoordinatorURL sampleNodeLib u = None \<Longrightarrow> u = ''https://c:443''" for u
    by (auto simp: validateCoordinatorURL_def sampleNodeLib_def json.defs split: if_splits)
  moreover have "trimRightBytes ''/'' ''https://c:443'' = ''https://c:443''" by code_simp
  ultimately have urls: "\<forall>u. validateCoordinatorURL sampleNodeLib u = None \<longrightarrow>
      validateCoordinatorURL sampleNodeLib (trimRightBytes ''/'' u) = None \<and> trimRightBytes ''/'' u \<noteq> ''''"
    by (metis list.distinct(1))
  from pins files digests urls show ?thesis unfolding sound_surroundings_def by blast
qed

lemma relayNode_installs:
  "install sampleNodeLib freshHost relayOptions False emptySlot
   = (Inr (relayProfile, concat (replicate 32 ''07''), True), snd relayNode)"
  using relayNode_value by (simp add: relayNode_def)


definition freeOptions :: options where
  "freeOptions = pullOptions\<lparr>opListen := ''127.0.0.1:7001''\<rparr>"

definition relayMapped :: "(installError + profile) \<times> profile slot" where
  "relayMapped = addMapping sampleNodeLib freshHost freeOptions (snd relayNode)"

lemma relayMapped_ok:
  obtains p' where "addMapping sampleNodeLib freshHost freeOptions (snd relayNode) = (Inr p', snd relayMapped)"
proof -
  have "case fst relayMapped of Inl err \<Rightarrow> False | Inr p \<Rightarrow> True" by code_simp
  then obtain p' where "fst relayMapped = Inr p'" by (auto split: sum.splits)
  then show thesis using that by (metis relayMapped_def prod.collapse)
qed

lemma relayNode_loads: "loadProfile (slotFile (snd relayNode)) = Inr relayProfile"
proof -
  have "loadProfile (Holds relayProfile) = Inr relayProfile"
    by (rule loadProfile_Holds) (simp_all add: relayProfile_def validNodeRole_def)
  then show ?thesis by (simp only: relayNode_value snd_conv slot.select_convs)
qed

theorem added_mapping_keeps_valid_witness:
  "\<exists>p'. fst relayMapped = Inr p' \<and> profile_ok sampleNodeLib (\<lambda>_. Some RegularFile) p'"
proof (rule relayMapped_ok)
  fix p' assume add: "addMapping sampleNodeLib freshHost freeOptions (snd relayNode) = (Inr p', snd relayMapped)"
  have ok: "profile_ok sampleNodeLib (\<lambda>_. Some RegularFile) relayProfile" by code_simp
  have "\<forall>a \<in> set (roleListeners relayProfile). \<not> sameListenAddress sampleNodeLib a (opListen freeOptions)" by code_simp
  from added_mapping_keeps_valid [OF add relayNode_loads ok fresh_surroundings this]
  have "profile_ok sampleNodeLib (\<lambda>_. Some RegularFile) p'" ..
  moreover have "fst relayMapped = Inr p'" unfolding relayMapped_def using add by simp
  ultimately show ?thesis by blast
qed

theorem remove_undoes_add_witness:
  "\<exists>s. removeMapping WroteFile ''web'' (snd relayMapped) = (None, s) \<and> slotFile s = Holds relayProfile"
proof (rule relayMapped_ok)
  fix p' assume add: "addMapping sampleNodeLib freshHost freeOptions (snd relayNode) = (Inr p', snd relayMapped)"
  have "opName freeOptions = ''web''" by (simp add: freeOptions_def pullOptions_def)
  with remove_undoes_add [OF add relayNode_loads] show ?thesis by simp
qed

end
