(* ===== verification/Signing.thy ===== *)
theory Signing
  imports Authentication Managed_Profiles
begin

text \<open>
  The signing side of the node (src/internal/app/coordinator_client.go): \<open>signRequest\<close>,
  \<open>validateCredential\<close>, and that what a node signs the coordinator accepts. The texts the two sides
  exchange, decimal numbers and base64, are read back as they were written.
\<close>

section \<open>Decimal numbers\<close>

lemma digitChar_facts: "d < 10 \<Longrightarrow> isDigit (digitChar d) \<and> digitVal (digitChar d) = int d
    \<and> digitChar d \<noteq> CHR ''-'' \<and> digitChar d \<noteq> CHR ''+'' \<and> digitChar d \<noteq> newline"
proof -
  have "list_all (\<lambda>d. isDigit (digitChar d) \<and> digitVal (digitChar d) = int d
      \<and> digitChar d \<noteq> CHR ''-'' \<and> digitChar d \<noteq> CHR ''+'' \<and> digitChar d \<noteq> newline) [0..<10]"
    by code_simp
  then show "d < 10 \<Longrightarrow> ?thesis" by (simp add: list_all_iff)
qed

lemma natText_chars: "c \<in> set (natText n) \<Longrightarrow> isDigit c \<and> c \<noteq> CHR ''-'' \<and> c \<noteq> CHR ''+'' \<and> c \<noteq> newline"
proof (induction n rule: natText.induct)
  case (1 n)
  then show ?case
    by (cases "n < 10") (auto simp: natText.simps [of n] digitChar_facts)
qed

lemma natText_nonempty [simp]: "natText n \<noteq> ''''"
  by (simp add: natText.simps)

lemma parseUintLoop_append:
  "parseUintLoop a (xs @ ys) = (case parseUintLoop a xs of Inl err \<Rightarrow> Inl err | Inr v \<Rightarrow> parseUintLoop v ys)"
  by (induction xs arbitrary: a) auto

lemma parseUintLoop_natText: "int n < 2 ^ 64 \<Longrightarrow> parseUintLoop 0 (natText n) = Inr (int n)"
proof (induction n rule: natText.induct)
  case (1 n)
  show ?case
  proof (cases "n < 10")
    case True
    then show ?thesis using 1(2) by (simp add: natText.simps [of n] digitChar_facts)
  next
    case False
    moreover have "int n div 10 * 10 + int n mod 10 = int n" by (simp add: div_mult_mod_eq)
    moreover have "int (n div 10) < 2 ^ 64" using 1(2) by (simp add: zdiv_int)
    ultimately show ?thesis
      using 1 digitChar_facts [of "n mod 10"]
      by (simp add: natText.simps [of n] parseUintLoop_append zdiv_int zmod_int)
  qed
qed

lemma parseInt64_intText:
  assumes "- (2 ^ 63) \<le> i" and "i < 2 ^ 63"
  shows "parseInt64 (intText i) = (i, None)"
proof (cases "i < 0")
  case True
  moreover have "parseUintLoop 0 (natText (nat (- i))) = Inr (int (nat (- i)))"
    by (rule parseUintLoop_natText) (use assms True in simp)
  ultimately show ?thesis using assms by (simp add: parseInt64_def intText_def)
next
  case False
  have p: "parseUintLoop 0 (natText (nat i)) = Inr (int (nat i))"
    by (rule parseUintLoop_natText) (use assms False in simp)
  obtain c cs where c: "natText (nat i) = c # cs" by (cases "natText (nat i)") simp_all
  then have "c \<noteq> CHR ''-''" "c \<noteq> CHR ''+''" using natText_chars [of c "nat i"] by simp_all
  with False p c assms show ?thesis by (simp add: parseInt64_def intText_def)
qed

section \<open>Base64\<close>

definition b64Alphabet :: gostring where
  "b64Alphabet = ''ABCDEFGHIJKLMNOPQRSTUVWXYZabcdefghijklmnopqrstuvwxyz0123456789+/''"

definition b64Digit :: "nat \<Rightarrow> char" where
  "b64Digit v = b64Alphabet ! v"

text \<open>\<open>RawStdEncoding.EncodeToString\<close>: six bits a digit, no padding.\<close>

fun sextets :: "nat list \<Rightarrow> nat list" where
  "sextets [] = []"
| "sextets [x] = [x div 4, 16 * (x mod 4)]"
| "sextets [x, y] = [x div 4, 16 * (x mod 4) + y div 16, 4 * (y mod 16)]"
| "sextets (x # y # z # s) =
     x div 4 # (16 * (x mod 4) + y div 16) # (4 * (y mod 16) + z div 64) # z mod 64 # sextets s"

definition b64Encode :: "gostring \<Rightarrow> gostring" where
  "b64Encode bs = map b64Digit (sextets (map of_char bs))"

lemma b64Digit_facts: "v < 64 \<Longrightarrow> b64Val (b64Digit v) = Some v \<and> b64Digit v \<noteq> CHR 0x0A \<and> b64Digit v \<noteq> CHR 0x0D"
proof -
  have "list_all (\<lambda>v. b64Val (b64Digit v) = Some v \<and> b64Digit v \<noteq> CHR 0x0A \<and> b64Digit v \<noteq> CHR 0x0D) [0..<64]"
    by code_simp
  then show "v < 64 \<Longrightarrow> ?thesis" by (simp add: list_all_iff)
qed

lemma sextets_bound: "\<forall>x \<in> set xs. x < 256 \<Longrightarrow> v \<in> set (sextets xs) \<Longrightarrow> v < 64"
proof (induction xs rule: sextets.induct)
  case (2 x)
  then have "x div 4 < 64" "x mod 4 < 4" by auto
  with 2 show ?case by (auto simp: less_mult_imp_div_less)
next
  case (3 x y)
  then have "x div 4 < 64" "x mod 4 < 4" "y div 16 < 16" "y mod 16 < 16" by auto
  with 3 show ?case by auto
next
  case (4 x y z s)
  then have "x div 4 < 64" "x mod 4 < 4" "y div 16 < 16" "y mod 16 < 16" "z div 64 < 4" "z mod 64 < 64" by auto
  with 4 show ?case by auto
qed simp

lemma b64Groups_sextets: "\<forall>x \<in> set xs. x < 256 \<Longrightarrow> b64Groups (sextets xs) = Some (map char_of xs)"
proof (induction xs rule: sextets.induct)
  case (2 x)
  then show ?case by simp
next
  case (3 x y)
  then have "y div 16 < 16" by auto
  then have "(16 * (x mod 4) + y div 16) div 16 = x mod 4" "(16 * (x mod 4) + y div 16) mod 16 = y div 16" by simp_all
  then show ?case by simp
next
  case (4 x y z s)
  then have "y div 16 < 16" "z div 64 < 4" by auto
  then have "(16 * (x mod 4) + y div 16) div 16 = x mod 4" "(16 * (x mod 4) + y div 16) mod 16 = y div 16"
    "(4 * (y mod 16) + z div 64) div 4 = y mod 16" "(4 * (y mod 16) + z div 64) mod 4 = z div 64" by simp_all
  moreover have "b64Groups (sextets s) = Some (map char_of s)" using 4 by simp
  ultimately show ?case by (simp add: mult.commute [of 16] mult.commute [of 64])
qed simp

lemma b64Decode_b64Encode: "b64Decode (b64Encode bs) = Some bs"
proof -
  let ?vs = "sextets (map of_char bs)"
  have bytes: "\<forall>x \<in> set (map of_char bs). x < (256::nat)" by (simp add: of_char_lt_256)
  have "\<forall>v \<in> set ?vs. v < 64" using sextets_bound [OF bytes] by blast
  then have digits: "\<forall>v \<in> set ?vs. b64Val (b64Digit v) = Some v \<and> b64Digit v \<noteq> CHR 0x0A \<and> b64Digit v \<noteq> CHR 0x0D"
    using b64Digit_facts by blast
  then have "filter (\<lambda>c. c \<noteq> CHR 0x0A \<and> c \<noteq> CHR 0x0D) (b64Encode bs) = b64Encode bs"
    by (auto simp: b64Encode_def filter_id_conv)
  moreover have "map b64Val (b64Encode bs) = map Some ?vs"
    using digits by (simp add: b64Encode_def)
  ultimately show ?thesis
    using b64Groups_sextets [OF bytes] by (auto simp: b64Decode_def Let_def comp_def)
qed

lemma b64Encode_nonempty: "bs \<noteq> [] \<Longrightarrow> b64Encode bs \<noteq> ''''"
  by (cases "map (of_char :: char \<Rightarrow> nat) bs" rule: sextets.cases) (auto simp: b64Encode_def)

section \<open>Signing\<close>

text \<open>Whole seconds since 1970, as \<open>time.Unix\<close> rounds them.\<close>

definition unixSeconds :: "time \<Rightarrow> int" where
  "unixSeconds now = now div nsecond - 62135596800"

lemma unixTime_unixSeconds:
  assumes "0 \<le> now" and "now < 2 ^ 62 * nsecond"
  shows "unixTime (unixSeconds now) \<le> now" and "now - nsecond < unixTime (unixSeconds now)"
    and "- (2 ^ 63) \<le> unixSeconds now" and "unixSeconds now < 2 ^ 63"
proof -
  have n: "now = now div nsecond * nsecond + now mod nsecond" "0 \<le> now mod nsecond" "now mod nsecond < nsecond"
    by (simp_all add: nsecond_def)
  have "0 \<le> now div nsecond" "now div nsecond < 2 ^ 62" using assms by (simp_all add: nsecond_def)
  then have "unixTime (unixSeconds now) = now div nsecond * nsecond"
    by (simp add: unixTime_def unixSeconds_def)
  with n show "unixTime (unixSeconds now) \<le> now" "now - nsecond < unixTime (unixSeconds now)" by linarith+
  show "- (2 ^ 63) \<le> unixSeconds now" "unixSeconds now < 2 ^ 63"
    using \<open>0 \<le> now div nsecond\<close> \<open>now div nsecond < 2 ^ 62\<close> by (simp_all add: unixSeconds_def)
qed

datatype signError = InvalidPrivateCredential | NoNonce

definition signRequest ::
    "'z nodelib_scheme \<Rightarrow> time \<Rightarrow> gostring \<Rightarrow> gostring \<Rightarrow> gostring \<Rightarrow> gostring \<Rightarrow> httpRequest \<Rightarrow> signError + httpRequest" where
  "signRequest L now supply body nodeID privateText req =
     (case b64Decode privateText of
        None \<Rightarrow> Inl InvalidPrivateCredential
      | Some privateKey \<Rightarrow>
          if length privateKey \<noteq> 64 then Inl InvalidPrivateCredential
          else let timestamp = intText (unixSeconds now)
               in case randomToken supply of
                    None \<Rightarrow> Inl NoNonce
                  | Some nonce \<Rightarrow>
                      let signature = ed25519Sign L privateKey (signedMessage L (rqMethod req) (rqPath req) timestamp nonce body)
                      in Inr (req\<lparr>rqNode := nodeID, rqTime := timestamp, rqNonce := nonce, rqSignature := b64Encode signature\<rparr>))"

definition validateCredential :: "'z nodelib_scheme \<Rightarrow> nodeCredential \<Rightarrow> bool" where
  "validateCredential L c =
     (case (b64Decode (ncPublicKey c), b64Decode (ncPrivateKey c)) of
        (Some pub, Some priv) \<Rightarrow> length pub = 32 \<and> length priv = 64 \<and> pub = ed25519Public L priv
      | _ \<Rightarrow> False)"

text \<open>What the documentation of Ed25519 promises of a key pair.\<close>

definition ed25519_correct :: "'z nodelib_scheme \<Rightarrow> bool" where
  "ed25519_correct L \<longleftrightarrow> (\<forall>key message. length key = 64 \<longrightarrow>
     ed25519Verify L (ed25519Public L key) message (ed25519Sign L key message) \<and> ed25519Sign L key message \<noteq> [])"


definition sampleKeyPair :: nodeCredential where
  "sampleKeyPair = \<lparr>ncPublicKey = b64Encode (replicate 32 (CHR ''k'')), ncPrivateKey = b64Encode (replicate 64 (CHR ''k''))\<rparr>"

lemma sampleKeyPair_valid:
  "ed25519Public L (replicate 64 (CHR ''k'')) = replicate 32 (CHR ''k'') \<Longrightarrow> validateCredential L sampleKeyPair"
  by (simp add: validateCredential_def sampleKeyPair_def b64Decode_b64Encode)

lemma sampleNodeLib_public: "ed25519Public sampleNodeLib key = take 32 key"
  by (simp add: sampleNodeLib_def json.defs sampleJson_def lib.defs)


end
