(* ===== verification/Relay_Handshake.thy ===== *)
theory Relay_Handshake
  imports Signing
begin

text \<open>
  The handshake a node opens a relay connection with: its message and its answer
  (src/internal/app/relay_protocol.go), the dialing side (relay_dial.go) and its verification by the
  relay (\<open>verify\<close> of relay_server.go).
\<close>

section \<open>Messages\<close>

definition relayHandshakeVersion :: int where "relayHandshakeVersion = 1"
definition relayHandshakeLimit :: nat where "relayHandshakeLimit = 16384"

record relayHandshake =
  hsVersion :: int
  hsMode :: gostring
  hsNetwork :: gostring
  hsSourceNode :: gostring
  hsRelayNode :: gostring
  hsTargetNode :: gostring
  hsService :: gostring
  hsRequestID :: gostring
  hsRelayToken :: gostring
  hsTimestamp :: int
  hsNonce :: gostring
  hsSignature :: gostring

text \<open>
  The JSON text of a handshake and its reading are the library's; so are the texts of the error
  codes in the chosen language (\<open>localizedError\<close>).
\<close>

record relaylib = nodelib +
  marshalHandshake :: "relayHandshake \<Rightarrow> gostring"
  parseHandshake :: "gostring \<Rightarrow> relayHandshake option"
  activeMessages :: "(gostring, gostring) gomap option"

definition localizedError :: "(gostring, gostring) gomap option \<Rightarrow> gostring \<Rightarrow> gostring \<Rightarrow> gostring" where
  "localizedError messages code fallback =
     (case messages of
        None \<Rightarrow> fallback
      | Some m \<Rightarrow> if mgetz '''' m (''error.'' @ code) \<noteq> '''' then mgetz '''' m (''error.'' @ code) else fallback)"

definition relayHandshakeFields :: "relayHandshake \<Rightarrow> gostring list" where
  "relayHandshakeFields h =
     [intText (hsVersion h), hsMode h, hsNetwork h, hsSourceNode h, hsRelayNode h, hsTargetNode h, hsService h,
      intText (hsTimestamp h), hsNonce h]
     @ (if hsMode h = ''reverse'' then [hsRequestID h] else [])"

definition relayHandshakeMessage :: "relayHandshake \<Rightarrow> gostring" where
  "relayHandshakeMessage h = joinWith [newline] (relayHandshakeFields h)"

definition relayErrorLine :: "gostring \<Rightarrow> gostring \<Rightarrow> gostring" where
  "relayErrorLine code message = ''ERR '' @ code @ '' '' @ message @ [newline]"

datatype relayRefusal = RelayRefused gostring gostring | RequestRejected gostring

definition relayResponseError :: "(gostring, gostring) gomap option \<Rightarrow> gostring \<Rightarrow> relayRefusal" where
  "relayResponseError messages response0 =
     (let response = trimSpace response0; parts = splitByteN CHR '' '' 3 response
      in if length parts = 3 \<and> parts ! 0 = ''ERR'' \<and> CHR ''_'' \<in> set (parts ! 1)
         then RelayRefused (parts ! 1) (localizedError messages (parts ! 1) (parts ! 2))
         else RequestRejected response)"

section \<open>Pinned connections\<close>

text \<open>
  \<open>pinnedTLSConfig\<close>: the pin that is compared with the digest of the first certificate the peer
  presents; a TLS dial succeeds when the peer is reached and this check passes.
\<close>

definition pinnedTLSConfig :: "'z lib_scheme \<Rightarrow> gostring \<Rightarrow> gostring option" where
  "pinnedTLSConfig L pinText =
     (case hexDecode (normalizePin L pinText) of
        None \<Rightarrow> None
      | Some pin \<Rightarrow> if length pin \<noteq> 32 then None else Some pin)"

definition verifyConnection :: "'z lib_scheme \<Rightarrow> gostring \<Rightarrow> gostring list \<Rightarrow> bool" where
  "verifyConnection L pin certificates = (case certificates of [] \<Rightarrow> False | c # _ \<Rightarrow> sha256 L c = pin)"

definition dialPinned :: "'z lib_scheme \<Rightarrow> gostring \<Rightarrow> gostring list option \<Rightarrow> bool" where
  "dialPinned L pin peer = (case peer of None \<Rightarrow> False | Some certificates \<Rightarrow> verifyConnection L pin certificates)"

definition probePinnedTLS :: "'z lib_scheme \<Rightarrow> gostring \<Rightarrow> gostring list option \<Rightarrow> bool" where
  "probePinnedTLS L pinText peer = (case pinnedTLSConfig L pinText of None \<Rightarrow> False | Some pin \<Rightarrow> dialPinned L pin peer)"

section \<open>Dialing\<close>

text \<open>What the dialing node meets: the certificates the peer at the endpoint presents (or none), its
  random source and clock, whether the line could be written, and the relay's answer line.\<close>

record relayDialEnv =
  rdPeer :: "gostring list option"
  rdSupply :: gostring
  rdNow :: time
  rdWrites :: bool
  rdResponse :: "gostring option"

datatype relayDialError =
    RelayUnavailable
  | BadRelayPin
  | RelayUnreachable
  | NoRelayNonce
  | BadLocalCredential
  | RelayWriteFailed
  | RelayReadFailed
  | RelaySaidNo relayRefusal

definition awaitOK :: "(gostring, gostring) gomap option \<Rightarrow> relayDialEnv \<Rightarrow> relayDialError option" where
  "awaitOK messages E =
     (if \<not> rdWrites E then Some RelayWriteFailed
      else case rdResponse E of
             None \<Rightarrow> Some RelayReadFailed
           | Some response \<Rightarrow>
               if response \<noteq> ''OK'' @ [newline] then Some (RelaySaidNo (relayResponseError messages response)) else None)"

definition newHandshake ::
    "profile \<Rightarrow> discoveredNode \<Rightarrow> gostring \<Rightarrow> gostring \<Rightarrow> gostring \<Rightarrow> gostring \<Rightarrow> time \<Rightarrow> gostring \<Rightarrow> relayHandshake" where
  "newHandshake local relay mode targetNode service requestID now nonce =
     \<lparr>hsVersion = relayHandshakeVersion, hsMode = mode, hsNetwork = pfVirtualNetwork local,
      hsSourceNode = nfID (pfNode local), hsRelayNode = dnID relay, hsTargetNode = targetNode, hsService = service,
      hsRequestID = requestID, hsRelayToken = '''', hsTimestamp = unixSeconds now, hsNonce = nonce, hsSignature = ''''\<rparr>"

definition signHandshake :: "'z nodelib_scheme \<Rightarrow> gostring \<Rightarrow> relayHandshake \<Rightarrow> relayHandshake" where
  "signHandshake L privateKey h = h\<lparr>hsSignature := b64Encode (ed25519Sign L privateKey (relayHandshakeMessage h))\<rparr>"

text \<open>The handshake that is sent, if it comes to that, and how the dial ends.\<close>

definition dialSignedRelay ::
    "'z relaylib_scheme \<Rightarrow> relayDialEnv \<Rightarrow> profile \<Rightarrow> discoveredNode \<Rightarrow> gostring \<Rightarrow> gostring \<Rightarrow> gostring \<Rightarrow> gostring \<Rightarrow>
      relayHandshake option \<times> relayDialError option" where
  "dialSignedRelay L E local relay mode targetNode service requestID =
     (case (dnRelay relay, ccCredential (pfCoordinator local)) of
        (Some advertised, Some credential) \<Rightarrow>
          (case pinnedTLSConfig L (raPinnedSHA256 advertised) of
             None \<Rightarrow> (None, Some BadRelayPin)
           | Some pin \<Rightarrow>
               if \<not> dialPinned L pin (rdPeer E) then (None, Some RelayUnreachable)
               else (case randomToken (rdSupply E) of
                  None \<Rightarrow> (None, Some NoRelayNonce)
                | Some nonce \<Rightarrow>
                    (case b64Decode (ncPrivateKey credential) of
                       None \<Rightarrow> (None, Some BadLocalCredential)
                     | Some privateKey \<Rightarrow>
                         if length privateKey \<noteq> 64 then (None, Some BadLocalCredential)
                         else (Some (signHandshake L privateKey
                                 (newHandshake local relay mode targetNode service requestID (rdNow E) nonce)),
                               awaitOK (activeMessages L) E))))
      | _ \<Rightarrow> (None, Some RelayUnavailable))"

definition dialRelay ::
    "'z relaylib_scheme \<Rightarrow> relayDialEnv \<Rightarrow> profile \<Rightarrow> discoveredNode \<Rightarrow> gostring \<Rightarrow> gostring \<Rightarrow> relayHandshake option \<times> relayDialError option" where
  "dialRelay L E local relay targetNode service = dialSignedRelay L E local relay ''service'' targetNode service ''''"

definition dialReverseRelay ::
    "'z relaylib_scheme \<Rightarrow> relayDialEnv \<Rightarrow> profile \<Rightarrow> discoveredNode \<Rightarrow> gostring \<Rightarrow> gostring \<Rightarrow> relayHandshake option \<times> relayDialError option" where
  "dialReverseRelay L E local relay requestID service =
     dialSignedRelay L E local relay ''reverse'' (nfID (pfNode local)) service requestID"

text \<open>A subnode reaches its coordinator through its relay, with the admission token.\<close>

definition tunnelHandshake :: "gostring \<Rightarrow> gostring \<Rightarrow> subnodeConfig \<Rightarrow> relayHandshake" where
  "tunnelHandshake virtualNetwork nodeID subnode =
     \<lparr>hsVersion = relayHandshakeVersion, hsMode = ''coordinator'', hsNetwork = virtualNetwork, hsSourceNode = nodeID,
      hsRelayNode = scRelayNodeID subnode, hsTargetNode = '''', hsService = '''', hsRequestID = '''',
      hsRelayToken = scRelayToken subnode, hsTimestamp = 0, hsNonce = '''', hsSignature = ''''\<rparr>"

definition dialCoordinatorViaRelay ::
    "'z relaylib_scheme \<Rightarrow> relayDialEnv \<Rightarrow> gostring \<Rightarrow> gostring \<Rightarrow> subnodeConfig \<Rightarrow> relayHandshake option \<times> relayDialError option" where
  "dialCoordinatorViaRelay L E virtualNetwork nodeID subnode =
     (case pinnedTLSConfig L (scRelayPinnedSHA256 subnode) of
        None \<Rightarrow> (None, Some BadRelayPin)
      | Some pin \<Rightarrow>
          if \<not> dialPinned L pin (rdPeer E) then (None, Some RelayUnreachable)
          else (Some (tunnelHandshake virtualNetwork nodeID subnode), awaitOK (activeMessages L) E))"

section \<open>Verification by the relay\<close>

definition sourceKey :: "discoveredNode list \<Rightarrow> gostring \<Rightarrow> gostring" where
  "sourceKey nodes source = (case find (\<lambda>node. dnID node = source) nodes of None \<Rightarrow> '''' | Some node \<Rightarrow> dnIdentityKey node)"

definition handshakeShape :: "profile \<Rightarrow> relayHandshake \<Rightarrow> bool" where
  "handshakeShape p h \<longleftrightarrow> hsVersion h = relayHandshakeVersion \<and> hsNetwork h = pfVirtualNetwork p
     \<and> hsSourceNode h \<noteq> '''' \<and> hsRelayNode h = nfID (pfNode p) \<and> hsTargetNode h \<noteq> '''' \<and> hsService h \<noteq> ''''
     \<and> hsNonce h \<noteq> '''' \<and> hsSignature h \<noteq> ''''"

text \<open>The nonces are swept, read and extended in one critical section.\<close>

definition useNonce :: "(gostring list \<Rightarrow> gostring list) \<Rightarrow> time \<Rightarrow> gostring \<Rightarrow> (gostring, time) gomap \<Rightarrow> bool \<times> (gostring, time) gomap" where
  "useNonce order now nonce known =
     (let swept = fold (expireNonce now) (rangeKeys order known) known
      in if now < mgetz 0 swept nonce then (False, swept) else (True, mput nonce (now + 2 * nminute) swept))"

definition verifyHandshake ::
    "'z lib_scheme \<Rightarrow> profile \<Rightarrow> discoveredNode list slot \<Rightarrow> (gostring list \<Rightarrow> gostring list) \<Rightarrow> time \<Rightarrow> relayHandshake \<Rightarrow>
      (gostring, time) gomap \<Rightarrow> bool \<times> (gostring, time) gomap" where
  "verifyHandshake L p peers order now h known =
     (if \<not> handshakeShape p h then (False, known)
      else if unixTime (hsTimestamp h) < now - 2 * nminute \<or> now + 2 * nminute < unixTime (hsTimestamp h) then (False, known)
      else case loadDiscovered peers of
             Inl _ \<Rightarrow> (False, known)
           | Inr nodes \<Rightarrow>
               (case (b64Decode (sourceKey nodes (hsSourceNode h)), b64Decode (hsSignature h)) of
                  (Some publicKey, Some signature) \<Rightarrow>
                    if length publicKey \<noteq> 32 then (False, known)
                    else if \<not> ed25519Verify L publicKey (relayHandshakeMessage h) signature then (False, known)
                    else useNonce order now (hsNonce h) known
                | _ \<Rightarrow> (False, known)))"

section \<open>Signed messages\<close>

lemma joinWith_Cons: "ws \<noteq> [] \<Longrightarrow> joinWith sep (w # ws) = w @ sep @ joinWith sep ws"
  by (cases ws) simp_all

lemma joinWith_inject:
  assumes "joinWith [newline] ws = joinWith [newline] vs" and "length ws = length vs"
    and "\<forall>w \<in> set ws \<union> set vs. newline \<notin> set w"
  shows "ws = vs"
  using assms
proof (induction ws arbitrary: vs)
  case (Cons w ws)
  then obtain v vs' where vs: "vs = v # vs'" by (cases vs) auto
  show ?case
  proof (cases "ws = []")
    case True
    with Cons.prems vs show ?thesis by simp
  next
    case False
    with Cons.prems(2) vs have ne: "vs' \<noteq> []" by auto
    have "w = v \<and> joinWith [newline] ws = joinWith [newline] vs'"
      using Cons.prems(1,3) vs by (intro signed_split) (simp_all add: joinWith_Cons [OF False] joinWith_Cons [OF ne])
    with Cons.IH [of vs'] Cons.prems(2,3) vs show ?thesis by auto
  qed
qed simp

lemma intText_plain: "newline \<notin> set (intText i)"
proof -
  have "newline \<notin> set (natText n)" for n using natText_chars [of newline n] by blast
  then show ?thesis by (simp add: intText_def) (simp add: newline_def)
qed

lemma intText_inject:
  assumes "intText i = intText j" and "- (2 ^ 63) \<le> i" "i < 2 ^ 63" "- (2 ^ 63) \<le> j" "j < 2 ^ 63"
  shows "i = j"
proof -
  have "parseInt64 (intText i) = (i, None)" by (rule parseInt64_intText [OF assms(2,3)])
  moreover have "parseInt64 (intText j) = (j, None)" by (rule parseInt64_intText [OF assms(4,5)])
  ultimately show ?thesis unfolding assms(1) by (metis fst_conv)
qed

text \<open>The length of the message tells the modes apart, the lines are the fields.\<close>

definition plainHandshake :: "relayHandshake \<Rightarrow> bool" where
  "plainHandshake h \<longleftrightarrow> (\<forall>s \<in> {hsMode h, hsNetwork h, hsSourceNode h, hsRelayNode h, hsTargetNode h, hsService h,
       hsNonce h, hsRequestID h}. newline \<notin> set s)
     \<and> - (2 ^ 63) \<le> hsVersion h \<and> hsVersion h < 2 ^ 63 \<and> - (2 ^ 63) \<le> hsTimestamp h \<and> hsTimestamp h < 2 ^ 63"

lemma plain_fields: "plainHandshake h \<Longrightarrow> w \<in> set (relayHandshakeFields h) \<Longrightarrow> newline \<notin> set w"
  by (auto simp: plainHandshake_def relayHandshakeFields_def intText_plain split: if_splits)

lemma second_line:
  assumes "newline \<notin> set a" "newline \<notin> set b" "newline \<notin> set a'" "newline \<notin> set b'"
    and "a @ [newline] @ b @ [newline] @ s = a' @ [newline] @ b' @ [newline] @ s'"
  shows "b = b'"
proof -
  from signed_split [OF assms(1,3,5)] have "b @ [newline] @ s = b' @ [newline] @ s'" by simp
  from signed_split [OF assms(2,4) this] show ?thesis by simp
qed

text \<open>The message of a handshake determines it: two handshakes whose texts contain no line break
  have the same message only if every signed field agrees, the request of a reverse handshake
  included, so the signature of one cannot be used for another relay, target, service or request.\<close>

theorem handshake_message_binds:
  assumes "plainHandshake h" and "plainHandshake h'" and "relayHandshakeMessage h = relayHandshakeMessage h'"
  shows "hsVersion h = hsVersion h' \<and> hsMode h = hsMode h' \<and> hsNetwork h = hsNetwork h' \<and> hsSourceNode h = hsSourceNode h'
    \<and> hsRelayNode h = hsRelayNode h' \<and> hsTargetNode h = hsTargetNode h' \<and> hsService h = hsService h'
    \<and> hsTimestamp h = hsTimestamp h' \<and> hsNonce h = hsNonce h' \<and> (hsMode h = ''reverse'' \<longrightarrow> hsRequestID h = hsRequestID h')"
proof -
  have mode: "hsMode h = hsMode h'"
  proof (rule second_line)
    have head: "relayHandshakeMessage h = intText (hsVersion h) @ [newline] @ hsMode h @ [newline]
        @ joinWith [newline] (drop 2 (relayHandshakeFields h))" for h
      by (simp add: relayHandshakeMessage_def relayHandshakeFields_def)
    show "intText (hsVersion h) @ [newline] @ hsMode h @ [newline] @ joinWith [newline] (drop 2 (relayHandshakeFields h))
        = intText (hsVersion h') @ [newline] @ hsMode h' @ [newline] @ joinWith [newline] (drop 2 (relayHandshakeFields h'))"
      using assms(3) by (simp only: head [symmetric])
  qed (use assms(1,2) in \<open>auto simp: intText_plain plainHandshake_def\<close>)
  have "relayHandshakeFields h = relayHandshakeFields h'"
  proof (rule joinWith_inject)
    show "joinWith [newline] (relayHandshakeFields h) = joinWith [newline] (relayHandshakeFields h')"
      using assms(3) by (simp add: relayHandshakeMessage_def)
    show "length (relayHandshakeFields h) = length (relayHandshakeFields h')"
      using mode by (simp add: relayHandshakeFields_def)
  qed (use plain_fields [OF assms(1)] plain_fields [OF assms(2)] in blast)
  then have "intText (hsVersion h) = intText (hsVersion h')" "intText (hsTimestamp h) = intText (hsTimestamp h')"
    "hsNetwork h = hsNetwork h'" "hsSourceNode h = hsSourceNode h'" "hsRelayNode h = hsRelayNode h'"
    "hsTargetNode h = hsTargetNode h'" "hsService h = hsService h'" "hsNonce h = hsNonce h'"
    "hsMode h = ''reverse'' \<longrightarrow> hsRequestID h = hsRequestID h'"
    using mode by (simp_all add: relayHandshakeFields_def split: if_splits)
  moreover have "hsVersion h = hsVersion h'" "hsTimestamp h = hsTimestamp h'"
    using calculation(1,2) assms(1,2) intText_inject by (auto simp: plainHandshake_def)
  ultimately show ?thesis using mode by simp
qed

section \<open>Accepted handshakes\<close>

lemma verifyHandshake_accepts:
  assumes "verifyHandshake L p peers order now h known = (True, known')"
  obtains nodes publicKey signature where "handshakeShape p h"
    and "now - 2 * nminute \<le> unixTime (hsTimestamp h)" and "unixTime (hsTimestamp h) \<le> now + 2 * nminute"
    and "loadDiscovered peers = Inr nodes" and "b64Decode (sourceKey nodes (hsSourceNode h)) = Some publicKey"
    and "length publicKey = 32" and "b64Decode (hsSignature h) = Some signature"
    and "ed25519Verify L publicKey (relayHandshakeMessage h) signature"
    and "useNonce order now (hsNonce h) known = (True, known')"
  using assms by (auto simp: verifyHandshake_def Let_def not_less split: if_splits sum.splits option.splits)

text \<open>The key belongs to a node of that id that the relay has discovered.\<close>

lemma sourceKey_node:
  assumes "b64Decode (sourceKey nodes source) = Some publicKey" and "length publicKey = 32"
  obtains node where "node \<in> set nodes" "dnID node = source" "dnIdentityKey node = sourceKey nodes source"
proof (cases "find (\<lambda>node. dnID node = source) nodes")
  case None
  then have "sourceKey nodes source = ''''" by (simp add: sourceKey_def)
  moreover have "b64Decode '''' = Some []" by code_simp
  ultimately show ?thesis using assms by simp
next
  case (Some node)
  then have "dnID node = source" "node \<in> set nodes" by (auto simp: find_Some_iff)
  with Some that [of node] show ?thesis by (simp add: sourceKey_def)
qed

lemma expireNonce_fold:
  "mget (fold (expireNonce now) ks m) k = mget m k \<or> (\<exists>e. mget m k = Some e \<and> e < now)"
  by (rule fold_keeps [where P = "\<lambda>m'. mget m' k = mget m k \<or> (\<exists>e. mget m k = Some e \<and> e < now)"])
    (auto simp: expireNonce_def split: option.splits)

lemma useNonce_cases:
  obtains swept where "swept = fold (expireNonce now) (rangeKeys order known) known"
    and "useNonce order now nonce known
      = (if now < mgetz 0 swept nonce then (False, swept) else (True, mput nonce (now + 2 * nminute) swept))"
  by (simp add: useNonce_def Let_def)

lemma verifyHandshake_known:
  "snd (verifyHandshake L p peers order now h known) = known
   \<or> snd (verifyHandshake L p peers order now h known) = snd (useNonce order now (hsNonce h) known)"
  by (auto simp: verifyHandshake_def Let_def split: sum.split option.split)

section \<open>Replays\<close>

record relayEvent =
  evTime :: time
  evProfile :: profile
  evPeers :: "discoveredNode list slot"
  evOrder :: "gostring list \<Rightarrow> gostring list"
  evHandshake :: relayHandshake

definition relayVerify :: "'z lib_scheme \<Rightarrow> relayEvent \<Rightarrow> (gostring, time) gomap \<Rightarrow> bool \<times> (gostring, time) gomap" where
  "relayVerify L ev = verifyHandshake L (evProfile ev) (evPeers ev) (evOrder ev) (evTime ev) (evHandshake ev)"

definition relayVerifications :: "'z lib_scheme \<Rightarrow> relayEvent list \<Rightarrow> (gostring, time) gomap \<Rightarrow> (gostring, time) gomap" where
  "relayVerifications L evs known = fold (\<lambda>ev known. snd (relayVerify L ev known)) evs known"

text \<open>A spent nonce: remembered past the life of its timestamp, or its timestamp is stale.\<close>

definition spentNonce :: "gostring \<Rightarrow> time \<Rightarrow> time \<Rightarrow> (gostring, time) gomap \<Rightarrow> bool" where
  "spentNonce nonce sent now known \<longleftrightarrow> sent < now \<and>
     ((\<exists>e. mget known nonce = Some e \<and> sent + 2 * nminute < e) \<or> sent + 2 * nminute < now)"

lemma spentNonce_step:
  assumes "spentNonce nonce sent now known" and "now \<le> evTime ev"
  shows "spentNonce nonce sent (evTime ev) (snd (relayVerify L ev known))"
proof (rule useNonce_cases [where now = "evTime ev" and order = "evOrder ev" and known = known and nonce = "hsNonce (evHandshake ev)"])
  fix swept
  assume swept: "swept = fold (expireNonce (evTime ev)) (rangeKeys (evOrder ev) known) known"
    and u: "useNonce (evOrder ev) (evTime ev) (hsNonce (evHandshake ev)) known
      = (if evTime ev < mgetz 0 swept (hsNonce (evHandshake ev)) then (False, swept)
         else (True, mput (hsNonce (evHandshake ev)) (evTime ev + 2 * nminute) swept))"
  have s: "spentNonce nonce sent (evTime ev) swept"
    using assms expireNonce_fold [of "evTime ev" "rangeKeys (evOrder ev) known" known nonce]
    by (auto simp: spentNonce_def swept)
  then have "spentNonce nonce sent (evTime ev) (mput (hsNonce (evHandshake ev)) (evTime ev + 2 * nminute) swept)"
    by (auto simp: spentNonce_def)
  moreover have "spentNonce nonce sent (evTime ev) known" using assms by (auto simp: spentNonce_def)
  ultimately show ?thesis
    using s u verifyHandshake_known [of L "evProfile ev" "evPeers ev" "evOrder ev" "evTime ev" "evHandshake ev" known]
    by (auto simp: relayVerify_def split: if_splits)
qed

lemma spentNonce_run:
  "spentNonce nonce sent now known \<Longrightarrow> sorted (now # map evTime evs @ [t]) \<Longrightarrow>
   \<exists>last. last \<le> t \<and> spentNonce nonce sent last (relayVerifications L evs known)"
proof (induction evs arbitrary: now known)
  case (Cons ev evs)
  then have "spentNonce nonce sent (evTime ev) (snd (relayVerify L ev known))" by (intro spentNonce_step) auto
  with Cons.IH [of "evTime ev"] Cons.prems show ?case by (simp add: relayVerifications_def)
qed (auto simp: relayVerifications_def)


section \<open>Both sides together\<close>


section \<open>A sample relay\<close>

definition sampleRelayLib :: relaylib where
  "sampleRelayLib = nodelib.extend sampleNodeLib
     \<lparr>marshalHandshake = (\<lambda>h. ''''), parseHandshake = (\<lambda>line. None), activeMessages = None\<rparr>"

definition relayedNode :: profile where
  "relayedNode = zeroProfile\<lparr>pfVirtualNetwork := ''net'', pfNode := \<lparr>nfID = ''n1'', nfName = ''n1''\<rparr>,
     pfCoordinator := zeroCoordinatorClient\<lparr>ccCredential := Some sampleKeyPair\<rparr>\<rparr>"

definition relayingNode :: profile where
  "relayingNode = zeroProfile\<lparr>pfVirtualNetwork := ''net'', pfNode := \<lparr>nfID = ''r1'', nfName = ''r1''\<rparr>\<rparr>"

definition relayAdvertised :: discoveredNode where
  "relayAdvertised = zeroNode\<lparr>dnID := ''r1'', dnRelay := Some \<lparr>raEndpoint = ''r1:1'',
     raPinnedSHA256 = hexEncode (sha256 sampleRelayLib ''cert''), raPriority = 0\<rparr>\<rparr>"

definition relayPeers :: "discoveredNode list" where
  "relayPeers = [zeroNode\<lparr>dnID := ''n1'', dnIdentityKey := ncPublicKey sampleKeyPair\<rparr>]"

definition relayDial :: relayDialEnv where
  "relayDial = \<lparr>rdPeer = Some [''cert''], rdSupply = replicate 32 (CHR 0x01), rdNow = unixTime 100, rdWrites = True,
     rdResponse = Some (''OK'' @ [newline])\<rparr>"

definition sampleDialed :: "relayHandshake option \<times> relayDialError option" where
  "sampleDialed = dialSignedRelay sampleRelayLib relayDial relayedNode relayAdvertised ''service'' ''t'' ''web'' ''''"

definition sampleHandshake :: relayHandshake where
  "sampleHandshake = signHandshake sampleRelayLib (replicate 64 (CHR ''k''))
     (newHandshake relayedNode relayAdvertised ''service'' ''t'' ''web'' '''' (unixTime 100) (concat (replicate 32 ''01'')))"

lemma sampleDialed_value: "sampleDialed = (Some sampleHandshake, None)"
  by code_simp

lemma relayPeers_load: "loadDiscovered \<lparr>slotFile = Holds relayPeers, slotTemp = NoFile\<rparr> = Inr relayPeers"
  by (simp add: loadDiscovered_def readJSON_def)

lemma sampleRelayLib_correct: "ed25519_correct sampleRelayLib" "validateCredential sampleRelayLib sampleKeyPair"
proof -
  show "ed25519_correct sampleRelayLib"
    by (auto simp: ed25519_correct_def sampleRelayLib_def sampleNodeLib_def nodelib.defs sampleJson_def json.defs lib.defs sampleLib_def)
  show "validateCredential sampleRelayLib sampleKeyPair"
    by (rule sampleKeyPair_valid) (simp add: sampleRelayLib_def nodelib.defs sampleNodeLib_public)
qed


definition sampleEvent :: "int \<Rightarrow> relayEvent" where
  "sampleEvent seconds = \<lparr>evTime = unixTime seconds, evProfile = relayingNode,
     evPeers = \<lparr>slotFile = Holds relayPeers, slotTemp = NoFile\<rparr>, evOrder = (\<lambda>ks. ks), evHandshake = sampleHandshake\<rparr>"

lemma sampleEvent_verify:
  "relayVerify sampleRelayLib (sampleEvent seconds) known =
     (if unixTime 100 < unixTime seconds - 2 * nminute \<or> unixTime seconds + 2 * nminute < unixTime 100 then (False, known)
      else useNonce (\<lambda>ks. ks) (unixTime seconds) (concat (replicate 32 ''01'')) known)"
proof -
  have v: "ed25519Verify sampleRelayLib (replicate 32 (CHR ''k'')) m (ed25519Sign sampleRelayLib (replicate 64 (CHR ''k'')) m)"
    "ed25519Sign sampleRelayLib (replicate 64 (CHR ''k'')) m \<noteq> []" for m
    using sampleRelayLib_correct(1) by (auto simp: ed25519_correct_def sampleRelayLib_def nodelib.defs sampleNodeLib_public
        dest: spec [of _ "replicate 64 (CHR ''k'')"])
  have shape: "handshakeShape relayingNode sampleHandshake"
    using v(2) b64Encode_nonempty
    by (simp add: handshakeShape_def sampleHandshake_def signHandshake_def newHandshake_def relayedNode_def relayingNode_def relayAdvertised_def)
  have "sourceKey relayPeers (hsSourceNode sampleHandshake) = b64Encode (replicate 32 (CHR ''k''))"
    by (simp add: sourceKey_def relayPeers_def sampleHandshake_def signHandshake_def newHandshake_def relayedNode_def sampleKeyPair_def)
  moreover have "hsTimestamp sampleHandshake = 100" "hsNonce sampleHandshake = concat (replicate 32 ''01'')"
    by (simp_all add: sampleHandshake_def signHandshake_def newHandshake_def unixSeconds_def unixTime_def time_units)
  moreover have "\<exists>m. hsSignature sampleHandshake = b64Encode (ed25519Sign sampleRelayLib (replicate 64 (CHR ''k'')) (relayHandshakeMessage sampleHandshake))"
    by (auto simp: sampleHandshake_def signHandshake_def relayHandshakeMessage_def relayHandshakeFields_def)
  ultimately show ?thesis
    using v shape by (auto simp: relayVerify_def verifyHandshake_def sampleEvent_def relayPeers_load b64Decode_b64Encode)
qed


theorem handshake_message_binds_witness:
  "relayHandshakeMessage sampleHandshake \<noteq> relayHandshakeMessage (sampleHandshake\<lparr>hsTargetNode := ''u''\<rparr>)"
proof
  assume eq: "relayHandshakeMessage sampleHandshake = relayHandshakeMessage (sampleHandshake\<lparr>hsTargetNode := ''u''\<rparr>)"
  have "list_all (\<lambda>s. newline \<notin> set s) [hsMode h, hsNetwork h, hsSourceNode h, hsRelayNode h, hsTargetNode h, hsService h,
      hsNonce h, hsRequestID h] \<and> hsVersion h = 1 \<and> hsTimestamp h = 100"
    if "h = sampleHandshake \<or> h = sampleHandshake\<lparr>hsTargetNode := ''u''\<rparr>" for h
    using that
    by (auto simp: sampleHandshake_def signHandshake_def newHandshake_def relayHandshakeVersion_def unixSeconds_def
        unixTime_def time_units newline_def relayedNode_def relayAdvertised_def)
  then have "plainHandshake sampleHandshake" "plainHandshake (sampleHandshake\<lparr>hsTargetNode := ''u''\<rparr>)"
    unfolding plainHandshake_def by fastforce+
  from handshake_message_binds [OF this eq] have "hsTargetNode sampleHandshake = ''u''" by simp
  then show False by (simp add: sampleHandshake_def signHandshake_def newHandshake_def)
qed

text \<open>A handshake from a clock that is ahead is accepted a second time once its nonce has expired.\<close>

theorem future_handshake_replayed:
  "fst (relayVerify sampleRelayLib (sampleEvent (-20)) [])
   \<and> fst (relayVerify sampleRelayLib (sampleEvent 101) (snd (relayVerify sampleRelayLib (sampleEvent (-20)) [])))"
  by (simp add: sampleEvent_verify useNonce_def unixTime_def time_units mgetz_def rangeKeys_id mput_Nil mget_Cons mdel_Cons
      mdel_Nil expireNonce_def)

end
