(* ===== verification/Routing.thy ===== *)
theory Routing
  imports Profile "HOL-Library.Product_Lexorder"
begin

text \<open>
  How a node reaches a service of another (src/internal/app/relay_pull.go, the connector cache of
  relay_types.go): the target and the relays it may use, the direct path inside a segment, the
  relays in order of preference with their cool-down after a failure, and last a reverse connection.
\<close>

definition relayFailureCooldown :: duration where "relayFailureCooldown = 30 * nsecond"

section \<open>Choosing the route\<close>

datatype routeError =
    PeersUnreadable fileError
  | TargetNotDiscovered gostring
  | ServiceNotPublished gostring gostring
  | UpstreamNotDiscovered gostring gostring

text \<open>The first node with the wanted id, and its first service with the wanted name.\<close>

definition routeTarget :: "mapping \<Rightarrow> discoveredNode list \<Rightarrow> discoveredNode \<times> publishedService" where
  "routeTarget pull nodes =
     (case find (\<lambda>node. dnID node = mpTargetNode pull) nodes of
        None \<Rightarrow> (zeroNode, zeroService)
      | Some node \<Rightarrow>
          (node, case find (\<lambda>candidate. svName candidate = mpService pull) (dnServices node) of
                   None \<Rightarrow> zeroService | Some candidate \<Rightarrow> candidate))"

definition routeRelay :: "profile \<Rightarrow> discoveredNode \<Rightarrow> discoveredNode \<Rightarrow> bool" where
  "routeRelay local target node \<longleftrightarrow>
     dnID node \<noteq> nfID (pfNode local) \<and> dnRole node = ''relay'' \<and> dnSegment node = dnSegment target
     \<and> dnRelay node \<noteq> None \<and> \<not> (dnRole target = ''subnode'' \<and> dnID node \<noteq> dnUpstreamRelay target)"

definition relayRank :: "discoveredNode \<Rightarrow> int \<times> gostring" where
  "relayRank node = (raPriority (the (dnRelay node)), dnID node)"

definition resolveRoute ::
    "ip list option \<Rightarrow> profile \<Rightarrow> discoveredNode list slot \<Rightarrow> mapping \<Rightarrow>
      routeError + discoveredNode \<times> publishedService \<times> discoveredNode list" where
  "resolveRoute interfaces local peers pull =
     (case loadDiscovered peers of
        Inl err \<Rightarrow> Inl (PeersUnreadable err)
      | Inr discovered \<Rightarrow>
          let nodes = discovered @ [localDiscoveredNode interfaces local];
              (target, service) = routeTarget pull nodes;
              relays = filter (routeRelay local target) nodes
          in if dnID target = '''' then Inl (TargetNotDiscovered (mpTargetNode pull))
             else if svName service = '''' then Inl (ServiceNotPublished (mpService pull) (mpTargetNode pull))
             else if dnRole target = ''subnode'' \<and> relays = []
                  then Inl (UpstreamNotDiscovered (dnID target) (dnUpstreamRelay target))
             else Inr (target, service, sortBy relayRank relays))"

definition routeRelayCandidates :: "discoveredNode \<Rightarrow> discoveredNode list \<Rightarrow> discoveredNode list" where
  "routeRelayCandidates target relays =
     (if dnRole target = ''relay'' then (if dnRelay target = None then [] else [target]) else relays)"

section \<open>The connector cache\<close>

text \<open>
  An entry is a local listener that forwards to one endpoint of one service. Its key is the JSON
  text of service and endpoint, which determines both. Starting the listener, probing the pinned
  TLS endpoint and connecting are the environment's, and so are the clock readings.
\<close>

type_synonym connectorCache = "(publishedService \<times> gostring, gostring) gomap"

record dialEnv =
  deFree :: "gostring \<Rightarrow> gostring option"
  deStart :: "gostring \<Rightarrow> bool"
  deProbe :: "gostring \<Rightarrow> bool"
  deConnect :: "gostring \<Rightarrow> bool"
  deNow :: "gostring \<Rightarrow> time"

text \<open>The address the application is bridged to, or the failure of this endpoint.\<close>

definition cacheDial :: "dialEnv \<Rightarrow> publishedService \<Rightarrow> gostring \<Rightarrow> connectorCache \<Rightarrow> gostring option \<times> connectorCache" where
  "cacheDial E service upstream cache =
     (let connect = (\<lambda>address cache. (if deConnect E address then Some address else None, cache))
      in case mget cache (service, upstream) of
           Some address \<Rightarrow> connect address cache
         | None \<Rightarrow>
             (case deFree E upstream of
                None \<Rightarrow> (None, cache)
              | Some address \<Rightarrow>
                  if \<not> deStart E upstream then (None, cache)
                  else connect address (mput (service, upstream) address cache)))"

datatype directResult = DirectConnection gostring | NoActiveCandidate | DirectCandidatesFailed

fun directLoop ::
    "dialEnv \<Rightarrow> publishedService \<Rightarrow> nat \<Rightarrow> directCandidate list \<Rightarrow> connectorCache \<Rightarrow> directResult \<times> connectorCache" where
  "directLoop E service active [] cache = (if active = 0 then NoActiveCandidate else DirectCandidatesFailed, cache)"
| "directLoop E service active (c # cs) cache =
     (if dcExpiresAt c \<noteq> 0 \<and> \<not> deNow E (dcAddress c) < dcExpiresAt c then directLoop E service active cs cache
      else if \<not> deProbe E (dcAddress c) then directLoop E service (active + 1) cs cache
      else case cacheDial E service (dcAddress c) cache of
             (Some address, cache') \<Rightarrow> (DirectConnection address, cache')
           | (None, cache') \<Rightarrow> directLoop E service (active + 1) cs cache')"

definition dialDirectCandidates :: "dialEnv \<Rightarrow> publishedService \<Rightarrow> connectorCache \<Rightarrow> directResult \<times> connectorCache" where
  "dialDirectCandidates E service cache = directLoop E service 0 (svDirectCandidates service) cache"

definition cacheClose :: "connectorCache \<Rightarrow> connectorCache" where
  "cacheClose cache = []"

section \<open>One connection\<close>

record smartPull =
  spCache :: connectorCache
  spCooling :: "(gostring, time) gomap"

definition isCooling :: "smartPull \<Rightarrow> gostring \<Rightarrow> time \<Rightarrow> bool" where
  "isCooling p endpoint now \<longleftrightarrow> now < mgetz 0 (spCooling p) endpoint"

definition markFailure :: "gostring \<Rightarrow> time \<Rightarrow> smartPull \<Rightarrow> smartPull" where
  "markFailure endpoint now p = p\<lparr>spCooling := mput endpoint (now + relayFailureCooldown) (spCooling p)\<rparr>"

text \<open>
  What the node meets while it serves one application connection: its files as they are at that
  moment, its interfaces, the outcome of the direct dials, for each relay whether the dial to it
  succeeds and the clock when it is looked at and when it has failed, and whether a reverse
  connection arrives. An access through a nil relay would panic.
\<close>

record pullEnv =
  peProfile :: "profile fileState"
  pePeers :: "discoveredNode list slot"
  peInterfaces :: "ip list option"
  peDial :: dialEnv
  peRelay :: "discoveredNode \<Rightarrow> bool"
  peLook :: "gostring \<Rightarrow> time"
  peFail :: "gostring \<Rightarrow> time"
  peReverse :: bool

datatype routeOutcome =
    NoProfile profileError
  | NoRoute routeError
  | UpstreamConnection
  | UpstreamFailed
  | DirectPath gostring
  | RelayPath discoveredNode
  | SubnodeRelayFailed
  | ReversePath
  | NoPath
  | NilRelay

text \<open>The loop over the relays: those it dialed, in order, and the one that answered.\<close>

fun relayLoop ::
    "pullEnv \<Rightarrow> discoveredNode list \<Rightarrow> smartPull \<Rightarrow> routeOutcome option \<times> discoveredNode list \<times> smartPull" where
  "relayLoop E [] p = (None, [], p)"
| "relayLoop E (relay # relays) p =
     (case dnRelay relay of
        None \<Rightarrow> (Some NilRelay, [], p)
      | Some advertised \<Rightarrow>
          if isCooling p (raEndpoint advertised) (peLook E (raEndpoint advertised)) then relayLoop E relays p
          else if peRelay E relay then (Some (RelayPath relay), [relay], p)
          else case relayLoop E relays (markFailure (raEndpoint advertised) (peFail E (raEndpoint advertised)) p) of
                 (outcome, dialed, p') \<Rightarrow> (outcome, relay # dialed, p'))"

definition canReverse :: "profile \<Rightarrow> bool" where
  "canReverse current \<longleftrightarrow> pfRole current = ''relay'' \<and> rcEndpoint (pfRelay current) \<noteq> ''''
     \<and> ccURL (pfCoordinator current) \<noteq> '''' \<and> ccCredential (pfCoordinator current) \<noteq> None"

definition upstreamOf :: "profile \<Rightarrow> discoveredNode" where
  "upstreamOf current = zeroNode\<lparr>dnID := scRelayNodeID (pfSubnode current),
     dnRelay := Some \<lparr>raEndpoint = scRelayEndpoint (pfSubnode current),
       raPinnedSHA256 = scRelayPinnedSHA256 (pfSubnode current), raPriority = 0\<rparr>\<rparr>"

text \<open>\<open>handle\<close>: the relays it dialed, how the connection ended, and what the pull remembers.\<close>

definition tryDirect :: "pullEnv \<Rightarrow> profile \<Rightarrow> discoveredNode \<Rightarrow> publishedService \<Rightarrow> smartPull \<Rightarrow> gostring option \<times> smartPull" where
  "tryDirect E current target service p =
     (if pfSegment current = dnSegment target \<and> dnRole target \<noteq> ''subnode'' then
        (case dialDirectCandidates (peDial E) service (spCache p) of
           (DirectConnection address, cache) \<Rightarrow> (Some address, p\<lparr>spCache := cache\<rparr>)
         | (_, cache) \<Rightarrow> (None, p\<lparr>spCache := cache\<rparr>))
      else (None, p))"

definition tryRelays ::
    "pullEnv \<Rightarrow> profile \<Rightarrow> discoveredNode \<Rightarrow> discoveredNode list \<Rightarrow> smartPull \<Rightarrow>
      routeOutcome \<times> discoveredNode list \<times> smartPull" where
  "tryRelays E current target relays p =
     (let candidates = routeRelayCandidates target relays;
          reverse = (if canReverse current \<and> peReverse E then ReversePath else NoPath)
      in case relayLoop E candidates p of
           (Some outcome, dialed, p') \<Rightarrow> (outcome, dialed, p')
         | (None, dialed, p') \<Rightarrow>
             (if candidates \<noteq> [] \<and> dnRole target = ''subnode'' then SubnodeRelayFailed else reverse, dialed, p'))"

definition handlePull :: "pullEnv \<Rightarrow> mapping \<Rightarrow> smartPull \<Rightarrow> routeOutcome \<times> discoveredNode list \<times> smartPull" where
  "handlePull E pull p =
     (case loadProfile (peProfile E) of
        Inl err \<Rightarrow> (NoProfile err, [], p)
      | Inr current \<Rightarrow>
          (case resolveRoute (peInterfaces E) current (pePeers E) pull of
             Inl err \<Rightarrow> (NoRoute err, [], p)
           | Inr (target, service, relays) \<Rightarrow>
               if pfRole current = ''subnode'' then
                 (if peRelay E (upstreamOf current) then UpstreamConnection else UpstreamFailed, [upstreamOf current], p)
               else (case tryDirect E current target service p of
                       (Some address, p') \<Rightarrow> (DirectPath address, [], p')
                     | (None, p') \<Rightarrow> tryRelays E current target relays p')))"

section \<open>What a resolved route is\<close>

lemma resolveRoute_ok:
  assumes "resolveRoute interfaces local peers pull = Inr (target, service, relays)"
  obtains discovered where "loadDiscovered peers = Inr discovered"
    and "find (\<lambda>node. dnID node = mpTargetNode pull) (discovered @ [localDiscoveredNode interfaces local]) = Some target"
    and "find (\<lambda>candidate. svName candidate = mpService pull) (dnServices target) = Some service"
    and "dnID target \<noteq> ''''" and "svName service \<noteq> ''''"
    and "relays = sortBy relayRank (filter (routeRelay local target) (discovered @ [localDiscoveredNode interfaces local]))"
    and "dnRole target = ''subnode'' \<Longrightarrow> relays \<noteq> []"
proof -
  from assms obtain discovered where d: "loadDiscovered peers = Inr discovered"
    by (auto simp: resolveRoute_def split: sum.splits)
  define nodes where "nodes = discovered @ [localDiscoveredNode interfaces local]"
  obtain t s where ts: "routeTarget pull nodes = (t, s)" by (cases "routeTarget pull nodes")
  have r: "t = target" "s = service" "dnID target \<noteq> ''''" "svName service \<noteq> ''''"
    "relays = sortBy relayRank (filter (routeRelay local target) nodes)"
    "dnRole target = ''subnode'' \<longrightarrow> filter (routeRelay local target) nodes \<noteq> []"
    using assms unfolding resolveRoute_def d sum.case Let_def nodes_def [symmetric] ts prod.case by (auto split: if_splits)
  have "find (\<lambda>node. dnID node = mpTargetNode pull) nodes = Some target
      \<and> find (\<lambda>candidate. svName candidate = mpService pull) (dnServices target) = Some service"
    using ts r(1-4) by (auto simp: routeTarget_def zeroNode_def zeroService_def split: option.splits)
  moreover have "dnRole target = ''subnode'' \<Longrightarrow> relays \<noteq> []"
    using r(5,6) length_sortBy [of relayRank "filter (routeRelay local target) nodes"] by (metis length_0_conv)
  ultimately show thesis using that [OF d] r(3-5) by (simp add: nodes_def)
qed

text \<open>C19: A resolved route is the one the node asked for: the target has the wanted id and publishes
  the wanted service; the relays are exactly the other relay nodes of the target's segment that
  advertise themselves, for a subnode only its own upstream relay, in order of priority and, among
  equals, of id.\<close>

theorem route_is_as_asked:
  assumes "resolveRoute interfaces local peers pull = Inr (target, service, relays)"
    and "loadDiscovered peers = Inr discovered"
  shows "dnID target = mpTargetNode pull \<and> service \<in> set (dnServices target) \<and> svName service = mpService pull
    \<and> set relays = {node \<in> insert (localDiscoveredNode interfaces local) (set discovered). dnID node \<noteq> nfID (pfNode local)
         \<and> dnRole node = ''relay'' \<and> dnSegment node = dnSegment target \<and> dnRelay node \<noteq> None
         \<and> (dnRole target = ''subnode'' \<longrightarrow> dnID node = dnUpstreamRelay target)}
    \<and> sorted_wrt (\<lambda>a b. relayRank a \<le> relayRank b) relays
    \<and> (dnRole target = ''subnode'' \<longrightarrow> relays \<noteq> [])"
proof (rule resolveRoute_ok [OF assms(1)])
  fix found
  assume "loadDiscovered peers = Inr found"
    and t: "find (\<lambda>node. dnID node = mpTargetNode pull) (found @ [localDiscoveredNode interfaces local]) = Some target"
    and s: "find (\<lambda>candidate. svName candidate = mpService pull) (dnServices target) = Some service"
    and relays: "relays = sortBy relayRank (filter (routeRelay local target) (found @ [localDiscoveredNode interfaces local]))"
    and sub: "dnRole target = ''subnode'' \<Longrightarrow> relays \<noteq> []"
  with assms(2) have "found = discovered" by simp
  moreover have "dnID target = mpTargetNode pull" "service \<in> set (dnServices target)" "svName service = mpService pull"
    using t s by (auto simp: find_Some_iff)
  moreover have "sorted_wrt (\<lambda>a b. relayRank a \<le> relayRank b) relays"
    using sorted_sortBy [of relayRank "filter (routeRelay local target) (found @ [localDiscoveredNode interfaces local])"]
    by (simp only: relays sorted_wrt_map)
  ultimately show ?thesis using relays sub by (auto simp: routeRelay_def)
qed

section \<open>Which paths are taken\<close>

lemma isCooling_markFailure:
  "isCooling (markFailure e t p) e' now \<longleftrightarrow> (if e' = e then now < t + relayFailureCooldown else isCooling p e' now)"
  by (auto simp: isCooling_def markFailure_def mgetz_def)

abbreviation endpointOf :: "discoveredNode \<Rightarrow> gostring" where
  "endpointOf relay \<equiv> raEndpoint (the (dnRelay relay))"

lemma relayLoop_facts:
  assumes "relayLoop E relays p = (outcome, dialed, p')" and "\<forall>relay \<in> set relays. dnRelay relay \<noteq> None"
  shows "set dialed \<subseteq> set relays
    \<and> (case outcome of None \<Rightarrow> \<forall>relay \<in> set dialed. \<not> peRelay E relay
       | Some way \<Rightarrow> \<exists>relay \<in> set dialed. way = RelayPath relay \<and> peRelay E relay)"
  using assms
proof (induction E relays p arbitrary: outcome dialed p' rule: relayLoop.induct)
  case (1 E p)
  then show ?case by simp
next
  case (2 E relay relays p)
  from "2.prems"(2) obtain advertised where a: "dnRelay relay = Some advertised" by auto
  consider "isCooling p (raEndpoint advertised) (peLook E (raEndpoint advertised))"
    | "\<not> isCooling p (raEndpoint advertised) (peLook E (raEndpoint advertised))" "peRelay E relay"
    | "\<not> isCooling p (raEndpoint advertised) (peLook E (raEndpoint advertised))" "\<not> peRelay E relay" by blast
  then show ?case
  proof cases
    case 1
    with "2.IH"(1) [OF a 1] "2.prems" a show ?thesis by auto
  next
    case 2
    with "2.prems" a show ?thesis by auto
  next
    case 3
    obtain o' d' q where l: "relayLoop E relays (markFailure (raEndpoint advertised) (peFail E (raEndpoint advertised)) p) = (o', d', q)"
      by (cases "relayLoop E relays (markFailure (raEndpoint advertised) (peFail E (raEndpoint advertised)) p)")
    from "2.prems"(1) a 3 l have r: "outcome = o'" "dialed = relay # d'" by auto
    have "\<forall>relay \<in> set relays. dnRelay relay \<noteq> None" using "2.prems"(2) by simp
    from "2.IH"(2) [OF a 3 l this] show ?thesis
      unfolding r using 3(2) by (auto split: option.splits)
  qed
qed

text \<open>A cooling endpoint is not dialed; a failed one cools from the moment its dial failed.\<close>

lemma relayLoop_rests:
  assumes "relayLoop E relays p = (outcome, dialed, p')" and "\<forall>relay \<in> set relays. dnRelay relay \<noteq> None"
    and "isCooling p e (peLook E e)"
  shows "\<forall>relay \<in> set dialed. endpointOf relay \<noteq> e"
  using assms
proof (induction E relays p arbitrary: outcome dialed p' rule: relayLoop.induct)
  case (1 E p)
  then show ?case by simp
next
  case (2 E relay relays p)
  from "2.prems"(2) obtain advertised where a: "dnRelay relay = Some advertised" by auto
  have rest: "\<forall>relay \<in> set relays. dnRelay relay \<noteq> None" using "2.prems"(2) by simp
  show ?case
  proof (cases "isCooling p (raEndpoint advertised) (peLook E (raEndpoint advertised))")
    case True
    from "2.prems"(1) a True have "relayLoop E relays p = (outcome, dialed, p')" by simp
    from "2.IH"(1) [OF a True this rest "2.prems"(3)] show ?thesis .
  next
    case cool: False
    then have ne: "raEndpoint advertised \<noteq> e" using "2.prems"(3) by auto
    show ?thesis
    proof (cases "peRelay E relay")
      case True
      with "2.prems"(1) a cool ne show ?thesis by auto
    next
      case failed: False
      let ?p = "markFailure (raEndpoint advertised) (peFail E (raEndpoint advertised)) p"
      obtain o' d' q where l: "relayLoop E relays ?p = (o', d', q)" by (cases "relayLoop E relays ?p")
      from "2.prems"(1) a cool failed l have "dialed = relay # d'" by auto
      moreover have "isCooling ?p e (peLook E e)" using ne "2.prems"(3) by (simp add: isCooling_markFailure)
      ultimately show ?thesis using "2.IH"(2) [OF a cool failed l rest] a ne by simp
    qed
  qed
qed

lemma relayLoop_cools:
  assumes "relayLoop E relays p = (outcome, dialed, p')" and "\<forall>relay \<in> set relays. dnRelay relay \<noteq> None"
  shows "spCache p' = spCache p \<and> (\<forall>e now. isCooling p' e now \<longleftrightarrow>
      (if \<exists>relay \<in> set dialed. endpointOf relay = e \<and> \<not> peRelay E relay
       then now < peFail E e + relayFailureCooldown else isCooling p e now))"
  using assms
proof (induction E relays p arbitrary: outcome dialed p' rule: relayLoop.induct)
  case (1 E p)
  then show ?case by simp
next
  case (2 E relay relays p)
  from "2.prems"(2) obtain advertised where a: "dnRelay relay = Some advertised" by auto
  have rest: "\<forall>relay \<in> set relays. dnRelay relay \<noteq> None" using "2.prems"(2) by simp
  show ?case
  proof (cases "isCooling p (raEndpoint advertised) (peLook E (raEndpoint advertised))")
    case True
    from "2.prems"(1) a True have "relayLoop E relays p = (outcome, dialed, p')" by simp
    from "2.IH"(1) [OF a True this rest] show ?thesis .
  next
    case cool: False
    show ?thesis
    proof (cases "peRelay E relay")
      case True
      with "2.prems"(1) a cool show ?thesis by auto
    next
      case failed: False
      let ?p = "markFailure (raEndpoint advertised) (peFail E (raEndpoint advertised)) p"
      obtain o' d' q where l: "relayLoop E relays ?p = (o', d', q)" by (cases "relayLoop E relays ?p")
      from "2.prems"(1) a cool failed l have d: "dialed = relay # d'" "p' = q" by auto
      have IH: "spCache q = spCache ?p" "isCooling q e now \<longleftrightarrow>
          (if \<exists>relay \<in> set d'. endpointOf relay = e \<and> \<not> peRelay E relay
           then now < peFail E e + relayFailureCooldown else isCooling ?p e now)" for e now
        using "2.IH"(2) [OF a cool failed l rest] by blast+
      have "spCache q = spCache p" using IH(1) by (simp add: markFailure_def)
      moreover have "isCooling q e now \<longleftrightarrow>
          (if \<exists>relay \<in> set dialed. endpointOf relay = e \<and> \<not> peRelay E relay
           then now < peFail E e + relayFailureCooldown else isCooling p e now)" for e now
        unfolding IH(2) d(1) isCooling_markFailure using a failed by auto
      ultimately show ?thesis unfolding d(2) by blast
    qed
  qed
qed

section \<open>One connection through the routes\<close>

lemma routeRelayCandidates_advertise:
  assumes "resolveRoute interfaces local peers pull = Inr (target, service, relays)"
  shows "\<forall>relay \<in> set (routeRelayCandidates target relays). dnRelay relay \<noteq> None"
proof (rule resolveRoute_ok [OF assms])
  fix discovered
  assume "relays = sortBy relayRank (filter (routeRelay local target) (discovered @ [localDiscoveredNode interfaces local]))"
  then show ?thesis by (auto simp: routeRelayCandidates_def routeRelay_def)
qed

lemma route_nonempty:
  assumes "resolveRoute interfaces local peers pull = Inr (target, service, relays)" and "dnRole target = ''subnode''"
  shows "routeRelayCandidates target relays \<noteq> []"
proof (rule resolveRoute_ok [OF assms(1)])
  assume "dnRole target = ''subnode'' \<Longrightarrow> relays \<noteq> []"
  then show ?thesis using assms(2) by (simp add: routeRelayCandidates_def)
qed

lemma tryDirect_facts:
  assumes "tryDirect E current target service p = (way, p')"
  shows "spCooling p' = spCooling p"
    and "way \<noteq> None \<Longrightarrow> pfSegment current = dnSegment target \<and> dnRole target \<noteq> ''subnode''"
  using assms by (auto simp: tryDirect_def split: if_splits prod.splits directResult.splits)

text \<open>The ways a connection may go, once profile and route are there.\<close>

lemma handlePull_cases:
  assumes "handlePull E pull p = (outcome, dialed, p')"
  obtains (noProfile) err where "loadProfile (peProfile E) = Inl err" "outcome = NoProfile err" "dialed = []" "p' = p"
  | (noRoute) current err where "loadProfile (peProfile E) = Inr current"
      "resolveRoute (peInterfaces E) current (pePeers E) pull = Inl err" "outcome = NoRoute err" "dialed = []" "p' = p"
  | (upstream) current where "loadProfile (peProfile E) = Inr current" "pfRole current = ''subnode''"
      "outcome \<in> {UpstreamConnection, UpstreamFailed}" "dialed = [upstreamOf current]" "p' = p"
  | (direct) current target service relays address where "loadProfile (peProfile E) = Inr current"
      "pfRole current \<noteq> ''subnode''"
      "resolveRoute (peInterfaces E) current (pePeers E) pull = Inr (target, service, relays)"
      "outcome = DirectPath address" "dialed = []" "tryDirect E current target service p = (Some address, p')"
  | (relays) current target service relays q result where "loadProfile (peProfile E) = Inr current"
      "pfRole current \<noteq> ''subnode''"
      "resolveRoute (peInterfaces E) current (pePeers E) pull = Inr (target, service, relays)"
      "tryDirect E current target service p = (None, q)"
      "relayLoop E (routeRelayCandidates target relays) q = (result, dialed, p')"
      "outcome = (case result of Some way \<Rightarrow> way
         | None \<Rightarrow> if routeRelayCandidates target relays \<noteq> [] \<and> dnRole target = ''subnode'' then SubnodeRelayFailed
                  else if canReverse current \<and> peReverse E then ReversePath else NoPath)"
proof -
  show thesis
  proof (cases "loadProfile (peProfile E)")
    case (Inl err)
    with assms noProfile show thesis by (auto simp: handlePull_def)
  next
    case p: (Inr current)
    show thesis
    proof (cases "resolveRoute (peInterfaces E) current (pePeers E) pull")
      case (Inl err)
      with assms p noRoute show thesis by (auto simp: handlePull_def)
    next
      case (Inr route)
      obtain target service rs where r: "resolveRoute (peInterfaces E) current (pePeers E) pull = Inr (target, service, rs)"
        using Inr by (cases route) auto
      obtain way q where t: "tryDirect E current target service p = (way, q)" by (cases "tryDirect E current target service p")
      obtain result d q' where l: "relayLoop E (routeRelayCandidates target rs) q = (result, d, q')"
        by (cases "relayLoop E (routeRelayCandidates target rs) q")
      show thesis
      proof (cases "pfRole current = ''subnode''")
        case True
        with assms p r upstream [OF p True] show thesis by (auto simp: handlePull_def split: if_splits)
      next
        case sub: False
        show thesis
        proof (cases way)
          case None
          with assms p r t l sub have "dialed = d" "p' = q'" "outcome = (case result of Some way \<Rightarrow> way
             | None \<Rightarrow> if routeRelayCandidates target rs \<noteq> [] \<and> dnRole target = ''subnode'' then SubnodeRelayFailed
                      else if canReverse current \<and> peReverse E then ReversePath else NoPath)"
            by (auto simp: handlePull_def tryRelays_def Let_def split: option.splits)
          with relays [OF p sub r] t l None show thesis by blast
        next
          case (Some address)
          with assms p r t sub have "outcome = DirectPath address" "dialed = []" "p' = q"
            by (auto simp: handlePull_def)
          with direct [OF p sub r] t Some show thesis by blast
        qed
      qed
    qed
  qed
qed

text \<open>A connection takes only a way its route allows, and no access fails: a direct path only to a
  node of the own segment that is not a subnode, through a relay only when that relay was dialed and
  answered and is the target itself or one of the relays of the resolved route, and a reverse
  connection only from a relay node that is enrolled, after every relay that was dialed has failed and
  never towards a subnode. A subnode always goes through its own relay.\<close>

theorem taken_path_is_allowed:
  assumes "handlePull E pull p = (outcome, dialed, p')"
    and "loadProfile (peProfile E) = Inr current"
    and "resolveRoute (peInterfaces E) current (pePeers E) pull = Inr (target, service, relays)"
  shows "outcome \<noteq> NilRelay
    \<and> (pfRole current = ''subnode'' \<longleftrightarrow> outcome \<in> {UpstreamConnection, UpstreamFailed})
    \<and> (\<forall>address. outcome = DirectPath address \<longrightarrow> pfSegment current = dnSegment target \<and> dnRole target \<noteq> ''subnode'')
    \<and> (\<forall>relay. outcome = RelayPath relay \<longrightarrow>
         relay \<in> set dialed \<and> peRelay E relay \<and> relay \<in> set (routeRelayCandidates target relays))
    \<and> (outcome = ReversePath \<longrightarrow> canReverse current \<and> dnRole target \<noteq> ''subnode'' \<and> (\<forall>relay \<in> set dialed. \<not> peRelay E relay))"
  using assms(1)
proof (cases rule: handlePull_cases)
  case (direct current' target' service' relays' address)
  with assms(2,3) tryDirect_facts(2) [OF direct(6)] show ?thesis by auto
next
  case (relays current' target' service' relays' q result)
  have eq: "current' = current" "target' = target" "relays' = relays" using relays(1,3) assms(2,3) by auto
  have adv: "\<forall>relay \<in> set (routeRelayCandidates target relays). dnRelay relay \<noteq> None"
    by (rule routeRelayCandidates_advertise [OF assms(3)])
  have f: "set dialed \<subseteq> set (routeRelayCandidates target relays)
      \<and> (case result of None \<Rightarrow> \<forall>relay \<in> set dialed. \<not> peRelay E relay
         | Some way \<Rightarrow> \<exists>relay \<in> set dialed. way = RelayPath relay \<and> peRelay E relay)"
    using relayLoop_facts [OF relays(5) [unfolded eq] adv] .
  show ?thesis
  proof (cases result)
    case None
    have "outcome = ReversePath \<Longrightarrow> dnRole target \<noteq> ''subnode''"
    proof
      assume "outcome = ReversePath" and sub: "dnRole target = ''subnode''"
      then have "routeRelayCandidates target relays = []" using relays(6) None eq by (auto split: if_splits)
      then show False using route_nonempty [OF assms(3) sub] by simp
    qed
    then show ?thesis using relays(2,6) f None eq by (auto split: if_splits)
  next
    case (Some way)
    then show ?thesis using relays(2,6) f eq by auto
  qed
qed (use assms(2,3) in auto)


section \<open>A sample network\<close>

definition sampleRelay :: "gostring \<Rightarrow> int \<Rightarrow> discoveredNode" where
  "sampleRelay name priority = zeroNode\<lparr>dnID := name, dnRole := ''relay'', dnSegment := ''far'',
     dnRelay := Some \<lparr>raEndpoint = name @ '':1'', raPinnedSHA256 = ''pin'', raPriority = priority\<rparr>\<rparr>"

definition sampleTarget :: discoveredNode where
  "sampleTarget = zeroNode\<lparr>dnID := ''t'', dnRole := ''client'', dnSegment := ''far'',
     dnServices := [zeroService\<lparr>svName := ''web''\<rparr>]\<rparr>"

definition sampleLocal :: profile where
  "sampleLocal = zeroProfile\<lparr>pfVersion := profileVersion, pfRole := ''client'', pfSegment := ''near'',
     pfNode := \<lparr>nfID = ''me'', nfName = ''me''\<rparr>\<rparr>"

definition samplePull :: mapping where
  "samplePull = zeroMapping\<lparr>mpKind := ''pull'', mpTargetNode := ''t'', mpService := ''web''\<rparr>"

definition sampleDial :: dialEnv where
  "sampleDial = \<lparr>deFree = (\<lambda>u. None), deStart = (\<lambda>u. False), deProbe = (\<lambda>u. False), deConnect = (\<lambda>u. False), deNow = (\<lambda>u. 0)\<rparr>"

text \<open>Two relays of the same segment; the preferred one is down. The second connection comes \<open>later\<close>.\<close>

definition sampleEnv :: "time \<Rightarrow> pullEnv" where
  "sampleEnv later = \<lparr>peProfile = Holds sampleLocal,
     pePeers = \<lparr>slotFile = Holds [sampleRelay ''b'' 20, sampleTarget, sampleRelay ''a'' 10], slotTemp = NoFile\<rparr>,
     peInterfaces = Some [], peDial = sampleDial, peRelay = (\<lambda>relay. dnID relay = ''b''),
     peLook = (\<lambda>e. later), peFail = (\<lambda>e. later), peReverse = False\<rparr>"

definition samplePulls :: smartPull where "samplePulls = \<lparr>spCache = [], spCooling = []\<rparr>"

lemma sample_route:
  "resolveRoute (Some []) sampleLocal \<lparr>slotFile = Holds [sampleRelay ''b'' 20, sampleTarget, sampleRelay ''a'' 10], slotTemp = NoFile\<rparr> samplePull
   = Inr (sampleTarget, zeroService\<lparr>svName := ''web''\<rparr>, [sampleRelay ''a'' 10, sampleRelay ''b'' 20])"
  by code_simp

lemma sample_first:
  "handlePull (sampleEnv 0) samplePull samplePulls
   = (RelayPath (sampleRelay ''b'' 20), [sampleRelay ''a'' 10, sampleRelay ''b'' 20],
      \<lparr>spCache = [], spCooling = [(''a:1'', relayFailureCooldown)]\<rparr>)"
  by code_simp

lemma sample_second:
  "handlePull (sampleEnv 29000000000) samplePull \<lparr>spCache = [], spCooling = [(''a:1'', relayFailureCooldown)]\<rparr>
   = (RelayPath (sampleRelay ''b'' 20), [sampleRelay ''b'' 20],
      \<lparr>spCache = [], spCooling = [(''a:1'', relayFailureCooldown)]\<rparr>)"
  by code_simp

definition samplePeers :: "discoveredNode list" where
  "samplePeers = [sampleRelay ''b'' 20, sampleTarget, sampleRelay ''a'' 10]"

lemma sample_peers:
  "loadDiscovered \<lparr>slotFile = Holds [sampleRelay ''b'' 20, sampleTarget, sampleRelay ''a'' 10], slotTemp = NoFile\<rparr> = Inr samplePeers"
  by (simp add: loadDiscovered_def readJSON_def samplePeers_def)

theorem route_is_as_asked_witness:
  "sampleRelay ''a'' 10 \<in> insert (localDiscoveredNode (Some []) sampleLocal) (set samplePeers)
   \<and> dnID sampleTarget = mpTargetNode samplePull
   \<and> sorted_wrt (\<lambda>a b. relayRank a \<le> relayRank b) [sampleRelay ''a'' 10, sampleRelay ''b'' 20]"
  using route_is_as_asked [OF sample_route sample_peers] by auto

lemma sample_env:
  "loadProfile (peProfile (sampleEnv t)) = Inr sampleLocal"
  "resolveRoute (peInterfaces (sampleEnv t)) sampleLocal (pePeers (sampleEnv t)) samplePull
   = Inr (sampleTarget, zeroService\<lparr>svName := ''web''\<rparr>, [sampleRelay ''a'' 10, sampleRelay ''b'' 20])"
  using sample_route by (simp_all add: sampleEnv_def loadProfile_Holds sampleLocal_def validNodeRole_def)

theorem taken_path_is_allowed_witness:
  "\<exists>outcome dialed p'. handlePull (sampleEnv 0) samplePull samplePulls = (outcome, dialed, p') \<and> outcome \<noteq> NilRelay
    \<and> \<not> outcome \<in> {UpstreamConnection, UpstreamFailed}"
  using taken_path_is_allowed [OF sample_first sample_env] sample_first by (auto simp: sampleLocal_def)


section \<open>The connector cache grows with every lease\<close>

text \<open>
  The key of the cache is the whole published service, the expiry of its candidates included, and
  entries are dropped only when the pull is closed: after a renewal of the lease the same endpoint
  of the same service gets a new listener beside the old one.
\<close>

definition renewed :: "time \<Rightarrow> publishedService \<Rightarrow> publishedService" where
  "renewed expiry service = service\<lparr>svDirectCandidates := map (dcExpiresAt_update (\<lambda>_. expiry)) (svDirectCandidates service)\<rparr>"

lemma cacheDial_keeps:
  "mget (snd (cacheDial E service upstream cache)) key \<noteq> None \<or> mget cache key = None"
  by (auto simp: cacheDial_def Let_def split: option.splits)

theorem renewed_lease_leaks_listener:
  assumes "svDirectCandidates service = c # cs" and "later \<noteq> dcExpiresAt c"
    and "deFree E upstream = Some address" and "deStart E upstream"
    and "mget cache (service, upstream) = Some old" and "mget cache (renewed later service, upstream) = None"
  shows "mget (snd (cacheDial E (renewed later service) upstream cache)) (service, upstream) = Some old"
    and "mget (snd (cacheDial E (renewed later service) upstream cache)) (renewed later service, upstream) = Some address"
proof -
  have "renewed later service \<noteq> service"
  proof
    assume eq: "renewed later service = service"
    have "map (dcExpiresAt_update (\<lambda>_. later)) (svDirectCandidates service) = svDirectCandidates service"
      using arg_cong [OF eq, of svDirectCandidates] by (simp add: renewed_def)
    then have "dcExpiresAt_update (\<lambda>_. later) c = c" using assms(1) by simp
    then have "dcExpiresAt c = later" by (metis directCandidate.select_convs(2) directCandidate.surjective directCandidate.update_convs(2))
    with assms(2) show False by simp
  qed
  then show "mget (snd (cacheDial E (renewed later service) upstream cache)) (service, upstream) = Some old"
    and "mget (snd (cacheDial E (renewed later service) upstream cache)) (renewed later service, upstream) = Some address"
    using assms by (auto simp: cacheDial_def Let_def)
qed

end
