(* ===== verification/Reverse_Broker.thy ===== *)
theory Reverse_Broker
  imports GoText
begin

text \<open>
  The broker that joins a waiting application with the connection a publisher dials back
  (\<open>reverseConnectionBroker\<close>, src/internal/app/relay_types.go), and the goroutines around it: the
  waiters (\<open>tryReverse\<close> of relay_pull.go, \<open>dialReverseService\<close> of relay_server.go) and the relay's
  handlers of reverse handshakes (\<open>handle\<close> of relay_server.go), in every interleaving.
\<close>

section \<open>The table\<close>

text \<open>
  An expectation is known by its number; its two channels are the rendezvous on that number and
  the set of numbers whose \<open>done\<close> channel is closed. Every operation is one critical section.
\<close>

record expectation =
  exTarget :: gostring
  exService :: gostring

record broker =
  bkWaiting :: "(gostring, nat) gomap"
  bkExpectations :: "expectation list"
  bkDone :: "nat list"

definition newBroker :: broker where
  "newBroker = \<lparr>bkWaiting = [], bkExpectations = [], bkDone = []\<rparr>"

definition expect :: "gostring \<Rightarrow> gostring \<Rightarrow> gostring \<Rightarrow> broker \<Rightarrow> nat \<times> broker" where
  "expect requestID targetNode service b =
     (let expectation = length (bkExpectations b)
      in (expectation, b\<lparr>bkWaiting := mput requestID expectation (bkWaiting b),
            bkExpectations := bkExpectations b @ [\<lparr>exTarget = targetNode, exService = service\<rparr>]\<rparr>))"

text \<open>The two halves of the function \<open>expect\<close> returns: \<open>close(done)\<close>, then the entry is removed.\<close>

definition closeDone :: "nat \<Rightarrow> broker \<Rightarrow> broker" where
  "closeDone expectation b = b\<lparr>bkDone := expectation # bkDone b\<rparr>"

definition forget :: "gostring \<Rightarrow> nat \<Rightarrow> broker \<Rightarrow> broker" where
  "forget requestID expectation b =
     (if mget (bkWaiting b) requestID = Some expectation
      then b\<lparr>bkWaiting := mdel requestID (bkWaiting b)\<rparr> else b)"

definition takeExpectation :: "gostring \<Rightarrow> gostring \<Rightarrow> gostring \<Rightarrow> broker \<Rightarrow> nat option \<times> broker" where
  "takeExpectation requestID targetNode service b =
     (case mget (bkWaiting b) requestID of
        None \<Rightarrow> (None, b)
      | Some expectation \<Rightarrow>
          if exTarget (bkExpectations b ! expectation) \<noteq> targetNode
             \<or> exService (bkExpectations b ! expectation) \<noteq> service then (None, b)
          else (Some expectation, b\<lparr>bkWaiting := mdel requestID (bkWaiting b)\<rparr>))"

section \<open>Waiters and handlers\<close>

text \<open>
  The waiter of an expectation waits; leaves, when it has a connection, its request failed or its
  timer ran out; then runs the deferred stop in its two halves. A connection that came with a
  reverse handshake was refused, or is offered to an expectation, and then either bridged to the
  waiter or abandoned.
\<close>

datatype phase = Waits | Leaves | Forgets | Gone

datatype delivery = RefusedConn | Offered nat | Bridged nat | Abandoned nat

record arrival =
  arRequest :: gostring
  arSource :: gostring
  arService :: gostring
  arState :: delivery

record reverseState =
  rvBroker :: broker
  rvWaiters :: "(gostring \<times> phase) list"
  rvArrivals :: "arrival list"

inductive reverse_step :: "reverseState \<Rightarrow> reverseState \<Rightarrow> bool" where
  expects: "expect requestID targetNode service (rvBroker s) = (e, b) \<Longrightarrow>
    reverse_step s (s\<lparr>rvBroker := b, rvWaiters := rvWaiters s @ [(requestID, Waits)]\<rparr>)"
| fails: "e < length (rvWaiters s) \<Longrightarrow> rvWaiters s ! e = (requestID, Waits) \<Longrightarrow>
    reverse_step s (s\<lparr>rvWaiters := (rvWaiters s)[e := (requestID, Leaves)]\<rparr>)"
| takes: "takeExpectation requestID source service (rvBroker s) = (found, b) \<Longrightarrow>
    reverse_step s (s\<lparr>rvBroker := b, rvArrivals := rvArrivals s @
      [\<lparr>arRequest = requestID, arSource = source, arService = service,
        arState = (case found of None \<Rightarrow> RefusedConn | Some e \<Rightarrow> Offered e)\<rparr>]\<rparr>)"
| hands_over: "c < length (rvArrivals s) \<Longrightarrow> arState (rvArrivals s ! c) = Offered e \<Longrightarrow>
    e < length (rvWaiters s) \<Longrightarrow> rvWaiters s ! e = (requestID, Waits) \<Longrightarrow>
    reverse_step s (s\<lparr>rvWaiters := (rvWaiters s)[e := (requestID, Leaves)],
      rvArrivals := (rvArrivals s)[c := (rvArrivals s ! c)\<lparr>arState := Bridged e\<rparr>]\<rparr>)"
| gives_up: "c < length (rvArrivals s) \<Longrightarrow> arState (rvArrivals s ! c) = Offered e \<Longrightarrow>
    e \<in> set (bkDone (rvBroker s)) \<Longrightarrow>
    reverse_step s (s\<lparr>rvArrivals := (rvArrivals s)[c := (rvArrivals s ! c)\<lparr>arState := Abandoned e\<rparr>]\<rparr>)"
| closes: "e < length (rvWaiters s) \<Longrightarrow> rvWaiters s ! e = (requestID, Leaves) \<Longrightarrow>
    reverse_step s (s\<lparr>rvBroker := closeDone e (rvBroker s), rvWaiters := (rvWaiters s)[e := (requestID, Forgets)]\<rparr>)"
| forgets: "e < length (rvWaiters s) \<Longrightarrow> rvWaiters s ! e = (requestID, Forgets) \<Longrightarrow>
    reverse_step s (s\<lparr>rvBroker := forget requestID e (rvBroker s), rvWaiters := (rvWaiters s)[e := (requestID, Gone)]\<rparr>)"

definition reverse_init :: "reverseState \<Rightarrow> bool" where
  "reverse_init s \<longleftrightarrow> s = \<lparr>rvBroker = newBroker, rvWaiters = [], rvArrivals = []\<rparr>"

section \<open>The invariant\<close>

primrec given_to :: "delivery \<Rightarrow> nat option" where
  "given_to RefusedConn = None"
| "given_to (Offered e) = Some e"
| "given_to (Bridged e) = Some e"
| "given_to (Abandoned e) = Some e"

definition waiting_ok :: "reverseState \<Rightarrow> bool" where
  "waiting_ok s \<longleftrightarrow> (\<forall>requestID e. mget (bkWaiting (rvBroker s)) requestID = Some e \<longrightarrow>
     e < length (rvWaiters s) \<and> fst (rvWaiters s ! e) = requestID \<and> snd (rvWaiters s ! e) \<noteq> Gone
     \<and> (\<forall>a \<in> set (rvArrivals s). given_to (arState a) \<noteq> Some e))"

definition arrival_ok :: "reverseState \<Rightarrow> arrival \<Rightarrow> bool" where
  "arrival_ok s a \<longleftrightarrow> (\<forall>e. given_to (arState a) = Some e \<longrightarrow>
     e < length (rvWaiters s) \<and> arRequest a = fst (rvWaiters s ! e)
     \<and> arSource a = exTarget (bkExpectations (rvBroker s) ! e)
     \<and> arService a = exService (bkExpectations (rvBroker s) ! e)
     \<and> (arState a = Bridged e \<longrightarrow> snd (rvWaiters s ! e) \<noteq> Waits))"

definition given_once :: "reverseState \<Rightarrow> bool" where
  "given_once s \<longleftrightarrow> (\<forall>c < length (rvArrivals s). \<forall>d < length (rvArrivals s).
     given_to (arState (rvArrivals s ! c)) \<noteq> None
     \<and> given_to (arState (rvArrivals s ! c)) = given_to (arState (rvArrivals s ! d)) \<longrightarrow> c = d)"

definition done_ok :: "reverseState \<Rightarrow> bool" where
  "done_ok s \<longleftrightarrow> (\<forall>e. e \<in> set (bkDone (rvBroker s)) \<longleftrightarrow>
     e < length (rvWaiters s) \<and> snd (rvWaiters s ! e) \<in> {Forgets, Gone})"

definition reverse_inv :: "reverseState \<Rightarrow> bool" where
  "reverse_inv s \<longleftrightarrow> length (rvWaiters s) = length (bkExpectations (rvBroker s)) \<and> waiting_ok s
     \<and> (\<forall>a \<in> set (rvArrivals s). arrival_ok s a) \<and> given_once s \<and> done_ok s"

lemma given_onceD:
  "given_once s \<Longrightarrow> c < length (rvArrivals s) \<Longrightarrow> d < length (rvArrivals s) \<Longrightarrow>
    given_to (arState (rvArrivals s ! c)) = Some e \<Longrightarrow> given_to (arState (rvArrivals s ! d)) = Some e \<Longrightarrow> c = d"
  unfolding given_once_def by (metis option.distinct(1))

lemma expect_facts:
  assumes "expect requestID targetNode service b = (e, b')"
  shows "e = length (bkExpectations b)" "bkDone b' = bkDone b"
    "bkWaiting b' = mput requestID e (bkWaiting b)"
    "bkExpectations b' = bkExpectations b @ [\<lparr>exTarget = targetNode, exService = service\<rparr>]"
  using assms by (auto simp: expect_def Let_def)

lemma forget_facts:
  "bkDone (forget requestID e b) = bkDone b" "bkExpectations (forget requestID e b) = bkExpectations b"
  "mget (bkWaiting (forget requestID e b)) k
     = (if k = requestID \<and> mget (bkWaiting b) requestID = Some e then None else mget (bkWaiting b) k)"
  by (auto simp: forget_def)

lemma take_facts:
  assumes "takeExpectation requestID source service b = (found, b')"
  shows "bkDone b' = bkDone b" "bkExpectations b' = bkExpectations b"
    "found = None \<Longrightarrow> b' = b"
    "found = Some e \<Longrightarrow> mget (bkWaiting b) requestID = Some e \<and> bkWaiting b' = mdel requestID (bkWaiting b)
       \<and> exTarget (bkExpectations b ! e) = source \<and> exService (bkExpectations b ! e) = service"
  using assms by (auto simp: takeExpectation_def split: option.splits if_splits)

text \<open>A waiter that moves on keeps its request, and is not waiting again.\<close>

lemma in_set_update: "a \<in> set (xs[i := v]) \<Longrightarrow> a = v \<or> a \<in> set xs"
  using set_update_subset_insert [of xs i v] by blast

lemma reverse_inv_phase:
  assumes "reverse_inv s" and "e < length (rvWaiters s)" and "rvWaiters s ! e = (requestID, old)"
    and "bkExpectations b = bkExpectations (rvBroker s)"
    and "\<And>k e'. mget (bkWaiting b) k = Some e' \<Longrightarrow> mget (bkWaiting (rvBroker s)) k = Some e'"
    and "new \<noteq> Waits" and "new = Gone \<Longrightarrow> mget (bkWaiting b) requestID \<noteq> Some e"
    and "\<And>e'. e' \<in> set (bkDone b) \<longleftrightarrow> e' \<in> set (bkDone (rvBroker s)) \<or> e' = e \<and> new \<in> {Forgets, Gone}"
    and "old \<in> {Forgets, Gone} \<Longrightarrow> new \<in> {Forgets, Gone}"
  shows "reverse_inv (s\<lparr>rvBroker := b, rvWaiters := (rvWaiters s)[e := (requestID, new)]\<rparr>)" (is "reverse_inv ?t")
proof -
  have fst: "fst (rvWaiters ?t ! i) = fst (rvWaiters s ! i)" if "i < length (rvWaiters s)" for i
    using assms(2,3) that by (cases "i = e") simp_all
  have "waiting_ok ?t"
    unfolding waiting_ok_def
  proof (intro allI impI)
    fix k e' assume "mget (bkWaiting (rvBroker ?t)) k = Some e'"
    then have b: "mget (bkWaiting b) k = Some e'" by simp
    have "waiting_ok s" using assms(1) by (simp add: reverse_inv_def)
    with assms(5) [OF b] have old: "e' < length (rvWaiters s)" "fst (rvWaiters s ! e') = k" "snd (rvWaiters s ! e') \<noteq> Gone"
        "\<forall>a \<in> set (rvArrivals s). given_to (arState a) \<noteq> Some e'"
      unfolding waiting_ok_def by blast+
    have "snd (rvWaiters ?t ! e') \<noteq> Gone"
    proof (cases "e' = e")
      case True
      with old(2) assms(3) have "k = requestID" by simp
      with b True assms(7) have "new \<noteq> Gone" by auto
      with True assms(2) show ?thesis by simp
    next
      case False
      with old(3) show ?thesis by simp
    qed
    with old fst show "e' < length (rvWaiters ?t) \<and> fst (rvWaiters ?t ! e') = k \<and> snd (rvWaiters ?t ! e') \<noteq> Gone
        \<and> (\<forall>a \<in> set (rvArrivals ?t). given_to (arState a) \<noteq> Some e')" by simp
  qed
  moreover have "arrival_ok ?t a" if "a \<in> set (rvArrivals s)" for a
  proof -
    from that assms(1) have "arrival_ok s a" by (simp add: reverse_inv_def)
    then show ?thesis using assms(2,4,6) fst by (auto simp: arrival_ok_def nth_list_update)
  qed
  moreover have "done_ok ?t"
  proof -
    from assms(1) have d: "e' \<in> set (bkDone (rvBroker s)) \<longleftrightarrow>
        e' < length (rvWaiters s) \<and> snd (rvWaiters s ! e') \<in> {Forgets, Gone}" for e'
      by (simp add: reverse_inv_def done_ok_def)
    show ?thesis
      unfolding done_ok_def
    proof
      fix e'
      show "e' \<in> set (bkDone (rvBroker ?t)) \<longleftrightarrow> e' < length (rvWaiters ?t) \<and> snd (rvWaiters ?t ! e') \<in> {Forgets, Gone}"
        using d [of e'] assms(2,3,8,9) by (cases "e' = e") auto
    qed
  qed
  moreover have "given_once ?t = given_once s" by (simp add: given_once_def)
  ultimately show ?thesis using assms(1,4) by (simp add: reverse_inv_def)
qed

text \<open>An arrival that leaves the state \<open>Offered\<close> keeps what it was given.\<close>

lemma reverse_inv_settle:
  assumes "reverse_inv s" and "c < length (rvArrivals s)" and "arState (rvArrivals s ! c) = Offered e"
    and "given_to new = Some e" and "new = Bridged e \<Longrightarrow> snd (rvWaiters s ! e) \<noteq> Waits"
  shows "reverse_inv (s\<lparr>rvArrivals := (rvArrivals s)[c := (rvArrivals s ! c)\<lparr>arState := new\<rparr>]\<rparr>)" (is "reverse_inv ?t")
proof -
  have old: "rvArrivals s ! c \<in> set (rvArrivals s)" using assms(2) by simp
  have g: "given_to (arState (rvArrivals ?t ! d)) = given_to (arState (rvArrivals s ! d))" if "d < length (rvArrivals s)" for d
    using assms(2-4) that by (cases "d = c") simp_all
  have from_old: "\<exists>a' \<in> set (rvArrivals s). given_to (arState a) = given_to (arState a')" if "a \<in> set (rvArrivals ?t)" for a
  proof -
    from that have "a \<in> set ((rvArrivals s)[c := (rvArrivals s ! c)\<lparr>arState := new\<rparr>])" by simp
    from in_set_update [OF this] show ?thesis
    proof
      assume "a = (rvArrivals s ! c)\<lparr>arState := new\<rparr>"
      with assms(3,4) old show ?thesis by (intro bexI [of _ "rvArrivals s ! c"]) simp_all
    qed blast
  qed
  have "waiting_ok ?t"
    using assms(1) from_old by (fastforce simp: reverse_inv_def waiting_ok_def)
  moreover have "arrival_ok ?t a" if "a \<in> set (rvArrivals ?t)" for a
  proof -
    have "arrival_ok s (rvArrivals s ! c)" using assms(1) old by (simp add: reverse_inv_def)
    then have "arrival_ok ?t ((rvArrivals s ! c)\<lparr>arState := new\<rparr>)"
      using assms(3-5) by (auto simp: arrival_ok_def)
    moreover have "a' \<in> set (rvArrivals s) \<Longrightarrow> arrival_ok ?t a'" for a'
      using assms(1) by (auto simp: reverse_inv_def arrival_ok_def)
    ultimately show ?thesis using in_set_update [of a "rvArrivals s" c] that by auto
  qed
  moreover have "given_once ?t = given_once s"
    unfolding given_once_def using g by simp
  ultimately show ?thesis using assms(1) by (simp add: reverse_inv_def done_ok_def)
qed

lemma reverse_inv_expect:
  assumes "reverse_inv s" and "expect requestID targetNode service (rvBroker s) = (e, b)"
  shows "reverse_inv (s\<lparr>rvBroker := b, rvWaiters := rvWaiters s @ [(requestID, Waits)]\<rparr>)" (is "reverse_inv ?t")
proof -
  note f = expect_facts [OF assms(2)]
  have len: "length (rvWaiters s) = length (bkExpectations (rvBroker s))" and w: "waiting_ok s" and d: "done_ok s"
    and a: "\<And>a. a \<in> set (rvArrivals s) \<Longrightarrow> arrival_ok s a"
    using assms(1) by (simp_all add: reverse_inv_def)
  have fresh: "given_to (arState a) \<noteq> Some e" if "a \<in> set (rvArrivals s)" for a
    using a [OF that] f(1) len unfolding arrival_ok_def by (metis less_irrefl)
  have "waiting_ok ?t"
    unfolding waiting_ok_def
  proof (intro allI impI)
    fix k e' assume "mget (bkWaiting (rvBroker ?t)) k = Some e'"
    then have "k = requestID \<and> e' = e \<or> mget (bkWaiting (rvBroker s)) k = Some e'"
      using f(3) by (auto split: if_splits)
    then show "e' < length (rvWaiters ?t) \<and> fst (rvWaiters ?t ! e') = k \<and> snd (rvWaiters ?t ! e') \<noteq> Gone
        \<and> (\<forall>a \<in> set (rvArrivals ?t). given_to (arState a) \<noteq> Some e')"
    proof
      assume "k = requestID \<and> e' = e"
      then show ?thesis using f(1) len fresh by (simp add: nth_append)
    next
      assume "mget (bkWaiting (rvBroker s)) k = Some e'"
      with w have "e' < length (rvWaiters s) \<and> fst (rvWaiters s ! e') = k \<and> snd (rvWaiters s ! e') \<noteq> Gone
          \<and> (\<forall>a \<in> set (rvArrivals s). given_to (arState a) \<noteq> Some e')" unfolding waiting_ok_def by blast
      then show ?thesis by (simp add: nth_append)
    qed
  qed
  moreover have "arrival_ok ?t x" if "x \<in> set (rvArrivals s)" for x
    using a [OF that] len f(4) by (auto simp: arrival_ok_def nth_append)
  moreover have "done_ok ?t"
    unfolding done_ok_def
  proof
    fix e'
    have "e' \<in> set (bkDone (rvBroker s)) \<longleftrightarrow> e' < length (rvWaiters s) \<and> snd (rvWaiters s ! e') \<in> {Forgets, Gone}"
      using d by (simp add: done_ok_def)
    then show "e' \<in> set (bkDone (rvBroker ?t)) \<longleftrightarrow> e' < length (rvWaiters ?t) \<and> snd (rvWaiters ?t ! e') \<in> {Forgets, Gone}"
      using f(2) by (cases "e' = length (rvWaiters s)") (auto simp: nth_append)
  qed
  moreover have "given_once ?t = given_once s" by (simp add: given_once_def)
  ultimately show ?thesis using assms(1) len f(4) by (simp add: reverse_inv_def)
qed

lemma reverse_inv_take:
  assumes "reverse_inv s" and "takeExpectation requestID source service (rvBroker s) = (found, b)"
  shows "reverse_inv (s\<lparr>rvBroker := b, rvArrivals := rvArrivals s @
      [\<lparr>arRequest = requestID, arSource = source, arService = service,
        arState = (case found of None \<Rightarrow> RefusedConn | Some e \<Rightarrow> Offered e)\<rparr>]\<rparr>)" (is "reverse_inv ?t")
proof -
  note f = take_facts [OF assms(2)]
  let ?new = "\<lparr>arRequest = requestID, arSource = source, arService = service,
        arState = (case found of None \<Rightarrow> RefusedConn | Some e \<Rightarrow> Offered e)\<rparr>"
  have w: "waiting_ok s" and d: "done_ok s" and g: "given_once s" and len: "length (rvWaiters s) = length (bkExpectations (rvBroker s))"
    and a: "\<And>a. a \<in> set (rvArrivals s) \<Longrightarrow> arrival_ok s a"
    using assms(1) by (simp_all add: reverse_inv_def)
  have given: "given_to (arState ?new) = found" by (cases found) simp_all
  have kept: "mget (bkWaiting b) k = Some e \<Longrightarrow> mget (bkWaiting (rvBroker s)) k = Some e" for k e
    using f(3,4) by (cases found) (auto split: if_splits)
  have taken: "\<forall>a \<in> set (rvArrivals s). given_to (arState a) \<noteq> Some e"
      "e < length (rvWaiters s)" "fst (rvWaiters s ! e) = requestID" if "found = Some e" for e
    using w f(4) [OF that] unfolding waiting_ok_def by blast+
  have old: "given_to (arState (rvArrivals s ! i)) \<noteq> Some e" if "found = Some e" "i < length (rvArrivals s)" for i e
    using taken(1) [OF that(1)] nth_mem [OF that(2)] by blast
  have other: "mget (bkWaiting b) k = Some e \<Longrightarrow> found \<noteq> Some e" for k e
  proof
    assume k: "mget (bkWaiting b) k = Some e" and e: "found = Some e"
    then have "fst (rvWaiters s ! e) = k" using kept [OF k] w unfolding waiting_ok_def by blast
    with taken(3) [OF e] f(4) [OF e] k show False by simp
  qed
  have "waiting_ok ?t"
    unfolding waiting_ok_def
  proof (intro allI impI)
    fix k e' assume "mget (bkWaiting (rvBroker ?t)) k = Some e'"
    then have k: "mget (bkWaiting b) k = Some e'" by simp
    with kept have "mget (bkWaiting (rvBroker s)) k = Some e'" by blast
    with w have "e' < length (rvWaiters s) \<and> fst (rvWaiters s ! e') = k \<and> snd (rvWaiters s ! e') \<noteq> Gone
        \<and> (\<forall>a \<in> set (rvArrivals s). given_to (arState a) \<noteq> Some e')" unfolding waiting_ok_def by blast
    with other [OF k] given show "e' < length (rvWaiters ?t) \<and> fst (rvWaiters ?t ! e') = k \<and> snd (rvWaiters ?t ! e') \<noteq> Gone
        \<and> (\<forall>a \<in> set (rvArrivals ?t). given_to (arState a) \<noteq> Some e')" by simp
  qed
  moreover have "arrival_ok ?t x" if "x \<in> set (rvArrivals s)" for x
    using a [OF that] f(2) by (simp add: arrival_ok_def)
  moreover have "arrival_ok ?t ?new"
  proof (cases found)
    case (Some e)
    with taken [OF Some] f(2) f(4) [OF Some] show ?thesis by (simp add: arrival_ok_def)
  qed (simp add: arrival_ok_def)
  moreover have "done_ok ?t = done_ok s" using f(1) by (simp add: done_ok_def)
  moreover have "given_once ?t"
    unfolding given_once_def
  proof (intro allI impI)
    fix c c'
    assume c: "c < length (rvArrivals ?t)" "c' < length (rvArrivals ?t)"
      and eq: "given_to (arState (rvArrivals ?t ! c)) \<noteq> None
        \<and> given_to (arState (rvArrivals ?t ! c)) = given_to (arState (rvArrivals ?t ! c'))"
    show "c = c'"
    proof (cases "c < length (rvArrivals s) \<and> c' < length (rvArrivals s)")
      case True
      from eq True obtain e where "given_to (arState (rvArrivals s ! c)) = Some e" "given_to (arState (rvArrivals s ! c')) = Some e"
        by (cases "given_to (arState (rvArrivals s ! c))") (auto simp: nth_append)
      with True show ?thesis using given_onceD [OF g] by blast
    next
      case False
      with c have ends: "c = length (rvArrivals s) \<or> c' = length (rvArrivals s)" by (auto simp: less_Suc_eq)
      have at_end: "given_to (arState (rvArrivals ?t ! length (rvArrivals s))) = found" using given by simp
      from ends eq at_end obtain e where e: "found = Some e" by (cases found) auto
      have "i = length (rvArrivals s)" if "i < length (rvArrivals ?t)" "given_to (arState (rvArrivals ?t ! i)) = found" for i
        using that old [OF e, of i] e by (cases "i < length (rvArrivals s)") (simp_all add: nth_append)
      with c eq ends at_end show ?thesis by metis
    qed
  qed
  ultimately show ?thesis using assms(1) len f(2) by (simp add: reverse_inv_def)
qed

lemma reverse_inv_step:
  assumes "reverse_step s t" and "reverse_inv s"
  shows "reverse_inv t"
  using assms
proof (induction rule: reverse_step.induct)
  case (expects requestID targetNode service s e b)
  from reverse_inv_expect [OF expects(2,1)] show ?case .
next
  case (fails e s requestID)
  from reverse_inv_phase [OF fails(3,1,2), of "rvBroker s" Leaves] show ?case by simp
next
  case (takes requestID source service s found b)
  from reverse_inv_take [OF takes(2,1)] show ?case .
next
  case (hands_over c s e requestID)
  let ?u = "s\<lparr>rvWaiters := (rvWaiters s)[e := (requestID, Leaves)]\<rparr>"
  have u: "reverse_inv ?u" using reverse_inv_phase [OF hands_over(5,3,4), of "rvBroker s" Leaves] by simp
  have "snd (rvWaiters ?u ! e) \<noteq> Waits" using hands_over(3) by simp
  from reverse_inv_settle [OF u, of c e "Bridged e"] hands_over(1,2) this show ?case by simp
next
  case (gives_up c s e)
  from reverse_inv_settle [OF gives_up(4,1,2), of "Abandoned e"] show ?case by simp
next
  case (closes e s requestID)
  from reverse_inv_phase [OF closes(3,1,2), of "closeDone e (rvBroker s)" Forgets] show ?case by (simp add: closeDone_def disj_commute)
next
  case (forgets e s requestID)
  have "e \<in> set (bkDone (rvBroker s))" using forgets by (simp add: reverse_inv_def done_ok_def)
  moreover have "mget (bkWaiting (forget requestID e (rvBroker s))) requestID \<noteq> Some e"
    by (simp add: forget_facts)
  moreover have "mget (bkWaiting (forget requestID e (rvBroker s))) k = Some e' \<Longrightarrow> mget (bkWaiting (rvBroker s)) k = Some e'" for k e'
    by (simp add: forget_facts split: if_splits)
  ultimately show ?case
    by (intro reverse_inv_phase [OF forgets(3,1,2)]) (simp_all add: forget_facts(1,2), blast)
qed

interpretation reverse: inductive_invariant reverse_init reverse_step reverse_inv
proof
  show "reverse_inv s" if "reverse_init s" for s
    using that by (simp add: reverse_init_def reverse_inv_def newBroker_def waiting_ok_def given_once_def done_ok_def)
  show "reverse_inv t" if "reverse_inv s" "reverse_step s t" for s t
    using reverse_inv_step [OF that(2,1)] .
qed

section \<open>What the broker promises\<close>

text \<open>C24: In every interleaving a connection is bridged only to the waiter that asked for exactly this
  request, target and service, a waiter gets at most one connection, and an entry of the table never
  outlives its waiter.\<close>

theorem handover_is_exclusive:
  assumes "reach reverse_init reverse_step s" and "c < length (rvArrivals s)" and "arState (rvArrivals s ! c) = Bridged e"
  shows "fst (rvWaiters s ! e) = arRequest (rvArrivals s ! c)
    \<and> exTarget (bkExpectations (rvBroker s) ! e) = arSource (rvArrivals s ! c)
    \<and> exService (bkExpectations (rvBroker s) ! e) = arService (rvArrivals s ! c)
    \<and> (\<forall>d < length (rvArrivals s). arState (rvArrivals s ! d) = Bridged e \<longrightarrow> d = c)
    \<and> (\<forall>requestID f. mget (bkWaiting (rvBroker s)) requestID = Some f \<longrightarrow> f \<noteq> e \<longrightarrow> snd (rvWaiters s ! f) \<noteq> Gone)"
proof -
  have inv: "reverse_inv s" using assms(1) by (rule reverse.reach_inv)
  have "arrival_ok s (rvArrivals s ! c)" using inv assms(2) by (simp add: reverse_inv_def)
  moreover have "d = c" if "d < length (rvArrivals s)" "arState (rvArrivals s ! d) = Bridged e" for d
    using given_onceD [of s d c e] inv that assms(2,3) by (simp add: reverse_inv_def)
  moreover have "waiting_ok s" using inv by (simp add: reverse_inv_def)
  ultimately show ?thesis using assms(3) by (auto simp: arrival_ok_def waiting_ok_def)
qed

text \<open>A connection that is offered: its waiter is still there, about to stop, or has stopped.\<close>

lemma offered_moves:
  assumes "reverse_inv s" and "c < length (rvArrivals s)" and "arState (rvArrivals s ! c) = Offered e"
  obtains (waits) t where "reverse_step s t" "arState (rvArrivals t ! c) = Bridged e"
  | (gone) t where "reverse_step s t" "arState (rvArrivals t ! c) = Abandoned e"
  | (leaves) t u where "reverse_step s t" "reverse_step t u" "arState (rvArrivals u ! c) = Abandoned e"
proof -
  have "arrival_ok s (rvArrivals s ! c)" using assms(1,2) by (simp add: reverse_inv_def)
  with assms(3) have e: "e < length (rvWaiters s)" by (simp add: arrival_ok_def)
  obtain requestID p where p: "rvWaiters s ! e = (requestID, p)" by (cases "rvWaiters s ! e")
  have d: "e \<in> set (bkDone (rvBroker s)) \<longleftrightarrow> p \<in> {Forgets, Gone}"
    using assms(1) e p by (simp add: reverse_inv_def done_ok_def)
  have abandon: "\<exists>t. reverse_step x t \<and> arState (rvArrivals t ! c) = Abandoned e"
    if "rvArrivals x = rvArrivals s" "e \<in> set (bkDone (rvBroker x))" for x
  proof -
    have "reverse_step x (x\<lparr>rvArrivals := (rvArrivals x)[c := (rvArrivals x ! c)\<lparr>arState := Abandoned e\<rparr>]\<rparr>)"
      by (rule gives_up) (use that assms(2,3) in simp_all)
    moreover have "arState (rvArrivals (x\<lparr>rvArrivals := (rvArrivals x)[c := (rvArrivals x ! c)\<lparr>arState := Abandoned e\<rparr>]\<rparr>) ! c) = Abandoned e"
      using that(1) assms(2) by simp
    ultimately show ?thesis by blast
  qed
  show thesis
  proof (cases p)
    case Waits
    show ?thesis
      by (rule waits [OF hands_over [OF assms(2,3) e p [unfolded Waits]]]) (simp add: assms(2))
  next
    case Leaves
    let ?t = "s\<lparr>rvBroker := closeDone e (rvBroker s), rvWaiters := (rvWaiters s)[e := (requestID, Forgets)]\<rparr>"
    have "\<exists>u. reverse_step ?t u \<and> arState (rvArrivals u ! c) = Abandoned e"
      by (rule abandon) (simp_all add: closeDone_def)
    with closes [OF e p [unfolded Leaves]] leaves show ?thesis by blast
  next
    case Forgets
    with d abandon [of s] gone show ?thesis by blast
  next
    case Gone
    with d abandon [of s] gone show ?thesis by blast
  qed
qed

text \<open>No handler is ever stuck with its connection: whatever has happened, the connection it offers
  is bridged or abandoned within the next two steps of it and its waiter.\<close>

theorem handover_completes:
  assumes "reach reverse_init reverse_step s" and "c < length (rvArrivals s)" and "arState (rvArrivals s ! c) = Offered e"
  shows "\<exists>t u. (t = s \<or> reverse_step s t) \<and> reverse_step t u \<and> arState (rvArrivals u ! c) \<in> {Bridged e, Abandoned e}"
  using offered_moves [OF reverse.reach_inv [OF assms(1)] assms(2,3)]
  by cases blast+

section \<open>A sample run\<close>

text \<open>A waiter expects the service, the publisher dials back, and the two meet.\<close>

definition sampleBroker :: broker where
  "sampleBroker = snd (expect ''r1'' ''pub'' ''web'' newBroker)"

definition reverseStart :: reverseState where
  "reverseStart = \<lparr>rvBroker = newBroker, rvWaiters = [], rvArrivals = []\<rparr>"

definition reverseWaiting :: reverseState where
  "reverseWaiting = \<lparr>rvBroker = sampleBroker, rvWaiters = [(''r1'', Waits)], rvArrivals = []\<rparr>"

definition reverseOffered :: reverseState where
  "reverseOffered = \<lparr>rvBroker = sampleBroker\<lparr>bkWaiting := []\<rparr>, rvWaiters = [(''r1'', Waits)],
     rvArrivals = [\<lparr>arRequest = ''r1'', arSource = ''pub'', arService = ''web'', arState = Offered 0\<rparr>]\<rparr>"

definition reverseBridged :: reverseState where
  "reverseBridged = reverseOffered\<lparr>rvWaiters := [(''r1'', Leaves)],
     rvArrivals := [\<lparr>arRequest = ''r1'', arSource = ''pub'', arService = ''web'', arState = Bridged 0\<rparr>]\<rparr>"

lemma sample_reverse:
  "reach reverse_init reverse_step reverseOffered" "reach reverse_init reverse_step reverseBridged"
proof -
  have 1: "reach reverse_init reverse_step reverseStart"
    by (rule reach_init) (simp add: reverse_init_def reverseStart_def)
  have "reverse_step reverseStart reverseWaiting"
    using expects [of "''r1''" "''pub''" "''web''" reverseStart 0 sampleBroker]
    by (simp add: reverseStart_def reverseWaiting_def sampleBroker_def expect_def newBroker_def)
  with 1 have 2: "reach reverse_init reverse_step reverseWaiting" by (rule reach_step)
  have "takeExpectation ''r1'' ''pub'' ''web'' sampleBroker = (Some 0, sampleBroker\<lparr>bkWaiting := []\<rparr>)"
    by (simp add: sampleBroker_def expect_def newBroker_def takeExpectation_def go_simps)
  with takes [of "''r1''" "''pub''" "''web''" reverseWaiting "Some 0"]
  have "reverse_step reverseWaiting reverseOffered" by (simp add: reverseWaiting_def reverseOffered_def)
  with 2 show 3: "reach reverse_init reverse_step reverseOffered" by (rule reach_step)
  have "reverse_step reverseOffered reverseBridged"
    using hands_over [of 0 reverseOffered 0 "''r1''"] by (simp add: reverseOffered_def reverseBridged_def)
  with 3 show "reach reverse_init reverse_step reverseBridged" by (rule reach_step)
qed

theorem handover_is_exclusive_witness:
  "exTarget (bkExpectations (rvBroker reverseBridged) ! 0) = ''pub'' \<and> exService (bkExpectations (rvBroker reverseBridged) ! 0) = ''web''"
  using handover_is_exclusive [OF sample_reverse(2), of 0 0] by (simp add: reverseBridged_def)

theorem handover_completes_witness:
  "\<exists>t u. (t = reverseOffered \<or> reverse_step reverseOffered t) \<and> reverse_step t u
     \<and> arState (rvArrivals u ! 0) \<in> {Bridged 0, Abandoned 0}"
  by (rule handover_completes [OF sample_reverse(1)]) (simp_all add: reverseOffered_def)

end
