(* ===== verification/Relay_Server.thy ===== *)
theory Relay_Server
  imports Relay_Handshake Routing Reverse_Broker
begin

text \<open>
  The relay (src/internal/app/relay_server.go): who may use it, the path it opens to the target, the
  tunnel of a subnode to the coordinator, and the reverse connection it asks for when no path is left.
\<close>

section \<open>Who may use the relay\<close>

text \<open>The first discovered node with the id of the source decides.\<close>

definition ownSubnode :: "profile \<Rightarrow> discoveredNode \<Rightarrow> bool" where
  "ownSubnode p node \<longleftrightarrow> dnSegment node = pfSegment p \<and> dnUpstreamRelay node = nfID (pfNode p)"

definition isAuthorizedSubnodeRelay :: "profile \<Rightarrow> discoveredNode list slot \<Rightarrow> gostring \<Rightarrow> bool" where
  "isAuthorizedSubnodeRelay p peers sourceNode =
     (case loadDiscovered peers of
        Inl _ \<Rightarrow> False
      | Inr nodes \<Rightarrow>
          (case find (\<lambda>node. dnID node = sourceNode) nodes of
             None \<Rightarrow> False
           | Some node \<Rightarrow> dnRole node = ''subnode'' \<and> ownSubnode p node))"

definition acceptsSourceRoute :: "profile \<Rightarrow> discoveredNode list slot \<Rightarrow> gostring \<Rightarrow> bool" where
  "acceptsSourceRoute p peers sourceNode =
     (case loadDiscovered peers of
        Inl _ \<Rightarrow> False
      | Inr nodes \<Rightarrow>
          (case find (\<lambda>node. dnID node = sourceNode) nodes of
             None \<Rightarrow> False
           | Some node \<Rightarrow> dnRole node \<noteq> ''subnode'' \<or> ownSubnode p node))"

definition acceptsCoordinatorTunnel :: "'z lib_scheme \<Rightarrow> profile \<Rightarrow> discoveredNode list slot \<Rightarrow> relayHandshake \<Rightarrow> bool" where
  "acceptsCoordinatorTunnel L p peers h =
     (if \<not> relayAdmissionTokenMatches L (rcAdmissionTokenHash (pfRelay p)) (hsRelayToken h) then False
      else case loadDiscovered peers of
             Inl _ \<Rightarrow> False
           | Inr nodes \<Rightarrow>
               (case find (\<lambda>node. dnID node = hsSourceNode h) nodes of
                  None \<Rightarrow> True
                | Some node \<Rightarrow> dnRole node = ''subnode'' \<and> ownSubnode p node))"

section \<open>Services\<close>

definition localPublishedService :: "ip list option \<Rightarrow> profile \<Rightarrow> gostring \<Rightarrow> publishedService option" where
  "localPublishedService interfaces p name =
     (case find (\<lambda>service. svName service = name) (dnServices (localDiscoveredNode interfaces p)) of
        None \<Rightarrow> None
      | Some service \<Rightarrow>
          (case find (\<lambda>m. mpKind m = ''publish'' \<and> mpName m = name) (pfMappings p) of
             None \<Rightarrow> None
           | Some m \<Rightarrow> Some (service\<lparr>svDirectCandidates :=
                 [\<lparr>dcAddress = loopbackEndpoint (mpListen m), dcExpiresAt = 0\<rparr>]\<rparr>)))"

text \<open>
  The reverse connection (\<open>dialReverseService\<close>, and after its own guard \<open>tryReverse\<close> of
  relay_pull.go): the key of the expectation, the request at the coordinator, and the wait, which ends
  with the connection or with the request being cancelled. The broker itself is Reverse_Broker.
\<close>

record reverseEnv =
  rqSupply :: gostring
  rqCreate :: "gostring \<Rightarrow> gostring \<Rightarrow> gostring \<Rightarrow> gostring \<Rightarrow> connectionRequest option"
  rqClock :: time
  rqArrives :: "gostring \<Rightarrow> duration \<Rightarrow> bool"

datatype reverseResult =
    NoCoordinatorCredential
  | NoReverseToken
  | ReverseNotRequested
  | ReverseArrived gostring
  | ReverseTimedOut gostring

definition reverseWait :: "time \<Rightarrow> connectionRequest \<Rightarrow> duration" where
  "reverseWait now request =
     (let wait = timeSub (crExpiresAt request) now in if wait \<le> 0 then connectionRequestLifetime else wait)"

definition reverseRequest :: "reverseEnv \<Rightarrow> profile \<Rightarrow> gostring \<Rightarrow> gostring \<Rightarrow> reverseResult" where
  "reverseRequest R p targetNode service =
     (case randomToken (rqSupply R) of
        None \<Rightarrow> NoReverseToken
      | Some idempotency \<Rightarrow>
          (case rqCreate R targetNode service (nfID (pfNode p)) idempotency of
             None \<Rightarrow> ReverseNotRequested
           | Some request \<Rightarrow>
               if rqArrives R idempotency (reverseWait (rqClock R) request) then ReverseArrived idempotency
               else ReverseTimedOut (crID request)))"

definition dialReverseService :: "reverseEnv \<Rightarrow> profile \<Rightarrow> discoveredNode \<Rightarrow> publishedService \<Rightarrow> reverseResult" where
  "dialReverseService R p target service =
     (if ccURL (pfCoordinator p) = '''' \<or> ccCredential (pfCoordinator p) = None then NoCoordinatorCredential
      else reverseRequest R p (dnID target) (svName service))"

definition tryReverse :: "reverseEnv \<Rightarrow> profile \<Rightarrow> discoveredNode \<Rightarrow> publishedService \<Rightarrow> reverseResult" where
  "tryReverse R current target service =
     (if canReverse current then reverseRequest R current (dnID target) (svName service) else NoCoordinatorCredential)"

section \<open>One connection\<close>

text \<open>
  What the relay keeps, and what it meets while it serves one connection: the line that was read, the
  clock, the successive reads of its peers file, its interfaces, the direct dials, the relays that
  answer, whether the coordinator is reached, whether the waiter of an expected reverse connection is
  still there, and whether the confirmation could be written.
\<close>

record relayServer =
  rlProfile :: profile
  rlKnown :: "(gostring, time) gomap"
  rlTunnels :: nat
  rlCache :: connectorCache

record relayEnv =
  reLine :: "gostring option"
  reNow :: time
  reOrder :: "gostring list \<Rightarrow> gostring list"
  rePeers :: "nat \<Rightarrow> discoveredNode list slot"
  reInterfaces :: "ip list option"
  reDial :: dialEnv
  reRelay :: "discoveredNode \<Rightarrow> bool"
  reReverse :: reverseEnv
  reCoordinator :: "gostring \<Rightarrow> bool"
  reWaiter :: bool
  reConfirms :: bool

datatype relayPath =
    ToAddress gostring
  | ThroughRelay discoveredNode
  | ThroughReverse gostring

datatype relayEnd =
    Answers gostring gostring
  | Serves relayHandshake relayPath
  | Tunnels relayHandshake
  | HandsOver relayHandshake nat
  | Closes

definition maxCoordinatorTunnels :: nat where "maxCoordinatorTunnels = 32"

definition directTo :: "directResult \<times> connectorCache \<Rightarrow> relayPath option \<times> connectorCache" where
  "directTo r = (case r of (DirectConnection address, cache) \<Rightarrow> (Some (ToAddress address), cache) | (_, cache) \<Rightarrow> (None, cache))"

definition reverseTo :: "reverseEnv \<Rightarrow> profile \<Rightarrow> discoveredNode \<Rightarrow> publishedService \<Rightarrow> relayPath option" where
  "reverseTo R p target service =
     (case dialReverseService R p target service of ReverseArrived key \<Rightarrow> Some (ThroughReverse key) | _ \<Rightarrow> None)"

text \<open>The target in the relay's own segment.\<close>

definition ownSegment :: "relayEnv \<Rightarrow> profile \<Rightarrow> discoveredNode \<Rightarrow> publishedService \<Rightarrow> connectorCache \<Rightarrow> relayPath option \<times> connectorCache" where
  "ownSegment E p target service cache =
     (case (if dnID target = nfID (pfNode p)
            then (case localPublishedService (reInterfaces E) p (svName service) of
                    None \<Rightarrow> (None, cache)
                  | Some local \<Rightarrow> directTo (dialDirectCandidates (reDial E) local cache))
            else directTo (dialDirectCandidates (reDial E) service cache)) of
        (Some way, cache') \<Rightarrow> (Some way, cache')
      | (None, cache') \<Rightarrow> (reverseTo (reReverse E) p target service, cache'))"

text \<open>The target in another segment, for a subnode of this relay.\<close>

definition relayAnswers :: "relayEnv \<Rightarrow> discoveredNode \<Rightarrow> bool" where
  "relayAnswers E node \<longleftrightarrow> dnRelay node \<noteq> None \<and> reRelay E node"

definition otherSegment ::
    "relayEnv \<Rightarrow> profile \<Rightarrow> discoveredNode \<Rightarrow> publishedService \<Rightarrow> discoveredNode list \<Rightarrow> connectorCache \<Rightarrow> relayPath option \<times> connectorCache" where
  "otherSegment E p target service relays cache =
     (case (if dnRole target = ''relay'' then (if relayAnswers E target then Some target else None)
            else find (relayAnswers E) relays) of
        Some relay \<Rightarrow> (Some (ThroughRelay relay), cache)
      | None \<Rightarrow>
          (case directTo (dialDirectCandidates (reDial E) service cache) of
             (Some way, cache') \<Rightarrow> (Some way, cache')
           | (None, cache') \<Rightarrow> (reverseTo (reReverse E) p target service, cache')))"

definition routeRequest :: "relayHandshake \<Rightarrow> mapping" where
  "routeRequest h = zeroMapping\<lparr>mpTargetNode := hsTargetNode h, mpService := hsService h\<rparr>"

definition serviceMode :: "relayEnv \<Rightarrow> relayHandshake \<Rightarrow> relayServer \<Rightarrow> relayEnd \<times> relayServer" where
  "serviceMode E h s =
     (let p = rlProfile s;
          deliver = (\<lambda>(way, cache).
            (case way of
               None \<Rightarrow> Answers ''target_unavailable'' ''no authenticated path to the target service is currently available''
             | Some chosen \<Rightarrow> if reConfirms E then Serves h chosen else Closes,
             s\<lparr>rlCache := cache\<rparr>))
      in case resolveRoute (reInterfaces E) p (rePeers E 2) (routeRequest h) of
           Inl _ \<Rightarrow> (Answers ''target_service_missing'' ''the target node or published service is unavailable'', s)
         | Inr (target, service, relays) \<Rightarrow>
             if svSegment service = pfSegment p then deliver (ownSegment E p target service (rlCache s))
             else if \<not> isAuthorizedSubnodeRelay p (rePeers E 3) (hsSourceNode h)
                  then (Answers ''cross_segment_denied'' ''this source is not authorized for cross-segment relay routing'', s)
             else deliver (otherSegment E p target service relays (rlCache s)))"

definition reverseMode :: "relayEnv \<Rightarrow> relayHandshake \<Rightarrow> broker \<Rightarrow> relayEnd \<times> broker" where
  "reverseMode E h b =
     (case takeExpectation (hsRequestID h) (hsSourceNode h) (hsService h) b of
        (found, b') \<Rightarrow>
          if hsRequestID h = '''' \<or> found = None
          then (Answers ''reverse_unexpected'' ''the reverse connection request is no longer pending'', b')
          else if reWaiter E \<and> reConfirms E then (HandsOver h (the found), b') else (Closes, b'))"

text \<open>
  A tunnel takes one of the places while it is being connected and as long as it lives; \<open>endTunnel\<close>,
  deferred right after it was taken, gives it back.
\<close>

definition endTunnel :: "relayServer \<Rightarrow> relayServer" where
  "endTunnel s = s\<lparr>rlTunnels := rlTunnels s - 1\<rparr>"

definition admitTunnel :: "'z lib_scheme \<Rightarrow> relayEnv \<Rightarrow> relayHandshake \<Rightarrow> relayServer \<Rightarrow> relayEnd + relayServer" where
  "admitTunnel L E h s =
     (let p = rlProfile s
      in if hsVersion h \<noteq> relayHandshakeVersion \<or> hsNetwork h \<noteq> pfVirtualNetwork p \<or> hsRelayNode h \<noteq> nfID (pfNode p)
            \<or> hsSourceNode h = '''' \<or> \<not> acceptsCoordinatorTunnel L p (rePeers E 0) h \<or> ccURL (pfCoordinator p) = ''''
         then Inl (Answers ''coordinator_tunnel_unauthorized''
                ''the relay admission token is missing, invalid, or not assigned to this subnode'')
         else if maxCoordinatorTunnels \<le> rlTunnels s
         then Inl (Answers ''coordinator_tunnel_busy'' ''the relay has reached its coordinator tunnel capacity; retry shortly'')
         else Inr (s\<lparr>rlTunnels := Suc (rlTunnels s)\<rparr>))"

definition connectTunnel :: "'z nodelib_scheme \<Rightarrow> relayEnv \<Rightarrow> relayHandshake \<Rightarrow> relayServer \<Rightarrow> relayEnd \<times> relayServer" where
  "connectTunnel L E h s =
     (case urlParse L (ccURL (pfCoordinator (rlProfile s))) of
        None \<Rightarrow> (Answers ''coordinator_tunnel_unavailable'' ''the relay has no valid upstream coordinator configuration'', endTunnel s)
      | Some u \<Rightarrow>
          if urHost u = ''''
          then (Answers ''coordinator_tunnel_unavailable'' ''the relay has no valid upstream coordinator configuration'', endTunnel s)
          else if \<not> reCoordinator E (urHost u)
          then (Answers ''coordinator_unavailable'' ''the relay cannot reach its configured coordinator'', endTunnel s)
          else if reConfirms E then (Tunnels h, s) else (Closes, endTunnel s))"

definition handleCoordinatorTunnel :: "'z nodelib_scheme \<Rightarrow> relayEnv \<Rightarrow> relayHandshake \<Rightarrow> relayServer \<Rightarrow> relayEnd \<times> relayServer" where
  "handleCoordinatorTunnel L E h s =
     (case admitTunnel L E h s of Inl answer \<Rightarrow> (answer, s) | Inr s' \<Rightarrow> connectTunnel L E h s')"

definition handleRelay :: "'z relaylib_scheme \<Rightarrow> relayEnv \<Rightarrow> relayServer \<Rightarrow> broker \<Rightarrow> relayEnd \<times> relayServer \<times> broker" where
  "handleRelay L E s b =
     (case reLine E of
        None \<Rightarrow> (Answers ''handshake_invalid'' ''the relay handshake is invalid or incomplete'', s, b)
      | Some line \<Rightarrow>
          if relayHandshakeLimit < length line
          then (Answers ''handshake_invalid'' ''the relay handshake is invalid or incomplete'', s, b)
          else case parseHandshake L line of
            None \<Rightarrow> (Answers ''handshake_invalid'' ''the relay handshake is invalid JSON'', s, b)
          | Some h \<Rightarrow>
              if hsMode h = ''coordinator'' then (case handleCoordinatorTunnel L E h s of (result, s') \<Rightarrow> (result, s', b))
              else case verifyHandshake L (rlProfile s) (rePeers E 0) (reOrder E) (reNow E) h (rlKnown s) of
                (False, known) \<Rightarrow>
                  (Answers ''source_unauthorized'' ''the source node signature is invalid, expired, or unknown'', s\<lparr>rlKnown := known\<rparr>, b)
              | (True, known) \<Rightarrow>
                  let s1 = s\<lparr>rlKnown := known\<rparr>
                  in if \<not> acceptsSourceRoute (rlProfile s) (rePeers E 1) (hsSourceNode h)
                     then (Answers ''source_route_denied'' ''the subnode is assigned to another upstream relay'', s1, b)
                     else if hsMode h = ''reverse'' then (case reverseMode E h b of (result, b') \<Rightarrow> (result, s1, b'))
                     else if hsMode h \<noteq> ''service''
                     then (Answers ''mode_unsupported'' ''the relay handshake mode is unsupported'', s1, b)
                     else (case serviceMode E h s1 of (result, s') \<Rightarrow> (result, s', b)))"

section \<open>Only who is known is served\<close>

text \<open>A source the relay knows, whose key signed this very handshake, and whose route leads here.\<close>

definition authenticSource :: "'z lib_scheme \<Rightarrow> relayEnv \<Rightarrow> relayHandshake \<Rightarrow> relayServer \<Rightarrow> bool" where
  "authenticSource L E h s \<longleftrightarrow> handshakeShape (rlProfile s) h
     \<and> reNow E - 2 * nminute \<le> unixTime (hsTimestamp h) \<and> unixTime (hsTimestamp h) \<le> reNow E + 2 * nminute
     \<and> (\<exists>nodes node publicKey signature. loadDiscovered (rePeers E 0) = Inr nodes \<and> node \<in> set nodes
          \<and> dnID node = hsSourceNode h \<and> b64Decode (dnIdentityKey node) = Some publicKey
          \<and> b64Decode (hsSignature h) = Some signature
          \<and> ed25519Verify L publicKey (relayHandshakeMessage h) signature)
     \<and> acceptsSourceRoute (rlProfile s) (rePeers E 1) (hsSourceNode h)"

lemma verified_authentic:
  assumes "verifyHandshake L (rlProfile s) (rePeers E 0) (reOrder E) (reNow E) h (rlKnown s) = (True, known)"
    and "acceptsSourceRoute (rlProfile s) (rePeers E 1) (hsSourceNode h)"
  shows "authenticSource L E h s"
  using assms(1)
proof (rule verifyHandshake_accepts)
  fix nodes publicKey signature
  assume v: "handshakeShape (rlProfile s) h" "reNow E - 2 * nminute \<le> unixTime (hsTimestamp h)"
    "unixTime (hsTimestamp h) \<le> reNow E + 2 * nminute" "loadDiscovered (rePeers E 0) = Inr nodes"
    "b64Decode (sourceKey nodes (hsSourceNode h)) = Some publicKey" "length publicKey = 32"
    "b64Decode (hsSignature h) = Some signature" "ed25519Verify L publicKey (relayHandshakeMessage h) signature"
  obtain node where "node \<in> set nodes" "dnID node = hsSourceNode h" "dnIdentityKey node = sourceKey nodes (hsSourceNode h)"
    by (rule sourceKey_node [OF v(5,6)])
  then have "node \<in> set nodes \<and> dnID node = hsSourceNode h \<and> b64Decode (dnIdentityKey node) = Some publicKey"
    using v(5) by simp
  with v(4,7,8) have "\<exists>nodes node publicKey signature. loadDiscovered (rePeers E 0) = Inr nodes \<and> node \<in> set nodes
          \<and> dnID node = hsSourceNode h \<and> b64Decode (dnIdentityKey node) = Some publicKey
          \<and> b64Decode (hsSignature h) = Some signature \<and> ed25519Verify L publicKey (relayHandshakeMessage h) signature"
    by blast
  with v(1-3) assms(2) show ?thesis by (simp add: authenticSource_def)
qed

text \<open>The course of a connection: an answer before anything else, a tunnel, or a verified handshake.\<close>

lemma handleRelay_cases:
  assumes "handleRelay L E s b = (result, s', b')"
  obtains (refused) code message where "result = Answers code message"
  | (tunnel) h line where "reLine E = Some line" "parseHandshake L line = Some h" "hsMode h = ''coordinator''"
      "handleCoordinatorTunnel L E h s = (result, s')" "b' = b"
  | (reversed) h line known where "reLine E = Some line" "parseHandshake L line = Some h" "hsMode h = ''reverse''"
      "verifyHandshake L (rlProfile s) (rePeers E 0) (reOrder E) (reNow E) h (rlKnown s) = (True, known)"
      "acceptsSourceRoute (rlProfile s) (rePeers E 1) (hsSourceNode h)"
      "reverseMode E h b = (result, b')" "s' = s\<lparr>rlKnown := known\<rparr>"
  | (service) h line known where "reLine E = Some line" "parseHandshake L line = Some h" "hsMode h = ''service''"
      "verifyHandshake L (rlProfile s) (rePeers E 0) (reOrder E) (reNow E) h (rlKnown s) = (True, known)"
      "acceptsSourceRoute (rlProfile s) (rePeers E 1) (hsSourceNode h)"
      "serviceMode E h (s\<lparr>rlKnown := known\<rparr>) = (result, s')" "b' = b"
proof (cases "reLine E")
  case None
  with assms refused show ?thesis by (auto simp: handleRelay_def)
next
  case line: (Some line)
  show ?thesis
  proof (cases "parseHandshake L line")
    case None
    with assms line refused show ?thesis by (auto simp: handleRelay_def split: if_splits)
  next
    case h: (Some h)
    obtain ok known where v: "verifyHandshake L (rlProfile s) (rePeers E 0) (reOrder E) (reNow E) h (rlKnown s) = (ok, known)"
      by fastforce
    show ?thesis
    proof (cases "relayHandshakeLimit < length line")
      case True
      with assms line refused show ?thesis by (auto simp: handleRelay_def)
    next
      case short: False
      note start = assms [unfolded handleRelay_def line h option.case if_not_P [OF short] v]
      consider (t) "hsMode h = ''coordinator''" | (bad) "hsMode h \<noteq> ''coordinator''" "\<not> ok \<or> \<not> acceptsSourceRoute (rlProfile s) (rePeers E 1) (hsSourceNode h)"
        | (r) "hsMode h = ''reverse''" "ok" "acceptsSourceRoute (rlProfile s) (rePeers E 1) (hsSourceNode h)"
        | (s) "hsMode h = ''service''" "ok" "acceptsSourceRoute (rlProfile s) (rePeers E 1) (hsSourceNode h)"
        | (other) "hsMode h \<notin> {''coordinator'', ''reverse'', ''service''}" "ok" "acceptsSourceRoute (rlProfile s) (rePeers E 1) (hsSourceNode h)"
        by auto
      then show ?thesis
      proof cases
        case t
        with start tunnel [OF line h t] show ?thesis by (auto split: prod.splits)
      next
        case bad
        with start refused show ?thesis by (cases ok) (auto simp: Let_def)
      next
        case r
        with start v reversed [OF line h r(1)] show ?thesis by (auto simp: Let_def split: prod.splits)
      next
        case s
        with start v service [OF line h s(1)] show ?thesis by (auto simp: Let_def split: prod.splits)
      next
        case other
        with start refused show ?thesis by (auto simp: Let_def)
      qed
    qed
  qed
qed

lemma no_other_ends:
  "fst (handleCoordinatorTunnel L E h s) \<notin> {Serves g way, HandsOver g e}"
  "fst (serviceMode E h s) \<noteq> HandsOver g e" "fst (serviceMode E h s) \<noteq> Tunnels g"
  "fst (reverseMode E h b) \<noteq> Serves g way" "fst (reverseMode E h b) \<noteq> Tunnels g"
  by (auto simp: handleCoordinatorTunnel_def admitTunnel_def connectTunnel_def serviceMode_def reverseMode_def Let_def
      split: sum.split option.split prod.split if_splits)

lemma ownSegment_way: "fst (ownSegment E p target service cache) \<noteq> Some (ThroughRelay r)"
  by (auto simp: ownSegment_def directTo_def reverseTo_def split: prod.splits option.splits directResult.splits reverseResult.splits if_splits)

lemma otherSegment_way:
  assumes "fst (otherSegment E p target service relays cache) = Some (ThroughRelay r)"
  shows "relayAnswers E r \<and> (r = target \<or> r \<in> set relays)"
  using assms
  by (auto simp: otherSegment_def directTo_def reverseTo_def find_Some_iff
      split: prod.splits option.splits directResult.splits reverseResult.splits if_splits)

lemma serviceMode_serves:
  assumes "serviceMode E h s = (Serves g way, s')"
  obtains target service relays where "g = h"
    and "resolveRoute (reInterfaces E) (rlProfile s) (rePeers E 2) (routeRequest h) = Inr (target, service, relays)"
    and "svSegment service = pfSegment (rlProfile s) \<or> isAuthorizedSubnodeRelay (rlProfile s) (rePeers E 3) (hsSourceNode h)"
    and "\<forall>r. way = ThroughRelay r \<longrightarrow> svSegment service \<noteq> pfSegment (rlProfile s) \<and> (r = target \<or> r \<in> set relays)"
proof -
  from assms obtain target service relays
    where r: "resolveRoute (reInterfaces E) (rlProfile s) (rePeers E 2) (routeRequest h) = Inr (target, service, relays)"
    by (auto simp: serviceMode_def Let_def split: sum.splits)
  note step = assms [unfolded serviceMode_def Let_def r sum.case prod.case]
  show thesis
  proof (cases "svSegment service = pfSegment (rlProfile s)")
    case True
    with step obtain cache where "g = h" "ownSegment E (rlProfile s) target service (rlCache s) = (Some way, cache)"
      by (auto split: prod.splits option.splits if_splits)
    moreover from this ownSegment_way [of E "rlProfile s" target service "rlCache s"] have "way \<noteq> ThroughRelay x" for x by auto
    ultimately show ?thesis using that [OF _ r] True by blast
  next
    case False
    with step have a: "isAuthorizedSubnodeRelay (rlProfile s) (rePeers E 3) (hsSourceNode h)" by (auto split: if_splits)
    with False step obtain cache where "g = h" "otherSegment E (rlProfile s) target service relays (rlCache s) = (Some way, cache)"
      by (auto split: prod.splits option.splits if_splits)
    moreover from this otherSegment_way [of E "rlProfile s" target service relays "rlCache s"]
    have "way = ThroughRelay x \<Longrightarrow> x = target \<or> x \<in> set relays" for x by auto
    ultimately show ?thesis using that [OF _ r] a False by blast
  qed
qed

lemma reverseMode_hands:
  assumes "reverseMode E h b = (HandsOver g e, b')"
  shows "g = h \<and> hsRequestID h \<noteq> '''' \<and> takeExpectation (hsRequestID h) (hsSourceNode h) (hsService h) b = (Some e, b')"
  using assms by (auto simp: reverseMode_def split: prod.splits if_splits)

text \<open>C21: The relay serves or hands over a connection only after a handshake signed by the key of a
  node it has discovered, made for this relay and network, fresh, and of a source whose route leads
  here; it leaves its own segment only for its own subnodes, over the relays of the resolved route; and
  a reverse connection goes only to the expectation of the same request, source and service.\<close>

theorem relay_serves_authentic_sources:
  assumes "handleRelay L E s b = (result, s', b')" and "result = Serves h way \<or> result = HandsOver h e"
  shows "authenticSource L E h s
    \<and> (result = Serves h way \<longrightarrow> hsMode h = ''service'' \<and> b' = b \<and> (\<exists>target service relays.
         resolveRoute (reInterfaces E) (rlProfile s) (rePeers E 2) (routeRequest h) = Inr (target, service, relays)
         \<and> (svSegment service = pfSegment (rlProfile s) \<or> isAuthorizedSubnodeRelay (rlProfile s) (rePeers E 3) (hsSourceNode h))
         \<and> (\<forall>r. way = ThroughRelay r \<longrightarrow> svSegment service \<noteq> pfSegment (rlProfile s) \<and> (r = target \<or> r \<in> set relays))))
    \<and> (result = HandsOver h e \<longrightarrow> hsMode h = ''reverse'' \<and> mget (bkWaiting b) (hsRequestID h) = Some e
         \<and> mget (bkWaiting b') (hsRequestID h) = None
         \<and> exTarget (bkExpectations b ! e) = hsSourceNode h \<and> exService (bkExpectations b ! e) = hsService h)"
  using assms(1)
proof (cases rule: handleRelay_cases)
  case (tunnel g line)
  with assms(2) no_other_ends(1) [where L = L and E = E and h = g and s = s] show ?thesis by (metis fst_conv insertCI)
next
  case (reversed g line known)
  have "result = HandsOver h e" using assms(2) reversed(6) no_other_ends(4) [of E g b h way] by auto
  with reversed(6) reverseMode_hands [of E g b h e b']
  have g: "g = h" and t: "takeExpectation (hsRequestID h) (hsSourceNode h) (hsService h) b = (Some e, b')" by auto
  from take_facts(4) [OF t] have "mget (bkWaiting b) (hsRequestID h) = Some e" "bkWaiting b' = mdel (hsRequestID h) (bkWaiting b)"
    "exTarget (bkExpectations b ! e) = hsSourceNode h" "exService (bkExpectations b ! e) = hsService h" by auto
  with verified_authentic [OF reversed(4,5)] g reversed(3) \<open>result = HandsOver h e\<close> show ?thesis by simp
next
  case (service g line known)
  have result: "result = Serves h way" using assms(2) service(6) no_other_ends(2) [of E g "s\<lparr>rlKnown := known\<rparr>" h e] by auto
  show ?thesis
    using service(6) [unfolded result]
  proof (rule serviceMode_serves)
    fix target service' relays
    assume "h = g"
      and "resolveRoute (reInterfaces E) (rlProfile (s\<lparr>rlKnown := known\<rparr>)) (rePeers E 2) (routeRequest g) = Inr (target, service', relays)"
      and "svSegment service' = pfSegment (rlProfile (s\<lparr>rlKnown := known\<rparr>))
        \<or> isAuthorizedSubnodeRelay (rlProfile (s\<lparr>rlKnown := known\<rparr>)) (rePeers E 3) (hsSourceNode g)"
      and "\<forall>r. way = ThroughRelay r \<longrightarrow> svSegment service' \<noteq> pfSegment (rlProfile (s\<lparr>rlKnown := known\<rparr>)) \<and> (r = target \<or> r \<in> set relays)"
    with verified_authentic [OF service(4,5)] service(3,7) result show ?thesis by auto
  qed
qed (use assms(2) in auto)

section \<open>The coordinator tunnel\<close>

lemma handleRelay_tunnels:
  assumes "handleRelay L E s b = (result, s', b')"
  shows "rlTunnels s' = rlTunnels s \<or> (\<exists>h. result = Tunnels h \<and> admitTunnel L E h s = Inr s')"
  using assms
proof -
  have "rlTunnels (snd (serviceMode E h s1)) = rlTunnels s1" for h s1
    by (auto simp: serviceMode_def Let_def split: sum.split prod.split)
  moreover have "rlTunnels (snd (handleCoordinatorTunnel L E h s)) = rlTunnels s
      \<or> fst (handleCoordinatorTunnel L E h s) = Tunnels h \<and> admitTunnel L E h s = Inr (snd (handleCoordinatorTunnel L E h s))" for h
    by (auto simp: handleCoordinatorTunnel_def admitTunnel_def connectTunnel_def endTunnel_def Let_def
        split: sum.split option.split)
  ultimately show ?thesis
    using assms unfolding handleRelay_def Let_def
    by (auto split: option.splits if_splits prod.splits bool.splits) (metis fst_conv snd_conv relayServer.select_convs relayServer.update_convs relayServer.surjective)+
qed

text \<open>C25: A tunnel to the coordinator is opened only to a holder of the relay's admission token that is
  not yet known (its enrollment is pending) or is the relay's own subnode, for this relay and network;
  it takes one place and touches nothing else, and whatever comes in, never more than 32 places are
  taken.\<close>

theorem tunnel_needs_admission:
  assumes "handleRelay L E s b = (result, s', b')"
  shows "(rlTunnels s \<le> 32 \<longrightarrow> rlTunnels s' \<le> 32)
    \<and> (\<forall>h. result = Tunnels h \<longrightarrow>
         relayAdmissionTokenMatches L (rcAdmissionTokenHash (pfRelay (rlProfile s))) (hsRelayToken h)
         \<and> hsNetwork h = pfVirtualNetwork (rlProfile s) \<and> hsRelayNode h = nfID (pfNode (rlProfile s))
         \<and> s' = s\<lparr>rlTunnels := Suc (rlTunnels s)\<rparr> \<and> b' = b
         \<and> (\<exists>nodes. loadDiscovered (rePeers E 0) = Inr nodes
              \<and> ((\<exists>node \<in> set nodes. dnID node = hsSourceNode h \<and> dnRole node = ''subnode'' \<and> ownSubnode (rlProfile s) node)
                 \<or> \<not> (\<exists>node \<in> set nodes. dnID node = hsSourceNode h))))"
proof
  have admitted: "rlTunnels s < 32 \<and> t = s\<lparr>rlTunnels := Suc (rlTunnels s)\<rparr>
      \<and> hsNetwork h = pfVirtualNetwork (rlProfile s) \<and> hsRelayNode h = nfID (pfNode (rlProfile s))
      \<and> acceptsCoordinatorTunnel L (rlProfile s) (rePeers E 0) h" if "admitTunnel L E h s = Inr t" for h t
    using that by (auto simp: admitTunnel_def maxCoordinatorTunnels_def Let_def split: if_splits)
  show "rlTunnels s \<le> 32 \<longrightarrow> rlTunnels s' \<le> 32"
    using handleRelay_tunnels [OF assms] admitted by fastforce
  have opened: "handleCoordinatorTunnel L E g s = (Tunnels h, t) \<Longrightarrow> g = h \<and> admitTunnel L E h s = Inr t" for g h t
    by (auto simp: handleCoordinatorTunnel_def admitTunnel_def connectTunnel_def Let_def split: sum.splits option.splits if_splits)
  have accepted: "relayAdmissionTokenMatches L (rcAdmissionTokenHash (pfRelay (rlProfile s))) (hsRelayToken h)
      \<and> (\<exists>nodes. loadDiscovered (rePeers E 0) = Inr nodes
              \<and> ((\<exists>node \<in> set nodes. dnID node = hsSourceNode h \<and> dnRole node = ''subnode'' \<and> ownSubnode (rlProfile s) node)
                 \<or> \<not> (\<exists>node \<in> set nodes. dnID node = hsSourceNode h)))"
    if "acceptsCoordinatorTunnel L (rlProfile s) (rePeers E 0) h" for h
    using that
    by (auto simp: acceptsCoordinatorTunnel_def find_None_iff find_Some_iff split: if_splits sum.splits option.splits)
  show "\<forall>h. result = Tunnels h \<longrightarrow>
         relayAdmissionTokenMatches L (rcAdmissionTokenHash (pfRelay (rlProfile s))) (hsRelayToken h)
         \<and> hsNetwork h = pfVirtualNetwork (rlProfile s) \<and> hsRelayNode h = nfID (pfNode (rlProfile s))
         \<and> s' = s\<lparr>rlTunnels := Suc (rlTunnels s)\<rparr> \<and> b' = b
         \<and> (\<exists>nodes. loadDiscovered (rePeers E 0) = Inr nodes
              \<and> ((\<exists>node \<in> set nodes. dnID node = hsSourceNode h \<and> dnRole node = ''subnode'' \<and> ownSubnode (rlProfile s) node)
                 \<or> \<not> (\<exists>node \<in> set nodes. dnID node = hsSourceNode h)))"
  proof (intro allI impI)
    fix h assume result: "result = Tunnels h"
    from assms show "relayAdmissionTokenMatches L (rcAdmissionTokenHash (pfRelay (rlProfile s))) (hsRelayToken h)
         \<and> hsNetwork h = pfVirtualNetwork (rlProfile s) \<and> hsRelayNode h = nfID (pfNode (rlProfile s))
         \<and> s' = s\<lparr>rlTunnels := Suc (rlTunnels s)\<rparr> \<and> b' = b
         \<and> (\<exists>nodes. loadDiscovered (rePeers E 0) = Inr nodes
              \<and> ((\<exists>node \<in> set nodes. dnID node = hsSourceNode h \<and> dnRole node = ''subnode'' \<and> ownSubnode (rlProfile s) node)
                 \<or> \<not> (\<exists>node \<in> set nodes. dnID node = hsSourceNode h)))"
    proof (cases rule: handleRelay_cases)
      case (tunnel g line)
      then have "admitTunnel L E h s = Inr s'" using opened [of g h s'] result by simp
      from admitted [OF this] accepted [of h] tunnel(5) show ?thesis by blast
    next
      case (reversed g line known)
      with result no_other_ends(5) [of E g b h] show ?thesis by auto
    next
      case (service g line known)
      with result no_other_ends(3) [of E g "s\<lparr>rlKnown := known\<rparr>" h] show ?thesis by auto
    qed (use result in auto)
  qed
qed

section \<open>Refusals reach the node\<close>

text \<open>Every refusal the relay writes.\<close>

definition relayRefusals :: "(gostring \<times> gostring) list" where
  "relayRefusals =
     [(''handshake_invalid'', ''the relay handshake is invalid or incomplete''),
      (''handshake_invalid'', ''the relay handshake is invalid JSON''),
      (''source_unauthorized'', ''the source node signature is invalid, expired, or unknown''),
      (''source_route_denied'', ''the subnode is assigned to another upstream relay''),
      (''reverse_unexpected'', ''the reverse connection request is no longer pending''),
      (''mode_unsupported'', ''the relay handshake mode is unsupported''),
      (''target_service_missing'', ''the target node or published service is unavailable''),
      (''cross_segment_denied'', ''this source is not authorized for cross-segment relay routing''),
      (''target_unavailable'', ''no authenticated path to the target service is currently available''),
      (''coordinator_tunnel_unauthorized'', ''the relay admission token is missing, invalid, or not assigned to this subnode''),
      (''coordinator_tunnel_busy'', ''the relay has reached its coordinator tunnel capacity; retry shortly''),
      (''coordinator_tunnel_unavailable'', ''the relay has no valid upstream coordinator configuration''),
      (''coordinator_unavailable'', ''the relay cannot reach its configured coordinator'')]"

lemma trim_line:
  assumes "plainChar c" and "s \<noteq> []" and "plainChar (last s)"
  shows "trimSpace (c # s @ [newline]) = c # s"
proof -
  have hd_none: "trimEncodings encs (d # t) = d # t"
    if "list_all (\<lambda>e. e = [] \<or> \<not> plainChar (hd e)) encs" "plainChar d" for encs d t
    using that by (intro trimEncodings_none) (auto simp: list_all_iff)
  have "find (\<lambda>e. e \<noteq> [] \<and> hasPrefix (newline # t) e) (map rev spaceEncodings) = Some [newline]" for t
    by (simp add: spaceEncodings_def hasPrefix_def newline_def)
  then have feed: "trimEncodings (map rev spaceEncodings) (newline # t) = trimEncodings (map rev spaceEncodings) t" for t
    by simp
  have "rev s = last s # rev (butlast s)" using arg_cong [OF append_butlast_last_id [OF assms(2)], of rev] by simp
  then have "trimEncodings (map rev spaceEncodings) (rev s @ [c]) = rev s @ [c]"
    by (metis hd_none [OF spaceEncodings_not_plain(2) assms(3)] append_Cons)
  then show ?thesis
    using hd_none [OF spaceEncodings_not_plain(1) assms(1)] feed by (simp add: trimSpace_def del: trimEncodings.simps(2))
qed

lemma takeWhile_to: "sep \<notin> set w \<Longrightarrow> takeWhile (\<lambda>c. c \<noteq> sep) (w @ sep # t) = w"
  by (induction w) auto

lemma relayErrorLine_read:
  assumes "CHR '' '' \<notin> set code" and "CHR ''_'' \<in> set code" and "message \<noteq> []" and "plainChar (last message)"
  shows "relayResponseError None (relayErrorLine code message) = RelayRefused code message"
proof -
  have t: "trimSpace (relayErrorLine code message) = ''ERR'' @ CHR '' '' # code @ CHR '' '' # message"
    using trim_line [of "CHR ''E''" "''RR '' @ code @ '' '' @ message"] assms(3,4)
    by (simp add: relayErrorLine_def plainChar_def)
  have "splitByteN CHR '' '' 3 (''ERR'' @ CHR '' '' # code @ CHR '' '' # message) = [''ERR'', code, message]"
    using takeWhile_to [of "CHR '' ''" "''ERR''" "code @ CHR '' '' # message"] takeWhile_to [OF assms(1), of message]
    by (simp add: numeral_3_eq_3 Let_def)
  then show ?thesis using assms(2) unfolding relayResponseError_def t Let_def by (simp add: localizedError_def)
qed

lemma relayRefusals_parse:
  "list_all (\<lambda>(code, message). relayResponseError None (relayErrorLine code message) = RelayRefused code message) relayRefusals"
proof -
  have "list_all (\<lambda>(code, message). CHR '' '' \<notin> set code \<and> CHR ''_'' \<in> set code \<and> message \<noteq> [] \<and> plainChar (last message)) relayRefusals"
    by (simp add: relayRefusals_def plainChar_def)
  then show ?thesis by (auto simp: list_all_iff relayErrorLine_read)
qed

lemma relayResponseError_language:
  "relayResponseError None line = RelayRefused code message \<Longrightarrow>
   relayResponseError messages line = RelayRefused code (localizedError messages code message)"
  by (auto simp: relayResponseError_def Let_def localizedError_def split: if_splits)

text \<open>The refusals of each part, by their place in the list.\<close>

definition refusal :: "nat \<Rightarrow> relayEnd" where
  "refusal i = (case relayRefusals ! i of (code, message) \<Rightarrow> Answers code message)"

lemma refusal_listed: "i < 13 \<Longrightarrow> refusal i = Answers code message \<Longrightarrow> (code, message) \<in> set relayRefusals"
proof -
  assume i: "i < 13" and r: "refusal i = Answers code message"
  have "length relayRefusals = 13" by (simp add: relayRefusals_def)
  with i have "relayRefusals ! i \<in> set relayRefusals" by simp
  moreover have "relayRefusals ! i = (code, message)" using r by (auto simp: refusal_def split: prod.splits)
  ultimately show "(code, message) \<in> set relayRefusals" by simp
qed

lemma refusals:
  "refusal 0 = Answers ''handshake_invalid'' ''the relay handshake is invalid or incomplete''"
  "refusal 1 = Answers ''handshake_invalid'' ''the relay handshake is invalid JSON''"
  "refusal 2 = Answers ''source_unauthorized'' ''the source node signature is invalid, expired, or unknown''"
  "refusal 3 = Answers ''source_route_denied'' ''the subnode is assigned to another upstream relay''"
  "refusal 4 = Answers ''reverse_unexpected'' ''the reverse connection request is no longer pending''"
  "refusal 5 = Answers ''mode_unsupported'' ''the relay handshake mode is unsupported''"
  "refusal 6 = Answers ''target_service_missing'' ''the target node or published service is unavailable''"
  "refusal 7 = Answers ''cross_segment_denied'' ''this source is not authorized for cross-segment relay routing''"
  "refusal 8 = Answers ''target_unavailable'' ''no authenticated path to the target service is currently available''"
  "refusal 9 = Answers ''coordinator_tunnel_unauthorized'' ''the relay admission token is missing, invalid, or not assigned to this subnode''"
  "refusal 10 = Answers ''coordinator_tunnel_busy'' ''the relay has reached its coordinator tunnel capacity; retry shortly''"
  "refusal 11 = Answers ''coordinator_tunnel_unavailable'' ''the relay has no valid upstream coordinator configuration''"
  "refusal 12 = Answers ''coordinator_unavailable'' ''the relay cannot reach its configured coordinator''"
  by (simp_all add: refusal_def relayRefusals_def)

lemma refusal_answers: "\<exists>code message. refusal i = Answers code message"
  by (auto simp: refusal_def split: prod.split)

definition refusing :: "relayEnd \<Rightarrow> bool" where
  "refusing result \<longleftrightarrow> (\<forall>code message. result = Answers code message \<longrightarrow> (code, message) \<in> set relayRefusals)"

lemma refusing_simps [simp]:
  "i < 13 \<Longrightarrow> refusing (refusal i)" "refusing (Serves h way)" "refusing (Tunnels h)" "refusing (HandsOver h e)" "refusing Closes"
  using refusal_listed by (auto simp: refusing_def)

lemma refusing_parts:
  "refusing (fst (handleCoordinatorTunnel L E h s))" "refusing (fst (serviceMode E h s))" "refusing (fst (reverseMode E h b))"
  by (simp_all add: handleCoordinatorTunnel_def admitTunnel_def connectTunnel_def serviceMode_def reverseMode_def Let_def
      flip: refusals split: sum.split option.split prod.split)


lemma handleRelay_refusing: "refusing (fst (handleRelay L E s b))"
proof -
  have [simp]: "refusing result" if "handleCoordinatorTunnel L E h s = (result, s')" for h s result s'
    using refusing_parts(1) [of L E h s] that by simp
  have [simp]: "refusing result" if "serviceMode E h s = (result, s')" for h s result s'
    using refusing_parts(2) [of E h s] that by simp
  have [simp]: "refusing result" if "reverseMode E h b = (result, b')" for h b result b'
    using refusing_parts(3) [of E h b] that by simp
  show ?thesis
    by (simp add: handleRelay_def Let_def flip: refusals split: option.split prod.split bool.split)
qed

text \<open>C26: Every refusal of the relay reaches the node that dialed with its code and its explanation:
  read back from the line the relay wrote, it names the code, and the explanation in the language of
  the node when it has one, else the relay's own words.\<close>

theorem refusals_reach_the_node:
  assumes "handleRelay L E s b = (Answers code message, s', b')"
  shows "relayResponseError messages (relayErrorLine code message) = RelayRefused code (localizedError messages code message)
    \<and> awaitOK messages (D\<lparr>rdWrites := True, rdResponse := Some (relayErrorLine code message)\<rparr>)
      = Some (RelaySaidNo (RelayRefused code (localizedError messages code message)))"
proof -
  have "(code, message) \<in> set relayRefusals"
    using handleRelay_refusing [of L E s b] assms by (simp add: refusing_def)
  with relayRefusals_parse have "relayResponseError None (relayErrorLine code message) = RelayRefused code message"
    by (auto simp: list_all_iff)
  then have r: "relayResponseError messages (relayErrorLine code message) = RelayRefused code (localizedError messages code message)"
    by (rule relayResponseError_language)
  moreover have "relayErrorLine code message \<noteq> ''OK'' @ [newline]" by (simp add: relayErrorLine_def)
  ultimately show ?thesis by (simp add: awaitOK_def)
qed

section \<open>A sample connection\<close>

definition sampleServerLib :: relaylib where
  "sampleServerLib = sampleRelayLib\<lparr>parseHandshake := (\<lambda>line.
     if line = ''service'' then Some sampleHandshake
     else if line = ''tunnel'' then Some (tunnelHandshake ''net'' ''new'' \<lparr>scRelayNodeID = ''r1'', scRelayEndpoint = '''',
       scRelayPinnedSHA256 = '''', scRelayToken = ''token''\<rparr>)
     else None)\<rparr>"

definition sampleServer :: relayServer where
  "sampleServer = \<lparr>rlProfile = relayingNode\<lparr>pfCoordinator := zeroCoordinatorClient\<lparr>ccURL := ''https://c:443''\<rparr>,
       pfRelay := zeroRelayConfig\<lparr>rcAdmissionTokenHash := relayAdmissionTokenHash sampleServerLib ''token''\<rparr>\<rparr>,
     rlKnown = [], rlTunnels = 31, rlCache = []\<rparr>"

definition sampleReverseEnv :: reverseEnv where
  "sampleReverseEnv = \<lparr>rqSupply = '''', rqCreate = (\<lambda>t s r k. None), rqClock = 0, rqArrives = (\<lambda>k d. False)\<rparr>"

definition servedPeers :: "discoveredNode list" where
  "servedPeers = relayPeers @ [zeroNode\<lparr>dnID := ''t'', dnServices := [zeroService\<lparr>svName := ''web'',
     svDirectCandidates := [\<lparr>dcAddress = ''10.0.0.2:1'', dcExpiresAt = 0\<rparr>]\<rparr>]\<rparr>]"

definition sampleRelayEnv :: "gostring \<Rightarrow> relayEnv" where
  "sampleRelayEnv line = \<lparr>reLine = Some line, reNow = unixTime 150, reOrder = (\<lambda>ks. ks),
     rePeers = (\<lambda>i. \<lparr>slotFile = Holds servedPeers, slotTemp = NoFile\<rparr>), reInterfaces = Some [],
     reDial = \<lparr>deFree = (\<lambda>u. Some ''127.0.0.1:5''), deStart = (\<lambda>u. True), deProbe = (\<lambda>u. True), deConnect = (\<lambda>u. True), deNow = (\<lambda>u. 0)\<rparr>,
     reRelay = (\<lambda>r. False), reReverse = sampleReverseEnv, reCoordinator = (\<lambda>host. True), reWaiter = True, reConfirms = True\<rparr>"

lemma sample_served:
  "fst (handleRelay sampleServerLib (sampleRelayEnv ''service'') sampleServer newBroker) = Serves sampleHandshake (ToAddress ''127.0.0.1:5'')"
  by code_simp

theorem relay_serves_authentic_sources_witness:
  "authenticSource sampleServerLib (sampleRelayEnv ''service'') sampleHandshake sampleServer"
proof -
  obtain s' b' where "handleRelay sampleServerLib (sampleRelayEnv ''service'') sampleServer newBroker
      = (Serves sampleHandshake (ToAddress ''127.0.0.1:5''), s', b')"
    using sample_served by (metis prod.collapse)
  from relay_serves_authentic_sources [OF this] show ?thesis by blast
qed

lemma sample_tunnel:
  "case handleRelay sampleServerLib (sampleRelayEnv ''tunnel'') sampleServer newBroker of (result, s', b') \<Rightarrow>
     (case result of Tunnels h \<Rightarrow> hsRelayToken h = ''token'' | _ \<Rightarrow> False)"
  by code_simp

theorem tunnel_needs_admission_witness:
  "rlTunnels (fst (snd (handleRelay sampleServerLib (sampleRelayEnv ''tunnel'') sampleServer newBroker))) = 32"
proof -
  obtain h s' b' where e: "handleRelay sampleServerLib (sampleRelayEnv ''tunnel'') sampleServer newBroker = (Tunnels h, s', b')"
    using sample_tunnel by (auto split: prod.splits relayEnd.splits)
  from tunnel_needs_admission [OF this] have "s' = sampleServer\<lparr>rlTunnels := Suc (rlTunnels sampleServer)\<rparr>" by blast
  with e show ?thesis by (simp add: sampleServer_def)
qed

theorem refusals_reach_the_node_witness:
  "relayResponseError None (relayErrorLine ''handshake_invalid'' ''the relay handshake is invalid JSON'')
     = RelayRefused ''handshake_invalid'' ''the relay handshake is invalid JSON''"
proof -
  have "handleRelay sampleServerLib (sampleRelayEnv ''?'') sampleServer newBroker
      = (Answers ''handshake_invalid'' ''the relay handshake is invalid JSON'', sampleServer, newBroker)"
    by (simp add: handleRelay_def sampleRelayEnv_def relayHandshakeLimit_def sampleServerLib_def)
  from refusals_reach_the_node [OF this, where messages = None] show ?thesis by (simp add: localizedError_def)
qed

end
