(* ===== verification/Node_Client.thy ===== *)
theory Node_Client
  imports Relay_Handshake
begin

text \<open>
  The node as a client of its coordinator (src/internal/app/coordinator_client.go,
  connection_client.go, \<open>signedCoordinatorRequest\<close> of connection_inbox.go, \<open>coordinatorResponseError\<close>
  of coordinator_http.go): the HTTP client with its pinned certificate, signed requests, enrollment,
  the synchronisation of the discovered peers, and the requests of the administrator.
\<close>

section \<open>Requests and answers\<close>

datatype clientInput =
    NodeInput discoveryRequest
  | PollInput gostring gostring
  | SyncInput uint64
  | CreateInput createConnectionInput
  | IDInput connectionIDInput
  | StatusInput connectionStatusWaitInput
  | WaitInput inboxWaitInput
  | AckInput uint64
  | DecideInput approveRequest
  | RevokeInput gostring

text \<open>The JSON codecs of the client, the texts of status codes and the key generator are the library's.\<close>

record clientlib = relaylib +
  marshalInput :: "clientInput \<Rightarrow> gostring"
  readEnrollment :: "gostring \<Rightarrow> enrollmentState option"
  readPoll :: "gostring \<Rightarrow> (gostring \<times> gostring) option"
  readHeartbeat :: "gostring \<Rightarrow> uint64 option"
  readDiscovery :: "gostring \<Rightarrow> (uint64 \<times> bool \<times> discoveredNode list) option"
  readConnection :: "gostring \<Rightarrow> connectionRequest option"
  readInbox :: "gostring \<Rightarrow> (uint64 \<times> connectionRequest list) option"
  readApiError :: "gostring \<Rightarrow> (gostring \<times> gostring) option"
  statusText :: "int \<Rightarrow> gostring"

record httpReply =
  hrStatusCode :: int
  hrStatusLine :: gostring
  hrBody :: gostring

text \<open>
  An HTTP client: the pin of the coordinator's certificate, its time limit, and the relay a subnode
  dials instead of the coordinator itself.
\<close>

record httpClient =
  hcPin :: gostring
  hcTimeout :: duration
  hcTunnel :: "(gostring \<times> gostring \<times> subnodeConfig) option"

definition coordinatorHTTPClient :: "'z lib_scheme \<Rightarrow> gostring \<Rightarrow> httpClient option" where
  "coordinatorHTTPClient L pinText =
     (case hexDecode (normalizePin L pinText) of
        None \<Rightarrow> None
      | Some pin \<Rightarrow> if length pin \<noteq> 32 then None
                   else Some \<lparr>hcPin = pin, hcTimeout = 15 * nsecond, hcTunnel = None\<rparr>)"

definition coordinatorNodeHTTPClient :: "'z lib_scheme \<Rightarrow> profile \<Rightarrow> httpClient option" where
  "coordinatorNodeHTTPClient L p =
     map_option (\<lambda>client. if pfRole p = ''subnode''
         then client\<lparr>hcTunnel := Some (pfVirtualNetwork p, nfID (pfNode p), pfSubnode p)\<rparr> else client)
       (coordinatorHTTPClient L (ccPinnedSHA256 (pfCoordinator p)))"

text \<open>
  What a client operation meets: for its successive requests the clock, the random source and the
  exchange (no answer when the connection, the certificate check or the time limit fails), and the key
  pair the generator yields.
\<close>

record clientEnv =
  clNow :: "nat \<Rightarrow> time"
  clSupply :: "nat \<Rightarrow> gostring"
  clExchange :: "nat \<Rightarrow> httpClient \<Rightarrow> gostring \<Rightarrow> httpRequest \<Rightarrow> httpReply option"
  clKeyPair :: "(gostring \<times> gostring) option"

datatype coordinatorRefusal = CoordinatorRefused gostring gostring | CoordinatorFailed gostring

datatype clientError =
    InvalidCoordinator urlError
  | NotRequestable
  | NoClientCredential
  | NotSigned signError
  | BadClientPin
  | NoAnswer
  | Refusal coordinatorRefusal
  | AnswerUnreadable
  | NoKeyPair
  | NoPendingHandshake
  | EnrollmentRejected gostring
  | NoLocalCredential
  | BadClientCredential
  | RevisionMovedBackwards
  | NoCoordinator
  | FileUnreadable fileError
  | FileNotSaved
  | ClientProfile profileError
  | NotACoordinator
  | BadAdminAddress
  | OptionRequired gostring

definition coordinatorResponseError :: "'z clientlib_scheme \<Rightarrow> httpReply \<Rightarrow> coordinatorRefusal" where
  "coordinatorResponseError L reply =
     (let body = take 4096 (hrBody reply);
          failed = (let message = trimSpace body in CoordinatorFailed (if message = '''' then hrStatusLine reply else message))
      in case readApiError L body of
           None \<Rightarrow> failed
         | Some (code, text) \<Rightarrow>
             if code = '''' then failed
             else let message = (if trimSpace text = '''' then statusText L (hrStatusCode reply) else trimSpace text)
                  in CoordinatorRefused code (localizedError (activeMessages L) code message))"

text \<open>\<open>http.NewRequest\<close> on the coordinator's address and a path, with a body.\<close>

definition newRequest :: "'z nodelib_scheme \<Rightarrow> gostring \<Rightarrow> gostring \<Rightarrow> gostring \<Rightarrow> httpRequest option" where
  "newRequest L httpMethod url body =
     map_option (\<lambda>u. \<lparr>rqMethod = httpMethod, rqPath = urPath u, rqRemoteAddr = '''', rqNode = '''', rqTime = '''',
         rqNonce = '''', rqSignature = '''', rqAuthorization = '''', rqStatusQuery = urRawQuery u, rqBody = body,
         rqBodyFails = False\<rparr>)
       (urlParse L url)"

definition waitEndpoint :: "gostring \<Rightarrow> bool" where
  "waitEndpoint endpoint \<longleftrightarrow> (\<exists>i \<in> set [0..<length endpoint]. hasPrefix (drop i endpoint) ''/wait'')"

text \<open>The \<open>n\<close>th request of an operation, signed with the node's credential.\<close>

definition signedCoordinatorRequest ::
    "'z clientlib_scheme \<Rightarrow> clientEnv \<Rightarrow> nat \<Rightarrow> profile \<Rightarrow> gostring \<Rightarrow> clientInput \<Rightarrow> clientError + httpReply" where
  "signedCoordinatorRequest L E n p endpoint input =
     (let body = marshalInput L input; url = ccURL (pfCoordinator p) @ endpoint
      in case newRequest L ''POST'' url body of
           None \<Rightarrow> Inl NotRequestable
         | Some request \<Rightarrow>
             (case ccCredential (pfCoordinator p) of
                None \<Rightarrow> Inl NoClientCredential
              | Some credential \<Rightarrow>
                  (case signRequest L (clNow E n) (clSupply E n) body (nfID (pfNode p)) (ncPrivateKey credential) request of
                     Inl err \<Rightarrow> Inl (NotSigned err)
                   | Inr sent \<Rightarrow>
                       (case coordinatorNodeHTTPClient L p of
                          None \<Rightarrow> Inl BadClientPin
                        | Some client \<Rightarrow>
                            (case clExchange E n
                                (if waitEndpoint endpoint then client\<lparr>hcTimeout := connectionWaitMaximum + 10 * nsecond\<rparr> else client)
                                url sent of
                               None \<Rightarrow> Inl NoAnswer
                             | Some reply \<Rightarrow> Inr reply)))))"

text \<open>An answer with one of the accepted status codes, decoded.\<close>

definition acceptReply :: "'z clientlib_scheme \<Rightarrow> int list \<Rightarrow> (gostring \<Rightarrow> 'a option) \<Rightarrow> clientError + httpReply \<Rightarrow> clientError + 'a" where
  "acceptReply L accepted decode result =
     (case result of
        Inl err \<Rightarrow> Inl err
      | Inr reply \<Rightarrow>
          if hrStatusCode reply \<notin> set accepted then Inl (Refusal (coordinatorResponseError L reply))
          else case decode (hrBody reply) of None \<Rightarrow> Inl AnswerUnreadable | Some output \<Rightarrow> Inr output)"

section \<open>Connection requests\<close>

definition createConnectionRequest ::
    "'z clientlib_scheme \<Rightarrow> clientEnv \<Rightarrow> profile \<Rightarrow> gostring \<Rightarrow> gostring \<Rightarrow> gostring \<Rightarrow> gostring \<Rightarrow> clientError + connectionRequest" where
  "createConnectionRequest L E p targetNode service returnRelay idempotency =
     acceptReply L [201, 200] (readConnection L)
       (signedCoordinatorRequest L E 0 p ''/v1/connections/request''
          (CreateInput \<lparr>ciIdempotencyKey = idempotency, ciTargetNode = targetNode, ciService = service, ciReturnRelay = returnRelay\<rparr>))"

definition decideConnectionRequest ::
    "'z clientlib_scheme \<Rightarrow> clientEnv \<Rightarrow> nat \<Rightarrow> profile \<Rightarrow> gostring \<Rightarrow> gostring \<Rightarrow> gostring \<Rightarrow> clientError + connectionRequest" where
  "decideConnectionRequest L E n p requestID decision reason =
     acceptReply L [200] (readConnection L)
       (signedCoordinatorRequest L E n p (''/v1/connections/'' @ decision) (IDInput \<lparr>idRequestID = requestID, idReason = reason\<rparr>))"

definition getConnectionStatus ::
    "'z clientlib_scheme \<Rightarrow> clientEnv \<Rightarrow> nat \<Rightarrow> profile \<Rightarrow> gostring \<Rightarrow> gostring \<Rightarrow> bool \<Rightarrow> clientError + connectionRequest" where
  "getConnectionStatus L E n p requestID knownState wait =
     acceptReply L [200] (readConnection L)
       (signedCoordinatorRequest L E n p (''/v1/connections/status'' @ (if wait then ''/wait'' else ''''))
          (StatusInput \<lparr>swRequestID = requestID, swKnownState = knownState, swWaitSeconds = connectionWaitMaximum div nsecond\<rparr>))"

section \<open>Enrollment\<close>

text \<open>An unsigned request to the coordinator.\<close>

definition enrollmentRequest ::
    "'z clientlib_scheme \<Rightarrow> clientEnv \<Rightarrow> profile \<Rightarrow> gostring \<Rightarrow> clientInput \<Rightarrow> clientError + httpReply" where
  "enrollmentRequest L E p endpoint input =
     (case coordinatorNodeHTTPClient L p of
        None \<Rightarrow> Inl BadClientPin
      | Some client \<Rightarrow>
          let url = ccURL (pfCoordinator p) @ endpoint
          in case newRequest L ''POST'' url (marshalInput L input) of
               None \<Rightarrow> Inl NotRequestable
             | Some request \<Rightarrow> (case clExchange E 0 client url request of None \<Rightarrow> Inl NoAnswer | Some reply \<Rightarrow> Inr reply))"

abbreviation withCoordinator :: "(coordinatorClient \<Rightarrow> coordinatorClient) \<Rightarrow> profile \<Rightarrow> profile" where
  "withCoordinator f p \<equiv> p\<lparr>pfCoordinator := f (pfCoordinator p)\<rparr>"

text \<open>The result, the profile in memory, which the caller keeps, and the profile file.\<close>

definition enrollNode ::
    "'z clientlib_scheme \<Rightarrow> clientEnv \<Rightarrow> ip list option \<Rightarrow> writeOutcome \<Rightarrow> profile \<Rightarrow> profile slot \<Rightarrow>
      clientError option \<times> profile \<times> profile slot" where
  "enrollNode L E interfaces outcome p s =
     (case validateCoordinatorURL L (ccURL (pfCoordinator p)) of
        Some err \<Rightarrow> (Some (InvalidCoordinator err), p, s)
      | None \<Rightarrow>
          if coordinatorNodeHTTPClient L p = None then (Some BadClientPin, p, s)
          else case clKeyPair E of
            None \<Rightarrow> (Some NoKeyPair, p, s)
          | Some (publicKey, privateKey) \<Rightarrow>
              let credential = \<lparr>ncPublicKey = b64Encode publicKey, ncPrivateKey = b64Encode privateKey\<rparr>
              in case acceptReply L [201] (readEnrollment L)
                       (enrollmentRequest L E p ''/v1/enroll/request''
                          (NodeInput \<lparr>drNode = localDiscoveredNode interfaces p, drPublicKey = ncPublicKey credential\<rparr>)) of
                   Inl err \<Rightarrow> (Some err, p, s)
                 | Inr enrollment \<Rightarrow>
                     let p' = withCoordinator (\<lambda>c. c\<lparr>ccCredential := None,
                               ccEnrollment := Some (enrollment\<lparr>esStatus := ''pending'', esCredential := Some credential\<rparr>)\<rparr>) p
                     in case saveProfile outcome p' s of
                          (True, s') \<Rightarrow> (None, p', s')
                        | (False, s') \<Rightarrow> (Some FileNotSaved, p', s'))"

definition pollNode ::
    "'z clientlib_scheme \<Rightarrow> clientEnv \<Rightarrow> writeOutcome \<Rightarrow> profile \<Rightarrow> profile slot \<Rightarrow>
      (bool \<times> clientError option) \<times> profile \<times> profile slot" where
  "pollNode L E outcome p s =
     (if ccCredential (pfCoordinator p) \<noteq> None then ((True, None), p, s)
      else case ccEnrollment (pfCoordinator p) of
        None \<Rightarrow> ((False, Some NoPendingHandshake), p, s)
      | Some enrollment \<Rightarrow>
          (case acceptReply L [200] (readPoll L)
                  (enrollmentRequest L E p ''/v1/enroll/poll'' (PollInput (esRequestID enrollment) (esSecret enrollment))) of
             Inl err \<Rightarrow> ((False, Some err), p, s)
           | Inr (status, reason) \<Rightarrow>
               if status = ''rejected'' then
                 let p' = withCoordinator (\<lambda>c. c\<lparr>ccEnrollment := Some (enrollment\<lparr>esStatus := ''rejected''\<rparr>)\<rparr>) p;
                     text = trimSpace reason
                 in ((False, Some (EnrollmentRejected (if text = ''''
                        then localizedError (activeMessages L) ''enrollment_rejected'' ''upstream coordinator rejected the handshake''
                        else text))),
                     p', snd (saveProfile outcome p' s))
               else if status \<noteq> ''approved'' then ((False, None), p, s)
               else case esCredential enrollment of
                 None \<Rightarrow> ((False, Some NoLocalCredential), p, s)
               | Some credential \<Rightarrow>
                   if \<not> validateCredential L credential then ((False, Some BadClientCredential), p, s)
                   else let p' = withCoordinator (\<lambda>c. c\<lparr>ccCredential := Some credential, ccEnrollment := None\<rparr>) p
                        in case saveProfile outcome p' s of
                             (True, s') \<Rightarrow> ((True, None), p', s')
                           | (False, s') \<Rightarrow> ((True, Some FileNotSaved), p', s')))"

section \<open>Discovery\<close>

definition sendHeartbeat :: "'z clientlib_scheme \<Rightarrow> clientEnv \<Rightarrow> nat \<Rightarrow> ip list option \<Rightarrow> profile \<Rightarrow> clientError + uint64" where
  "sendHeartbeat L E n interfaces p =
     acceptReply L [200] (readHeartbeat L)
       (signedCoordinatorRequest L E n p ''/v1/nodes/heartbeat''
          (NodeInput \<lparr>drNode = localDiscoveredNode interfaces p, drPublicKey = ''''\<rparr>))"

definition fetchDiscovery ::
    "'z clientlib_scheme \<Rightarrow> clientEnv \<Rightarrow> nat \<Rightarrow> writeOutcome \<Rightarrow> profile \<Rightarrow> uint64 \<Rightarrow> uint64 \<Rightarrow> discoveredNode list slot \<Rightarrow>
      (clientError + discoveredNode list) \<times> discoveredNode list slot" where
  "fetchDiscovery L E n outcome p afterRevision expectedRevision peers =
     (case acceptReply L [200] (readDiscovery L)
             (signedCoordinatorRequest L E n p ''/v1/nodes/discovery'' (SyncInput afterRevision)) of
        Inl err \<Rightarrow> (Inl err, peers)
      | Inr (revision, changed, nodes) \<Rightarrow>
          if expectedRevision \<noteq> 0 \<and> revision < expectedRevision then (Inl RevisionMovedBackwards, peers)
          else if \<not> changed then (case loadDiscovered peers of Inl err \<Rightarrow> Inl (FileUnreadable err) | Inr cached \<Rightarrow> Inr cached, peers)
          else case saveDiscovered outcome nodes peers of
                 (True, peers') \<Rightarrow> (Inr nodes, peers')
               | (False, peers') \<Rightarrow> (Inl FileNotSaved, peers'))"

definition syncDiscovery ::
    "'z clientlib_scheme \<Rightarrow> clientEnv \<Rightarrow> ip list option \<Rightarrow> writeOutcome \<Rightarrow> profile \<Rightarrow> profile slot \<Rightarrow> discoveredNode list slot \<Rightarrow>
      (clientError + discoveredNode list) \<times> profile \<times> profile slot \<times> discoveredNode list slot" where
  "syncDiscovery L E interfaces outcome p s peers =
     (if ccURL (pfCoordinator p) = '''' then (Inl NoCoordinator, p, s, peers)
      else case pollNode L E outcome p s of
        ((approved, Some err), p', s') \<Rightarrow> (Inl err, p', s', peers)
      | ((False, None), p', s') \<Rightarrow> (Inr [], p', s', peers)
      | ((True, None), p', s') \<Rightarrow>
          (case sendHeartbeat L E 1 interfaces p' of
             Inl err \<Rightarrow> (Inl err, p', s', peers)
           | Inr revision \<Rightarrow>
               (case fetchDiscovery L E 2 outcome p' 0 revision peers of (result, peers') \<Rightarrow> (result, p', s', peers'))))"

section \<open>The administrator\<close>

text \<open>The client, the origin of the administration server, and the profile with its token.\<close>

definition coordinatorAdminClient :: "'z lib_scheme \<Rightarrow> profile fileState \<Rightarrow> clientError + httpClient \<times> gostring \<times> profile" where
  "coordinatorAdminClient L f =
     (case loadProfile f of
        Inl err \<Rightarrow> Inl (ClientProfile err)
      | Inr p \<Rightarrow>
          if pfRole p \<noteq> ''coordinator'' \<or> svrAdminToken (pfServer p) = '''' then Inl NotACoordinator
          else case coordinatorHTTPClient L (svrPinnedSHA256 (pfServer p)) of
            None \<Rightarrow> Inl BadClientPin
          | Some client \<Rightarrow>
              (case splitHostPort (svrAdminListen (pfServer p)) of
                 Inl _ \<Rightarrow> Inl BadAdminAddress
               | Inr (host, port) \<Rightarrow>
                   Inr (client, ''https://'' @ joinHostPort (if wildcardHost host then ''127.0.0.1'' else host) port, p)))"

definition adminRequest ::
    "'z clientlib_scheme \<Rightarrow> clientEnv \<Rightarrow> profile fileState \<Rightarrow> gostring \<Rightarrow> gostring \<Rightarrow> clientInput option \<Rightarrow> clientError + httpReply" where
  "adminRequest L E f httpMethod endpoint input =
     (case coordinatorAdminClient L f of
        Inl err \<Rightarrow> Inl err
      | Inr (client, origin, p) \<Rightarrow>
          (case newRequest L httpMethod (origin @ endpoint) (case input of None \<Rightarrow> '''' | Some i \<Rightarrow> marshalInput L i) of
             None \<Rightarrow> Inl NotRequestable
           | Some request \<Rightarrow>
               (case clExchange E 0 client (origin @ endpoint)
                       (request\<lparr>rqAuthorization := ''Bearer '' @ svrAdminToken (pfServer p)\<rparr>) of
                  None \<Rightarrow> Inl NoAnswer
                | Some reply \<Rightarrow> Inr reply)))"

definition decideDeviceCode ::
    "'z clientlib_scheme \<Rightarrow> clientEnv \<Rightarrow> profile fileState \<Rightarrow> gostring \<Rightarrow> gostring \<Rightarrow> bool \<Rightarrow> gostring \<Rightarrow> clientError + unit" where
  "decideDeviceCode L E f code decision replace reason =
     (if normalizeDeviceCode L code = '''' then Inl (OptionRequired ''--device-code'')
      else acceptReply L [200] (\<lambda>_. Some ())
        (adminRequest L E f ''POST'' (''/v1/admin/'' @ decision)
          (Some (DecideInput \<lparr>arDeviceCode = code, arReplace = replace, arReason = reason\<rparr>))))"

definition revokeNodeID :: "'z clientlib_scheme \<Rightarrow> clientEnv \<Rightarrow> profile fileState \<Rightarrow> gostring \<Rightarrow> clientError + unit" where
  "revokeNodeID L E f nodeID =
     (if trimSpace nodeID = '''' then Inl (OptionRequired ''--node-id'')
      else acceptReply L [200] (\<lambda>_. Some ()) (adminRequest L E f ''POST'' ''/v1/admin/revoke'' (Some (RevokeInput nodeID))))"

definition handshakeStatusText :: "int \<Rightarrow> gostring" where
  "handshakeStatusText code =
     (if code = 100 then ''pending'' else if code = 200 then ''approved'' else if code = 201 then ''completed''
      else if code = 403 then ''rejected'' else if code = 410 then ''expired'' else ''unknown'')"

section \<open>What the operations leave behind\<close>

text \<open>The peers file only ever holds what a coordinator sent as a whole: a synchronisation that
  succeeds returns what the file now holds, which is the coordinator's list when it reports a change,
  at a revision not older than the one expected, and the unchanged file otherwise; one that fails, at
  whatever point, leaves the file as it was.\<close>

theorem synchronisation_is_atomic:
  "case fetchDiscovery L E n outcome p afterRevision expectedRevision peers of
     (Inl err, peers') \<Rightarrow> slotFile peers' = slotFile peers
   | (Inr nodes, peers') \<Rightarrow> loadDiscovered peers' = Inr nodes
       \<and> (\<exists>revision changed sent. acceptReply L [200] (readDiscovery L)
              (signedCoordinatorRequest L E n p ''/v1/nodes/discovery'' (SyncInput afterRevision)) = Inr (revision, changed, sent)
            \<and> (expectedRevision = 0 \<or> expectedRevision \<le> revision)
            \<and> (if changed then nodes = sent else peers' = peers))"
proof (cases "acceptReply L [200] (readDiscovery L)
    (signedCoordinatorRequest L E n p ''/v1/nodes/discovery'' (SyncInput afterRevision))")
  case (Inl err)
  then show ?thesis by (simp add: fetchDiscovery_def)
next
  case (Inr answer)
  obtain revision changed sent where answer: "answer = (revision, changed, sent)" by (cases answer)
  have saved: "if ok then slotFile peers' = Holds sent else slotFile peers' = slotFile peers"
    if "saveDiscovered outcome sent peers = (ok, peers')" for ok peers'
    using replaceFile_file [of outcome sent peers] that by (simp add: saveDiscovered_def)
  have read: "loadDiscovered peers' = Inr sent" if "slotFile peers' = Holds sent" for peers'
    using that by (simp add: loadDiscovered_def readJSON_def)
  consider (older) "expectedRevision \<noteq> 0 \<and> revision < expectedRevision"
    | (same) "\<not> (expectedRevision \<noteq> 0 \<and> revision < expectedRevision)" "\<not> changed"
    | (new) "\<not> (expectedRevision \<noteq> 0 \<and> revision < expectedRevision)" "changed" by blast
  then show ?thesis
  proof cases
    case older
    then show ?thesis by (simp add: fetchDiscovery_def Inr answer)
  next
    case same
    then show ?thesis
      by (cases "loadDiscovered peers") (auto simp: fetchDiscovery_def Inr answer not_less)
  next
    case new
    obtain ok peers' where s: "saveDiscovered outcome sent peers = (ok, peers')" by fastforce
    show ?thesis
      using new saved [OF s] read [of peers'] by (cases ok) (auto simp: fetchDiscovery_def Inr answer s not_less)
  qed
qed

lemma saveProfile_file:
  "slotFile (snd (saveProfile outcome p s)) = (if fst (saveProfile outcome p s) then Holds p else slotFile s)"
  by (simp add: saveProfile_def replaceFile_file)

text \<open>C28: A poll makes a node a member only with its own key pair: it reports approval only when the
  coordinator does, or the node was approved before, and then the profile in memory holds a credential
  whose halves belong together; a profile that was approved without an error is on disk, and any other
  outcome leaves no credential in memory and the file as it was or with the rejection noted.\<close>

theorem approval_installs_own_credential:
  assumes "pollNode L E outcome p s = ((approved, err), p', s')"
  shows "(approved \<longrightarrow> ccCredential (pfCoordinator p) \<noteq> None \<and> p' = p \<and> s' = s
       \<or> (\<exists>enrollment credential reason. ccEnrollment (pfCoordinator p) = Some enrollment
            \<and> esCredential enrollment = Some credential \<and> validateCredential L credential
            \<and> acceptReply L [200] (readPoll L)
                (enrollmentRequest L E p ''/v1/enroll/poll'' (PollInput (esRequestID enrollment) (esSecret enrollment)))
              = Inr (''approved'', reason)
            \<and> p' = withCoordinator (\<lambda>c. c\<lparr>ccCredential := Some credential, ccEnrollment := None\<rparr>) p
            \<and> (err = None \<longrightarrow> slotFile s' = Holds p')))
    \<and> (\<not> approved \<longrightarrow> ccCredential (pfCoordinator p') = None \<and> slotFile s' \<in> {slotFile s, Holds p'})"
proof (cases "ccCredential (pfCoordinator p)")
  case (Some c)
  with assms show ?thesis by (simp add: pollNode_def)
next
  case none: None
  show ?thesis
  proof (cases "ccEnrollment (pfCoordinator p)")
    case None
    with none assms show ?thesis by (auto simp: pollNode_def)
  next
    case e: (Some enrollment)
    let ?reply = "acceptReply L [200] (readPoll L)
      (enrollmentRequest L E p ''/v1/enroll/poll'' (PollInput (esRequestID enrollment) (esSecret enrollment)))"
    note start = assms [unfolded pollNode_def e option.case none]
    show ?thesis
    proof (cases ?reply)
      case (Inl x)
      with start none show ?thesis by auto
    next
      case reply: (Inr answer)
      obtain status reason where a: "answer = (status, reason)" by (cases answer)
      note step = start [unfolded reply a sum.case prod.case]
      consider (was_rejected) "status = ''rejected''" | (was_approved) "status = ''approved''" | (open_still) "status \<notin> {''rejected'', ''approved''}" by blast
      then show ?thesis
      proof cases
        case was_rejected
        with was_rejected step have "\<not> approved" "p' = withCoordinator (\<lambda>c. c\<lparr>ccEnrollment := Some (enrollment\<lparr>esStatus := ''rejected''\<rparr>)\<rparr>) p"
          "s' = snd (saveProfile outcome p' s)" by (auto simp: Let_def)
        with none saveProfile_file [of outcome p' s] show ?thesis by simp
      next
        case open_still
        with step none show ?thesis by auto
      next
        case was_approved
        show ?thesis
        proof (cases "esCredential enrollment")
          case None
          with step was_approved none show ?thesis by auto
        next
          case c: (Some credential)
          show ?thesis
          proof (cases "validateCredential L credential")
            case False
            with step was_approved c none show ?thesis by auto
          next
            case True
            let ?p = "withCoordinator (\<lambda>c. c\<lparr>ccCredential := Some credential, ccEnrollment := None\<rparr>) p"
            obtain ok t where t: "saveProfile outcome ?p s = (ok, t)" by fastforce
            from step was_approved c True t have r: "approved" "p' = ?p" "s' = t" "err = None \<longleftrightarrow> ok"
              by (auto simp: Let_def split: if_splits bool.splits)
            moreover have "ok \<Longrightarrow> slotFile t = Holds ?p" using saveProfile_file [of outcome ?p s] t by simp
            ultimately show ?thesis using e c True reply a was_approved by auto
          qed
        qed
      qed
    qed
  qed
qed

section \<open>A sample client\<close>

definition sampleClientLib :: clientlib where
  "sampleClientLib = relaylib.extend (sampleRelayLib\<lparr>urlParse := (\<lambda>raw. Some \<lparr>urScheme = ''https'', urHost = ''c:443'',
       urUser = False, urPath = drop 13 raw, urRawQuery = '''', urFragment = ''''\<rparr>)\<rparr>)
     \<lparr>marshalInput = (\<lambda>i. ''{}''), readEnrollment = (\<lambda>b. None), readPoll = (\<lambda>b. Some (b, '''')),
      readHeartbeat = (\<lambda>b. Some 7), readDiscovery = (\<lambda>b. Some (7, True, [])), readConnection = (\<lambda>b. None),
      readInbox = (\<lambda>b. None), readApiError = (\<lambda>b. None), statusText = (\<lambda>c. '''')\<rparr>"

definition sampleClientEnv :: "gostring \<Rightarrow> clientEnv" where
  "sampleClientEnv body = \<lparr>clNow = (\<lambda>n. unixTime 100), clSupply = (\<lambda>n. replicate 32 (CHR 0x01)),
     clExchange = (\<lambda>n c u r. Some \<lparr>hrStatusCode = 200, hrStatusLine = ''200 OK'', hrBody = body\<rparr>), clKeyPair = None\<rparr>"

definition pendingNode :: profile where
  "pendingNode = zeroProfile\<lparr>pfVersion := profileVersion, pfRole := ''client'', pfCoordinator :=
     \<lparr>ccURL = ''https://c:443'', ccPinnedSHA256 = replicate 64 (CHR ''a''), ccCredential = None,
      ccEnrollment = Some \<lparr>esRequestID = ''e1'', esSecret = ''s'', esDeviceCode = '''', esExpiresAt = 0, esStatus = ''pending'',
        esCredential = Some sampleKeyPair\<rparr>\<rparr>\<rparr>"

definition samplePoll :: "(bool \<times> clientError option) \<times> profile \<times> profile slot" where
  "samplePoll = pollNode sampleClientLib (sampleClientEnv ''approved'') WroteFile pendingNode
     \<lparr>slotFile = Holds pendingNode, slotTemp = NoFile\<rparr>"

theorem approval_installs_own_credential_witness:
  "\<exists>credential. ccCredential (pfCoordinator (fst (snd samplePoll))) = Some credential \<and> validateCredential sampleClientLib credential"
proof -
  have "fst samplePoll = (True, None)" by code_simp
  then have "pollNode sampleClientLib (sampleClientEnv ''approved'') WroteFile pendingNode
     \<lparr>slotFile = Holds pendingNode, slotTemp = NoFile\<rparr> = ((True, None), fst (snd samplePoll), snd (snd samplePoll))"
    unfolding samplePoll_def by (metis prod.collapse)
  from approval_installs_own_credential [OF this] have "\<exists>enrollment credential reason. validateCredential sampleClientLib credential
      \<and> fst (snd samplePoll) = withCoordinator (\<lambda>c. c\<lparr>ccCredential := Some credential, ccEnrollment := None\<rparr>) pendingNode"
    by (auto simp: pendingNode_def)
  then show ?thesis by auto
qed

end
