(* ===== verification/Node_Inbox.thy ===== *)
theory Node_Inbox
  imports Node_Client
begin

text \<open>
  The inbox of a node (src/internal/app/connection_inbox.go, \<open>removeInboxRequest\<close> of
  connection_client.go) and the automatic answer to the offers in it (connection_workers.go).
\<close>

section \<open>The cached inbox\<close>

record cachedInbox =
  ciCursor :: uint64
  ciEvents :: "connectionRequest list"

definition emptyInbox :: cachedInbox where
  "emptyInbox = \<lparr>ciCursor = 0, ciEvents = []\<rparr>"

definition loadInbox :: "cachedInbox slot \<Rightarrow> cachedInbox \<times> fileError option" where
  "loadInbox s = readJSON emptyInbox (slotFile s)"

text \<open>The events by id: those of the file that are not settled, then the new ones over them.\<close>

definition mergeEvents :: "connectionRequest list \<Rightarrow> connectionRequest list \<Rightarrow> (gostring, connectionRequest) gomap" where
  "mergeEvents existing new =
     fold (\<lambda>event m. mput (crID event) event m) new
       (fold (\<lambda>event m. if connectionTerminal (crState event) then m else mput (crID event) event m) existing [])"

definition mergedInbox :: "(gostring list \<Rightarrow> gostring list) \<Rightarrow> cachedInbox \<Rightarrow> cachedInbox \<Rightarrow> cachedInbox" where
  "mergedInbox order existing inbox =
     \<lparr>ciCursor = max (ciCursor existing) (ciCursor inbox),
      ciEvents = sortBy crCursor (rangeVals order (mergeEvents (ciEvents existing) (ciEvents inbox)))\<rparr>"

definition saveInbox ::
    "(gostring list \<Rightarrow> gostring list) \<Rightarrow> writeOutcome \<Rightarrow> cachedInbox \<Rightarrow> cachedInbox slot \<Rightarrow> bool \<times> cachedInbox slot" where
  "saveInbox order outcome inbox s = replaceFile outcome (mergedInbox order (fst (loadInbox s)) inbox) s"

definition removeInboxRequest :: "writeOutcome \<Rightarrow> gostring \<Rightarrow> cachedInbox slot \<Rightarrow> clientError option \<times> cachedInbox slot" where
  "removeInboxRequest outcome requestID s =
     (case loadInbox s of
        (inbox, Some err) \<Rightarrow> (Some (FileUnreadable err), s)
      | (inbox, None) \<Rightarrow>
          (case replaceFile outcome (inbox\<lparr>ciEvents := filter (\<lambda>c. crID c \<noteq> requestID) (ciEvents inbox)\<rparr>) s of
             (True, s') \<Rightarrow> (None, s')
           | (False, s') \<Rightarrow> (Some FileNotSaved, s')))"

section \<open>Waiting for events\<close>

text \<open>
  One wait: the result, the acknowledgement that was sent, if any, and the inbox file. When the
  acknowledgement is sent the file is already written.
\<close>

definition waitInbox ::
    "'z clientlib_scheme \<Rightarrow> clientEnv \<Rightarrow> (gostring list \<Rightarrow> gostring list) \<Rightarrow> writeOutcome \<Rightarrow> profile \<Rightarrow> cachedInbox slot \<Rightarrow>
      (clientError + uint64 \<times> connectionRequest list) \<times> uint64 option \<times> cachedInbox slot" where
  "waitInbox L E order outcome p s =
     (case loadInbox s of
        (inbox, Some err) \<Rightarrow> (Inl (FileUnreadable err), None, s)
      | (inbox, None) \<Rightarrow>
          (case acceptReply L [200] (readInbox L)
              (signedCoordinatorRequest L E 0 p ''/v1/connections/inbox/wait''
                (WaitInput \<lparr>iwAfterCursor = ciCursor inbox, iwWaitSeconds = connectionWaitMaximum div nsecond,
                            iwMaxEvents = maxInboxEvents\<rparr>)) of
             Inl err \<Rightarrow> (Inl err, None, s)
           | Inr (cursor, events) \<Rightarrow>
               (case saveInbox order outcome \<lparr>ciCursor = cursor, ciEvents = events\<rparr> s of
                  (False, s') \<Rightarrow> (Inl FileNotSaved, None, s')
                | (True, s') \<Rightarrow>
                    if events = [] then (Inr (cursor, events), None, s')
                    else (case acceptReply L [200] (\<lambda>_. Some ())
                              (signedCoordinatorRequest L E 1 p ''/v1/connections/inbox/ack'' (AckInput cursor)) of
                            Inl err \<Rightarrow> (Inl err, Some cursor, s')
                          | Inr _ \<Rightarrow> (Inr (cursor, events), Some cursor, s')))))"

section \<open>Automatic offers\<close>

definition localPublishedTarget :: "profile \<Rightarrow> gostring \<Rightarrow> gostring option" where
  "localPublishedTarget p name =
     map_option mpTarget (find (\<lambda>m. mpKind m = ''publish'' \<and> mpName m = name \<and> validateHostPort (mpTarget m) = None) (pfMappings p))"

text \<open>
  The offers to start, with the ids that are being served (\<open>automaticConnectionOffers\<close>): an id is
  taken before its goroutine starts and given back when it ends.
\<close>

fun dispatchOffers :: "profile \<Rightarrow> connectionRequest list \<Rightarrow> gostring list \<Rightarrow> connectionRequest list \<times> gostring list" where
  "dispatchOffers p [] serving = ([], serving)"
| "dispatchOffers p (event # events) serving =
     (if crTargetNode event \<noteq> nfID (pfNode p) \<or> crReturnRelay event = '''' \<or> crID event \<in> set serving
      then dispatchOffers p events serving
      else case dispatchOffers p events (crID event # serving) of (started, serving') \<Rightarrow> (event # started, serving'))"

definition offerEnded :: "gostring \<Rightarrow> gostring list \<Rightarrow> gostring list" where
  "offerEnded requestID serving = removeAll requestID serving"

text \<open>
  One offer: whether the local target is reached, the dial of the return relay, and what is sent to
  the coordinator. Of the two connections only the result tells whether they stay open.
\<close>

record offerEnv =
  ofPeers :: "discoveredNode list slot"
  ofTarget :: "gostring \<Rightarrow> bool"
  ofDial :: "discoveredNode \<Rightarrow> relayDialEnv"

datatype offerResult =
    ServiceNotLocal
  | PeersNotRead fileError
  | ReturnRelayUnknown
  | TargetDown
  | RelayDown relayDialError
  | NotAccepted clientError
  | Bridging gostring

definition returnRelay :: "discoveredNode list \<Rightarrow> gostring \<Rightarrow> discoveredNode option" where
  "returnRelay nodes relayID = find (\<lambda>node. dnID node = relayID \<and> dnRole node = ''relay'' \<and> dnRelay node \<noteq> None) nodes"

text \<open>The decision that is sent with its reason, and the result.\<close>

definition serveOffer ::
    "'z clientlib_scheme \<Rightarrow> clientEnv \<Rightarrow> offerEnv \<Rightarrow> profile \<Rightarrow> connectionRequest \<Rightarrow> (gostring \<times> gostring) option \<times> offerResult" where
  "serveOffer L E F p event =
     (case localPublishedTarget p (crService event) of
        None \<Rightarrow> (Some (''reject'', ''published service is not local''), ServiceNotLocal)
      | Some target \<Rightarrow>
          (case loadDiscovered (ofPeers F) of
             Inl err \<Rightarrow> (None, PeersNotRead err)
           | Inr nodes \<Rightarrow>
               (case returnRelay nodes (crReturnRelay event) of
                  None \<Rightarrow> (None, ReturnRelayUnknown)
                | Some relay \<Rightarrow>
                    if dnID relay = '''' then (None, ReturnRelayUnknown)
                    else if \<not> ofTarget F target
                    then (Some (''reject'', ''local published target is unavailable''), TargetDown)
                    else case snd (dialReverseRelay L (ofDial F relay) p relay (crIdempotencyKey event) (crService event)) of
                      Some err \<Rightarrow> (Some (''reject'', ''return relay is unavailable''), RelayDown err)
                    | None \<Rightarrow>
                        (Some (''accept'', ''''),
                         case decideConnectionRequest L E 0 p (crID event) ''accept'' '''' of
                           Inl err \<Rightarrow> NotAccepted err
                         | Inr _ \<Rightarrow> Bridging target))))"

text \<open>An accepted offer leaves the inbox file; the failure to write it is ignored.\<close>

definition serveAutomaticConnectionOffer ::
    "'z clientlib_scheme \<Rightarrow> clientEnv \<Rightarrow> offerEnv \<Rightarrow> writeOutcome \<Rightarrow> profile \<Rightarrow> connectionRequest \<Rightarrow> cachedInbox slot \<Rightarrow>
      (gostring \<times> gostring) option \<times> offerResult \<times> cachedInbox slot" where
  "serveAutomaticConnectionOffer L E F outcome p event s =
     (case serveOffer L E F p event of
        (decision, Bridging target) \<Rightarrow> (decision, Bridging target, snd (removeInboxRequest outcome (crID event) s))
      | (decision, result) \<Rightarrow> (decision, result, s))"

section \<open>What a merge keeps\<close>

lemma find_SomeD: "find P xs = Some x \<Longrightarrow> x \<in> set xs \<and> P x"
  by (induction xs) (auto split: if_splits)

lemma find_append: "find P (xs @ ys) = (case find P xs of Some x \<Rightarrow> Some x | None \<Rightarrow> find P ys)"
  by (induction xs) auto

lemma put_all_events:
  "mget (fold (\<lambda>event m. mput (crID event) event m) events m) k
   = (case find (\<lambda>event. crID event = k) (rev events) of Some event \<Rightarrow> Some event | None \<Rightarrow> mget m k)"
  by (induction events arbitrary: m) (auto simp: find_append split: option.split)

lemma put_open_events:
  "fold (\<lambda>event m. if connectionTerminal (crState event) then m else mput (crID event) event m) events m
   = fold (\<lambda>event m. mput (crID event) event m) (filter (\<lambda>event. \<not> connectionTerminal (crState event)) events) m"
  by (induction events arbitrary: m) auto

lemma merged_lookup:
  "mget (mergeEvents existing new) k
   = find (\<lambda>event. crID event = k) (rev (filter (\<lambda>event. \<not> connectionTerminal (crState event)) existing @ new))"
  by (cases "find (\<lambda>event. crID event = k) (rev new)")
    (simp_all add: mergeEvents_def put_open_events put_all_events find_append split: option.split)

lemma merged_ids:
  assumes "event \<in> set (ciEvents inbox) \<or> event \<in> set (ciEvents old) \<and> \<not> connectionTerminal (crState event)"
  shows "\<exists>kept \<in> set (ciEvents (mergedInbox order old inbox)). crID kept = crID event"
proof -
  have "find (\<lambda>e. crID e = crID event) (rev (filter (\<lambda>e. \<not> connectionTerminal (crState e)) (ciEvents old) @ ciEvents inbox)) \<noteq> None"
    using assms by (auto simp: find_None_iff)
  then obtain kept where "mget (mergeEvents (ciEvents old) (ciEvents inbox)) (crID event) = Some kept" "crID kept = crID event"
    by (auto simp: merged_lookup find_Some_iff)
  then show ?thesis by (auto simp: mergedInbox_def set_rangeVals)
qed

lemma merged_source: "set (ciEvents (mergedInbox order old inbox)) \<subseteq> set (ciEvents old) \<union> set (ciEvents inbox)"
proof
  fix kept assume "kept \<in> set (ciEvents (mergedInbox order old inbox))"
  then obtain k where "find (\<lambda>e. crID e = k) (rev (filter (\<lambda>e. \<not> connectionTerminal (crState e)) (ciEvents old) @ ciEvents inbox)) = Some kept"
    by (auto simp: mergedInbox_def set_rangeVals merged_lookup)
  then have "kept \<in> set (rev (filter (\<lambda>e. \<not> connectionTerminal (crState e)) (ciEvents old) @ ciEvents inbox))"
    unfolding find_Some_iff by (metis nth_mem)
  then show "kept \<in> set (ciEvents old) \<union> set (ciEvents inbox)" by auto
qed


text \<open>
  The cursor of the file never falls, and the next wait asks for what lies above it, whichever
  coordinator the profile names by then: after a move to a coordinator with lower cursors (or one
  whose state was reset) offers stay invisible until its cursors have passed the old one.
\<close>

theorem inbox_cursor_never_falls:
  "ciCursor old \<le> ciCursor (mergedInbox order old inbox)"
  by (simp add: mergedInbox_def)

section \<open>Offers\<close>

text \<open>Every offer for this node that names a return relay is served by exactly one goroutine: the
  dispatcher starts those whose id is not being served, each id once, marks exactly these, and afterwards
  every eligible offer of the answer is being served.\<close>

theorem offers_are_served_once:
  "case dispatchOffers p events serving of (started, serving') \<Rightarrow>
     distinct (map crID started) \<and> set (map crID started) \<inter> set serving = {}
     \<and> set serving' = set serving \<union> set (map crID started)
     \<and> set started \<subseteq> {event \<in> set events. crTargetNode event = nfID (pfNode p) \<and> crReturnRelay event \<noteq> ''''}
     \<and> crID ` {event \<in> set events. crTargetNode event = nfID (pfNode p) \<and> crReturnRelay event \<noteq> ''''} \<subseteq> set serving'"
proof (induction p events serving rule: dispatchOffers.induct)
  case (1 p serving)
  then show ?case by simp
next
  case (2 p event events serving)
  show ?case
  proof (cases "crTargetNode event \<noteq> nfID (pfNode p) \<or> crReturnRelay event = '''' \<or> crID event \<in> set serving")
    case True
    obtain started serving' where d: "dispatchOffers p events serving = (started, serving')" by fastforce
    from "2.IH"(1) [OF True] True show ?thesis by (auto simp: d)
  next
    case False
    obtain started serving' where d: "dispatchOffers p events (crID event # serving) = (started, serving')" by fastforce
    from "2.IH"(2) [OF False] False show ?thesis by (auto simp: d)
  qed
qed

lemma offerEnded_again: "crID event \<notin> set (offerEnded (crID event) serving)"
  by (simp add: offerEnded_def)


section \<open>A sample offer\<close>

definition sampleOffer :: connectionRequest where
  "sampleOffer = \<lparr>crID = ''c1'', crIdempotencyKey = ''k'', crSourceNode = ''s'', crTargetNode = ''n1'', crService = ''web'',
     crReturnRelay = ''r1'', crState = ''offered'', crStatusCode = 102, crReason = '''', crCursor = 3, crCreatedAt = 0,
     crUpdatedAt = 0, crExpiresAt = 0, crOfferLeaseEnds = 0\<rparr>"

definition publishingNode :: profile where
  "publishingNode = relayedNode\<lparr>pfMappings := [zeroMapping\<lparr>mpName := ''web'', mpKind := ''publish'', mpTarget := ''127.0.0.1:80''\<rparr>],
     pfCoordinator := pfCoordinator pendingNode\<lparr>ccCredential := Some sampleKeyPair\<rparr>\<rparr>"

definition sampleOfferEnv :: offerEnv where
  "sampleOfferEnv = \<lparr>ofPeers = \<lparr>slotFile = Holds [relayAdvertised\<lparr>dnRole := ''relay''\<rparr>], slotTemp = NoFile\<rparr>,
     ofTarget = (\<lambda>t. True), ofDial = (\<lambda>r. relayDial)\<rparr>"

lemma sample_accept:
  "fst (serveOffer sampleClientLib (sampleClientEnv '''') sampleOfferEnv publishingNode sampleOffer) = Some (''accept'', '''')"
  by code_simp


definition inboxLib :: clientlib where
  "inboxLib = sampleClientLib\<lparr>readInbox := (\<lambda>b. Some (3, [sampleOffer]))\<rparr>"

definition inboxSlot :: "cachedInbox slot" where
  "inboxSlot = \<lparr>slotFile = Holds \<lparr>ciCursor = 2, ciEvents = [sampleOffer\<lparr>crID := ''c0'', crCursor := 2\<rparr>]\<rparr>, slotTemp = NoFile\<rparr>"

definition sampleWait :: "(clientError + uint64 \<times> connectionRequest list) \<times> uint64 option \<times> cachedInbox slot" where
  "sampleWait = waitInbox inboxLib (sampleClientEnv '''') (\<lambda>ks. ks) WroteFile publishingNode inboxSlot"


end
