(* ===== verification/Node_Workers.thy ===== *)
theory Node_Workers
  imports Node_Inbox "HOL-Library.Sublist"
begin

text \<open>
  The control plane of a node (src/internal/app/connection_workers.go): the status file, the loop
  that waits for approval, and the heartbeat, discovery and inbox workers with the mailbox between the
  first two.
\<close>

section \<open>The status file\<close>

record controlPlaneStatus =
  cpHeartbeatLastOK :: time
  cpHeartbeatError :: gostring
  cpDiscoveryLastOK :: time
  cpDiscoveryError :: gostring
  cpDiscoveryRevision :: uint64
  cpInboxLastOK :: time
  cpInboxError :: gostring
  cpInboxCursor :: uint64
  cpInboxWaiting :: bool

definition zeroStatus :: controlPlaneStatus where
  "zeroStatus = \<lparr>cpHeartbeatLastOK = 0, cpHeartbeatError = '''', cpDiscoveryLastOK = 0, cpDiscoveryError = '''',
     cpDiscoveryRevision = 0, cpInboxLastOK = 0, cpInboxError = '''', cpInboxCursor = 0, cpInboxWaiting = False\<rparr>"

definition loadControlStatus :: "controlPlaneStatus slot \<Rightarrow> controlPlaneStatus \<times> fileError option" where
  "loadControlStatus s = readJSON zeroStatus (slotFile s)"

definition updateControlStatus ::
    "writeOutcome \<Rightarrow> (controlPlaneStatus \<Rightarrow> controlPlaneStatus) \<Rightarrow> controlPlaneStatus slot \<Rightarrow> bool \<times> controlPlaneStatus slot" where
  "updateControlStatus outcome update s = replaceFile outcome (update (fst (loadControlStatus s))) s"

section \<open>Waiting for approval\<close>

datatype controlTurn = ControlEnds | ControlRetries duration | ControlRuns profile

definition runControlPlane ::
    "'z clientlib_scheme \<Rightarrow> clientEnv \<Rightarrow> writeOutcome \<Rightarrow> profile slot \<Rightarrow> controlTurn \<times> profile slot" where
  "runControlPlane L E outcome s =
     (case loadProfile (slotFile s) of
        Inl _ \<Rightarrow> (ControlEnds, s)
      | Inr p \<Rightarrow>
          if ccURL (pfCoordinator p) = '''' then (ControlEnds, s)
          else if ccCredential (pfCoordinator p) \<noteq> None then (ControlRuns p, s)
          else (case pollNode L E outcome p s of
                  ((approved, err), p', s') \<Rightarrow> (if approved then ControlRuns p' else ControlRetries (5 * nsecond), s')))"

section \<open>The workers' turns\<close>

text \<open>The text of an error, and the answer of a turn beside the files it wrote.\<close>

definition heartbeatTurn ::
    "'z clientlib_scheme \<Rightarrow> clientEnv \<Rightarrow> ip list option \<Rightarrow> (clientError \<Rightarrow> gostring) \<Rightarrow> writeOutcome \<Rightarrow> time \<Rightarrow> profile \<Rightarrow>
      controlPlaneStatus slot \<Rightarrow> uint64 option \<times> controlPlaneStatus slot" where
  "heartbeatTurn L E interfaces describe outcome now p status =
     (case sendHeartbeat L E 0 interfaces p of
        Inl err \<Rightarrow> (None, snd (updateControlStatus outcome (\<lambda>st. st\<lparr>cpHeartbeatError := describe err\<rparr>) status))
      | Inr revision \<Rightarrow>
          (Some revision,
           snd (updateControlStatus outcome (\<lambda>st. st\<lparr>cpHeartbeatLastOK := now, cpHeartbeatError := ''''\<rparr>) status)))"

definition discoveryTurn ::
    "'z clientlib_scheme \<Rightarrow> clientEnv \<Rightarrow> (clientError \<Rightarrow> gostring) \<Rightarrow> writeOutcome \<Rightarrow> writeOutcome \<Rightarrow> time \<Rightarrow> profile \<Rightarrow>
      uint64 \<Rightarrow> uint64 \<Rightarrow> discoveredNode list slot \<Rightarrow> controlPlaneStatus slot \<Rightarrow>
      uint64 \<times> discoveredNode list slot \<times> controlPlaneStatus slot" where
  "discoveryTurn L E describe outcome statusOutcome now p current revision peers status =
     (if revision = current then (current, peers, status)
      else case fetchDiscovery L E 0 outcome p current revision peers of
        (Inl err, peers') \<Rightarrow>
          (current, peers', snd (updateControlStatus statusOutcome (\<lambda>st. st\<lparr>cpDiscoveryError := describe err\<rparr>) status))
      | (Inr nodes, peers') \<Rightarrow>
          (revision, peers',
           snd (updateControlStatus statusOutcome
             (\<lambda>st. st\<lparr>cpDiscoveryRevision := revision, cpDiscoveryLastOK := now, cpDiscoveryError := ''''\<rparr>) status)))"

definition nextBackoff :: "duration \<Rightarrow> duration" where
  "nextBackoff backoff = (if backoff < 30 * nsecond then backoff * 2 else backoff)"

text \<open>A turn of the inbox worker: the offers to serve, those being served, the pause before the next
  turn and the backoff after it.\<close>

definition inboxWorkerTurn ::
    "'z clientlib_scheme \<Rightarrow> clientEnv \<Rightarrow> (gostring list \<Rightarrow> gostring list) \<Rightarrow> (clientError \<Rightarrow> gostring) \<Rightarrow> writeOutcome \<Rightarrow>
      writeOutcome \<Rightarrow> writeOutcome \<Rightarrow> time \<Rightarrow> profile \<Rightarrow> duration \<Rightarrow> gostring list \<Rightarrow> cachedInbox slot \<Rightarrow> controlPlaneStatus slot \<Rightarrow>
      (connectionRequest list \<times> gostring list) \<times> (duration \<times> duration) \<times> cachedInbox slot \<times> controlPlaneStatus slot" where
  "inboxWorkerTurn L E order describe outcome before after now p backoff serving inbox status0 =
     (let status1 = snd (updateControlStatus before (\<lambda>st. st\<lparr>cpInboxWaiting := True\<rparr>) status0)
      in case waitInbox L E order outcome p inbox of
           (Inl err, ack, inbox') \<Rightarrow>
             (([], serving), (backoff, nextBackoff backoff), inbox',
              snd (updateControlStatus after (\<lambda>st. st\<lparr>cpInboxWaiting := False, cpInboxError := describe err\<rparr>) status1))
         | (Inr (cursor, events), ack, inbox') \<Rightarrow>
             (dispatchOffers p events serving, (0, nsecond), inbox',
              snd (updateControlStatus after (\<lambda>st. st\<lparr>cpInboxWaiting := False, cpInboxLastOK := now, cpInboxError := '''',
                  cpInboxCursor := max (cpInboxCursor st) cursor\<rparr>) status1)))"

section \<open>The mailbox between heartbeat and discovery\<close>

text \<open>
  A channel of one place. The heartbeat worker sends if the place is free; else it empties the place
  and sends again, giving up if it is taken once more; the discovery worker may receive at any moment.
  The lists record what was published and what was received.
\<close>

datatype publisher = Publishing | FoundFull uint64 | Emptied uint64

record mailbox =
  mbPlace :: "uint64 option"
  mbPublisher :: publisher
  mbPublished :: "uint64 list"
  mbReceived :: "uint64 list"

inductive mailbox_step :: "mailbox \<Rightarrow> mailbox \<Rightarrow> bool" where
  sends: "mbPublisher m = Publishing \<Longrightarrow> mbPlace m = None \<Longrightarrow>
    mailbox_step m (m\<lparr>mbPlace := Some r, mbPublished := mbPublished m @ [r]\<rparr>)"
| finds_full: "mbPublisher m = Publishing \<Longrightarrow> mbPlace m \<noteq> None \<Longrightarrow> mailbox_step m (m\<lparr>mbPublisher := FoundFull r\<rparr>)"
| empties: "mbPublisher m = FoundFull r \<Longrightarrow> mailbox_step m (m\<lparr>mbPlace := None, mbPublisher := Emptied r\<rparr>)"
| resends: "mbPublisher m = Emptied r \<Longrightarrow> mbPlace m = None \<Longrightarrow>
    mailbox_step m (m\<lparr>mbPlace := Some r, mbPublisher := Publishing, mbPublished := mbPublished m @ [r]\<rparr>)"
| gives_up_sending: "mbPublisher m = Emptied r \<Longrightarrow> mbPlace m \<noteq> None \<Longrightarrow>
    mailbox_step m (m\<lparr>mbPublisher := Publishing, mbPublished := mbPublished m @ [r]\<rparr>)"
| receives: "mbPlace m = Some r \<Longrightarrow> mailbox_step m (m\<lparr>mbPlace := None, mbReceived := mbReceived m @ [r]\<rparr>)"

definition mailbox_init :: "mailbox \<Rightarrow> bool" where
  "mailbox_init m \<longleftrightarrow> m = \<lparr>mbPlace = None, mbPublisher = Publishing, mbPublished = [], mbReceived = []\<rparr>"

definition mbDelivered :: "mailbox \<Rightarrow> uint64 list" where
  "mbDelivered m = mbReceived m @ (case mbPlace m of None \<Rightarrow> [] | Some r \<Rightarrow> [r])"

definition mailbox_inv :: "mailbox \<Rightarrow> bool" where
  "mailbox_inv m \<longleftrightarrow> subseq (mbDelivered m) (mbPublished m)
     \<and> (\<forall>r. mbPublisher m = Emptied r \<longrightarrow> mbPlace m = None)
     \<and> (mbPublisher m = Publishing \<and> mbPublished m \<noteq> [] \<longrightarrow>
          mbDelivered m \<noteq> [] \<and> last (mbDelivered m) = last (mbPublished m))"

lemma mailbox_inv_step:
  assumes "mailbox_step m m'" and "mailbox_inv m"
  shows "mailbox_inv m'"
  using assms
proof (induction rule: mailbox_step.induct)
  case (empties m r)
  have "subseq (mbReceived m) (mbDelivered m)"
    by (cases "mbPlace m") (auto simp: mbDelivered_def intro: subseq_rev_drop_many)
  with empties show ?case by (auto simp: mailbox_inv_def mbDelivered_def intro: subseq_order.trans)
next
  case (receives m r)
  then show ?case by (auto simp: mailbox_inv_def mbDelivered_def)
qed (auto simp: mailbox_inv_def mbDelivered_def intro: list_emb_append_mono [where ys' = "[r]" for r])

interpretation mailbox: inductive_invariant mailbox_init mailbox_step mailbox_inv
proof
  show "mailbox_inv m" if "mailbox_init m" for m
    using that by (simp add: mailbox_init_def mailbox_inv_def mbDelivered_def)
  show "mailbox_inv m'" if "mailbox_inv m" "mailbox_step m m'" for m m'
    using mailbox_inv_step [OF that(2,1)] .
qed

text \<open>C31: Under every interleaving of the two workers with the mailbox, what the discovery worker gets is a
  subsequence of what the heartbeat worker published, in that order, and whenever a publication is
  over, the last thing delivered (received or waiting in the mailbox) is the newest revision published.\<close>

theorem newest_revision_gets_through:
  assumes "reach mailbox_init mailbox_step m"
  shows "subseq (mbReceived m) (mbPublished m)
    \<and> (mbPublisher m = Publishing \<longrightarrow> mbPublished m \<noteq> [] \<longrightarrow>
        mbPlace m = Some (last (mbPublished m))
      \<or> mbPlace m = None \<and> mbReceived m \<noteq> [] \<and> last (mbReceived m) = last (mbPublished m))"
proof (intro conjI impI)
  have inv: "mailbox_inv m" using assms by (rule mailbox.reach_inv)
  have "subseq (mbReceived m) (mbDelivered m)"
    by (cases "mbPlace m") (auto simp: mbDelivered_def intro: subseq_rev_drop_many)
  with inv show "subseq (mbReceived m) (mbPublished m)" by (auto simp: mailbox_inv_def intro: subseq_order.trans)
  assume "mbPublisher m = Publishing" "mbPublished m \<noteq> []"
  with inv show "mbPlace m = Some (last (mbPublished m)) \<or> mbPlace m = None \<and> mbReceived m \<noteq> [] \<and> last (mbReceived m) = last (mbPublished m)"
    by (cases "mbPlace m") (auto simp: mailbox_inv_def mbDelivered_def)
qed

text \<open>Two revisions are published before the first is received: the second takes its place.\<close>

definition mailboxWith :: "uint64 option \<Rightarrow> publisher \<Rightarrow> uint64 list \<Rightarrow> mailbox" where
  "mailboxWith place publisher published =
     \<lparr>mbPlace = place, mbPublisher = publisher, mbPublished = published, mbReceived = []\<rparr>"

lemma mailbox_replaced: "reach mailbox_init mailbox_step (mailboxWith (Some 2) Publishing [1, 2])"
proof -
  have 0: "reach mailbox_init mailbox_step (mailboxWith None Publishing [])"
    by (rule reach_init) (simp add: mailbox_init_def mailboxWith_def)
  have "mailbox_step (mailboxWith None Publishing []) (mailboxWith (Some 1) Publishing [1])"
    using sends [of "mailboxWith None Publishing []" 1] by (simp add: mailboxWith_def)
  with 0 have 1: "reach mailbox_init mailbox_step (mailboxWith (Some 1) Publishing [1])" by (rule reach_step)
  have "mailbox_step (mailboxWith (Some 1) Publishing [1]) (mailboxWith (Some 1) (FoundFull 2) [1])"
    using finds_full [of "mailboxWith (Some 1) Publishing [1]" 2] by (simp add: mailboxWith_def)
  with 1 have 2: "reach mailbox_init mailbox_step (mailboxWith (Some 1) (FoundFull 2) [1])" by (rule reach_step)
  have "mailbox_step (mailboxWith (Some 1) (FoundFull 2) [1]) (mailboxWith None (Emptied 2) [1])"
    using empties [of "mailboxWith (Some 1) (FoundFull 2) [1]" 2] by (simp add: mailboxWith_def)
  with 2 have 3: "reach mailbox_init mailbox_step (mailboxWith None (Emptied 2) [1])" by (rule reach_step)
  have "mailbox_step (mailboxWith None (Emptied 2) [1]) (mailboxWith (Some 2) Publishing [1, 2])"
    using resends [of "mailboxWith None (Emptied 2) [1]" 2] by (simp add: mailboxWith_def)
  with 3 show ?thesis by (rule reach_step)
qed

theorem newest_revision_gets_through_witness: "mbPlace (mailboxWith (Some 2) Publishing [1, 2]) = Some 2"
  using newest_revision_gets_through [OF mailbox_replaced] by (simp add: mailboxWith_def)

section \<open>The inbox worker's backoff\<close>

text \<open>The pauses double from one second; the bound is checked before the doubling, so they settle at
  32 seconds, not at 30.\<close>

theorem inbox_backoff: "(nextBackoff ^^ n) nsecond = min (2 ^ n) 32 * nsecond"
proof (induction n)
  case (Suc n)
  consider "n \<le> 4" | "5 \<le> n" by linarith
  then show ?case
  proof cases
    case 1
    then have "n \<in> {0, 1, 2, 3, 4}" by auto
    with Suc show ?thesis by (auto simp: nextBackoff_def nsecond_def)
  next
    case 2
    then have "(2::int) ^ 5 \<le> 2 ^ n" by (intro power_increasing) auto
    with Suc show ?thesis by (auto simp: nextBackoff_def nsecond_def)
  qed
qed simp

section \<open>The wait for approval ends\<close>

text \<open>\<open>runControlPlane\<close> from its \<open>n\<close>th turn on, for at most \<open>fuel\<close> turns.\<close>

fun controlLoop ::
    "'z clientlib_scheme \<Rightarrow> (nat \<Rightarrow> clientEnv) \<Rightarrow> (nat \<Rightarrow> writeOutcome) \<Rightarrow> nat \<Rightarrow> nat \<Rightarrow> profile slot \<Rightarrow> (controlTurn \<times> profile slot) option" where
  "controlLoop L E outcome 0 n s = None"
| "controlLoop L E outcome (Suc fuel) n s =
     (case runControlPlane L (E n) (outcome n) s of
        (ControlRetries pause, s') \<Rightarrow> controlLoop L E outcome fuel (Suc n) s'
      | turn \<Rightarrow> Some turn)"

text \<open>What a node waiting for approval has on disk, whether or not it was rejected meanwhile.\<close>

definition awaitsApproval :: "'z clientlib_scheme \<Rightarrow> enrollmentState \<Rightarrow> nodeCredential \<Rightarrow> profile \<Rightarrow> bool" where
  "awaitsApproval L enrollment credential p \<longleftrightarrow> pfVersion p = profileVersion \<and> validNodeRole (pfRole p)
     \<and> ccURL (pfCoordinator p) \<noteq> '''' \<and> ccCredential (pfCoordinator p) = None
     \<and> (\<exists>status. ccEnrollment (pfCoordinator p) = Some (enrollment\<lparr>esStatus := status\<rparr>))
     \<and> esCredential enrollment = Some credential \<and> validateCredential L credential"

definition pollReply :: "'z clientlib_scheme \<Rightarrow> clientEnv \<Rightarrow> enrollmentState \<Rightarrow> profile \<Rightarrow> clientError + gostring \<times> gostring" where
  "pollReply L E enrollment p = acceptReply L [200] (readPoll L)
     (enrollmentRequest L E p ''/v1/enroll/poll'' (PollInput (esRequestID enrollment) (esSecret enrollment)))"

lemma enrollmentRequest_status:
  "enrollmentRequest L E (withCoordinator (\<lambda>c. c\<lparr>ccEnrollment := e\<rparr>) p) endpoint input = enrollmentRequest L E p endpoint input"
  by (simp add: enrollmentRequest_def coordinatorNodeHTTPClient_def cong: option.case_cong option.map_cong if_cong)

lemma pollReply_status: "pollReply L E enrollment (withCoordinator (\<lambda>c. c\<lparr>ccEnrollment := e\<rparr>) p) = pollReply L E enrollment p"
  by (simp add: pollReply_def enrollmentRequest_status)

lemma runControlPlane_waiting:
  assumes "awaitsApproval L enrollment credential p" and "slotFile s = Holds p"
  obtains (approved) q s' where "runControlPlane L E outcome s = (ControlRuns q, s')" "ccCredential (pfCoordinator q) = Some credential"
  | (waits) q s' where "runControlPlane L E outcome s = (ControlRetries (5 * nsecond), s')" "slotFile s' = Holds q"
      "awaitsApproval L enrollment credential q" "\<And>E'. pollReply L E' enrollment q = pollReply L E' enrollment p"
      "\<And>reason. pollReply L E enrollment p \<noteq> Inr (''approved'', reason)"
proof -
  obtain status where p: "loadProfile (slotFile s) = Inr p" "ccURL (pfCoordinator p) \<noteq> ''''" "ccCredential (pfCoordinator p) = None"
      "ccEnrollment (pfCoordinator p) = Some (enrollment\<lparr>esStatus := status\<rparr>)" "esCredential enrollment = Some credential"
      "validateCredential L credential"
    using assms by (auto simp: awaitsApproval_def loadProfile_Holds)
  have run: "runControlPlane L E outcome s = (case pollNode L E outcome p s of
      ((approved, err), p', s') \<Rightarrow> (if approved then ControlRuns p' else ControlRetries (5 * nsecond), s'))"
    using p by (simp add: runControlPlane_def)
  let ?reply = "pollReply L E enrollment p"
  have reply: "acceptReply L [200] (readPoll L) (enrollmentRequest L E p ''/v1/enroll/poll''
      (PollInput (esRequestID enrollment) (esSecret enrollment))) = ?reply" by (simp add: pollReply_def)
  consider (failed) err where "?reply = Inl err" | (rejected) reason where "?reply = Inr (''rejected'', reason)"
    | (open_still) st reason where "?reply = Inr (st, reason)" "st \<noteq> ''rejected''" "st \<noteq> ''approved''"
    | (ok) reason where "?reply = Inr (''approved'', reason)"
    by (metis old.prod.exhaust sumE)
  then show thesis
  proof cases
    case failed
    with run p reply assms(2) have "runControlPlane L E outcome s = (ControlRetries (5 * nsecond), s)" by (simp add: pollNode_def)
    then show thesis using assms failed by (intro waits [of s p]) auto
  next
    case open_still
    with run p reply assms(2) have "runControlPlane L E outcome s = (ControlRetries (5 * nsecond), s)" by (simp add: pollNode_def)
    then show thesis using assms open_still by (intro waits [of s p]) auto
  next
    case rejected
    let ?q = "withCoordinator (\<lambda>c. c\<lparr>ccEnrollment := Some (enrollment\<lparr>esStatus := ''rejected''\<rparr>)\<rparr>) p"
    let ?s = "snd (saveProfile outcome ?q s)"
    have r: "runControlPlane L E outcome s = (ControlRetries (5 * nsecond), ?s)"
      using run p reply rejected by (simp add: pollNode_def Let_def)
    show thesis
    proof (cases "fst (saveProfile outcome ?q s)")
      case True
      then have "slotFile ?s = Holds ?q" by (simp add: saveProfile_file)
      moreover have "awaitsApproval L enrollment credential ?q" using assms(1) by (auto simp: awaitsApproval_def)
      ultimately show thesis using r rejected by (intro waits [of ?s ?q]) (auto simp: pollReply_status)
    next
      case False
      then have "slotFile ?s = Holds p" using assms(2) by (simp add: saveProfile_file)
      with r assms(1) rejected show thesis by (intro waits [of ?s p]) auto
    qed
  next
    case ok
    let ?q = "withCoordinator (\<lambda>c. c\<lparr>ccCredential := Some credential, ccEnrollment := None\<rparr>) p"
    have "runControlPlane L E outcome s = (ControlRuns ?q, snd (saveProfile outcome ?q s))"
      using run p reply ok by (simp add: pollNode_def Let_def split: prod.split bool.split)
    then show thesis by (rule approved) simp
  qed
qed

text \<open>C27: A node that asked to join runs as soon as it is approved: whatever the earlier polls answered
  (nothing, an error, pending, a rejection since lifted) and whichever writes of the profile failed,
  the wait ends by the turn whose poll the coordinator answers with an approval, and the workers then
  run with the credential the node itself generated for this enrollment.\<close>

theorem approval_ends_the_wait:
  assumes "awaitsApproval L enrollment credential p" and "slotFile s = Holds p"
    and "pollReply L (E (n + k)) enrollment p = Inr (''approved'', reason)"
  shows "\<exists>q s'. controlLoop L E outcome (Suc k) n s = Some (ControlRuns q, s') \<and> ccCredential (pfCoordinator q) = Some credential"
  using assms
proof (induction k arbitrary: n p s)
  case 0
  from 0(1,2) show ?case
  proof (cases rule: runControlPlane_waiting [where E = "E n" and outcome = "outcome n"])
    case (waits q s')
    with 0 show ?thesis by simp
  qed simp
next
  case (Suc k)
  from Suc.prems(1,2) show ?case
  proof (cases rule: runControlPlane_waiting [where E = "E n" and outcome = "outcome n"])
    case (approved q s')
    then show ?thesis by simp
  next
    case (waits q s')
    with Suc.prems(3) have "pollReply L (E (Suc n + k)) enrollment q = Inr (''approved'', reason)" by simp
    from Suc.IH [OF waits(3,2) this] waits(1) show ?thesis by simp
  qed
qed

text \<open>The first poll is rejected, the second answered with an approval.\<close>

definition sampleApproval :: "nat \<Rightarrow> clientEnv" where
  "sampleApproval n = sampleClientEnv (if n = 0 then ''rejected'' else ''approved'')"

definition pendingEnrollment :: enrollmentState where
  "pendingEnrollment = \<lparr>esRequestID = ''e1'', esSecret = ''s'', esDeviceCode = '''', esExpiresAt = 0, esStatus = ''pending'',
     esCredential = Some sampleKeyPair\<rparr>"

lemma sample_approval:
  "validateCredential sampleClientLib sampleKeyPair"
  "pollReply sampleClientLib (sampleApproval 1) pendingEnrollment pendingNode = Inr (''approved'', '''')"
  by (rule sampleKeyPair_valid, simp add: sampleClientLib_def relaylib.defs sampleRelayLib_def nodelib.defs sampleNodeLib_public)
    code_simp

theorem approval_ends_the_wait_witness:
  "\<exists>q s'. controlLoop sampleClientLib sampleApproval (\<lambda>n. WroteFile) 2 0 \<lparr>slotFile = Holds pendingNode, slotTemp = NoFile\<rparr>
     = Some (ControlRuns q, s') \<and> ccCredential (pfCoordinator q) = Some sampleKeyPair"
proof -
  have "awaitsApproval sampleClientLib pendingEnrollment sampleKeyPair pendingNode"
    using sample_approval(1)
    by (auto simp: awaitsApproval_def pendingEnrollment_def pendingNode_def zeroProfile_def validNodeRole_def)
  from approval_ends_the_wait [OF this, of "\<lparr>slotFile = Holds pendingNode, slotTemp = NoFile\<rparr>" sampleApproval 0 1]
  show ?thesis unfolding numeral_2_eq_2 using sample_approval(2) by (simp del: controlLoop.simps)
qed

end
