(* ===== verification/Supervisor.thy ===== *)
theory Supervisor
  imports Managed_Profiles
begin

text \<open>
  The service manager (src/internal/app/service_supervisor.go): the reconciliation of its workers with
  a scan of the profiles, and the restarts of one profile.
\<close>

section \<open>Workers\<close>

text \<open>
  A worker is a goroutine that runs one profile until its context is cancelled; \<open>svTasks\<close> holds every
  goroutine ever started, and the table of workers refers to them by their place.
\<close>

record workerTask =
  tkProfile :: managedProfile
  tkCancelled :: bool
  tkDone :: bool

record supervisor =
  svTasks :: "workerTask list"
  svWorkers :: "(gostring, nat) gomap"
  svRejected :: "(gostring, gostring) gomap"
  svNotices :: "(gostring \<times> managedError) list"

text \<open>
  What the environment decides: the order of a range loop, whether a worker is found finished, whether
  it stops in time once cancelled, and whether the pause after a coordinator is waited to its end.
\<close>

record supervisorEnv =
  seVisit :: "gostring list \<Rightarrow> gostring list"
  seFinished :: "nat \<Rightarrow> bool"
  seStops :: "nat \<Rightarrow> bool"
  seGoesOn :: "gostring \<Rightarrow> bool"

definition markDone :: "nat \<Rightarrow> supervisor \<Rightarrow> supervisor" where
  "markDone i S = S\<lparr>svTasks := (svTasks S)[i := (svTasks S ! i)\<lparr>tkDone := True\<rparr>]\<rparr>"

definition cancelTask :: "nat \<Rightarrow> supervisor \<Rightarrow> supervisor" where
  "cancelTask i S = S\<lparr>svTasks := (svTasks S)[i := (svTasks S ! i)\<lparr>tkCancelled := True\<rparr>]\<rparr>"

definition managedWorkerDone :: "supervisorEnv \<Rightarrow> nat \<Rightarrow> supervisor \<Rightarrow> bool \<times> supervisor" where
  "managedWorkerDone E i S =
     (if tkDone (svTasks S ! i) \<or> seFinished E i then (True, markDone i S) else (False, S))"

definition stopManagedWorker :: "supervisorEnv \<Rightarrow> nat \<Rightarrow> supervisor \<Rightarrow> bool \<times> supervisor" where
  "stopManagedWorker E i S =
     (if seStops E i then (True, markDone i (cancelTask i S)) else (False, cancelTask i S))"

definition startManagedWorker :: "managedProfile \<Rightarrow> supervisor \<Rightarrow> nat \<times> supervisor" where
  "startManagedWorker m S =
     (length (svTasks S), S\<lparr>svTasks := svTasks S @ [\<lparr>tkProfile = m, tkCancelled = False, tkDone = False\<rparr>]\<rparr>)"

definition dropWorker :: "gostring \<Rightarrow> supervisor \<Rightarrow> supervisor" where
  "dropWorker instance S = S\<lparr>svWorkers := mdel instance (svWorkers S)\<rparr>"

section \<open>Reconciliation\<close>

text \<open>The body of the first loop: a worker whose instance is no longer there is stopped.\<close>

definition stopUnwanted :: "supervisorEnv \<Rightarrow> gostring list \<Rightarrow> gostring \<Rightarrow> supervisor \<Rightarrow> supervisor" where
  "stopUnwanted E wanted name S =
     (case mget (svWorkers S) name of
        None \<Rightarrow> S
      | Some i \<Rightarrow>
          if name \<in> set wanted then S
          else (case stopManagedWorker E i S of (stopped, S') \<Rightarrow> if stopped then dropWorker name S' else S'))"

text \<open>The second loop, one profile: the first component tells whether the loop goes on.\<close>

definition startProfile :: "supervisorEnv \<Rightarrow> managedProfile \<Rightarrow> supervisor \<Rightarrow> bool \<times> supervisor" where
  "startProfile E m S =
     (case startManagedWorker m S of
        (i, S') \<Rightarrow> (if mfRole m = ''coordinator'' then seGoesOn E (mfInstance m) else True,
                   S'\<lparr>svWorkers := mput (mfInstance m) i (svWorkers S')\<rparr>))"

definition restartProfile :: "supervisorEnv \<Rightarrow> managedProfile \<Rightarrow> nat \<Rightarrow> supervisor \<Rightarrow> bool \<times> supervisor" where
  "restartProfile E m i S =
     (case stopManagedWorker E i S of
        (stopped, S') \<Rightarrow> if stopped then startProfile E m (dropWorker (mfInstance m) S') else (True, S'))"

definition reconcileProfile :: "supervisorEnv \<Rightarrow> managedProfile \<Rightarrow> supervisor \<Rightarrow> bool \<times> supervisor" where
  "reconcileProfile E m S =
     (case mfErr m of
        Some err \<Rightarrow>
          (True, if mget (svRejected S) (mfInstance m) = Some (mfSignature m) then S
                 else S\<lparr>svRejected := mput (mfInstance m) (mfSignature m) (svRejected S),
                        svNotices := svNotices S @ [(mfInstance m, err)]\<rparr>)
      | None \<Rightarrow>
          let S0 = S\<lparr>svRejected := mdel (mfInstance m) (svRejected S)\<rparr>
          in case mget (svWorkers S) (mfInstance m) of
               None \<Rightarrow> if mfDisabled m then (True, S0) else startProfile E m S0
             | Some i \<Rightarrow>
                 if mfDisabled m then
                   (case stopManagedWorker E i S0 of
                      (stopped, S') \<Rightarrow> (True, if stopped then dropWorker (mfInstance m) S' else S'))
                 else if mfSignature (tkProfile (svTasks S ! i)) = mfSignature m then
                   (case managedWorkerDone E i S0 of
                      (finished, S') \<Rightarrow> if finished then restartProfile E m i S' else (True, S'))
                 else restartProfile E m i S0)"

fun reconcileProfiles :: "supervisorEnv \<Rightarrow> managedProfile list \<Rightarrow> supervisor \<Rightarrow> supervisor" where
  "reconcileProfiles E [] S = S"
| "reconcileProfiles E (m # ms) S =
     (case reconcileProfile E m S of (goesOn, S') \<Rightarrow> if goesOn then reconcileProfiles E ms S' else S')"

text \<open>One scan; a scan that fails leaves the workers as they are.\<close>

definition reconcile :: "supervisorEnv \<Rightarrow> managedProfile list option \<Rightarrow> supervisor \<Rightarrow> bool \<times> supervisor" where
  "reconcile E scan S =
     (case scan of
        None \<Rightarrow> (False, S)
      | Some profiles \<Rightarrow>
          (True, reconcileProfiles E profiles
             (fold (stopUnwanted E (map mfInstance profiles)) (rangeKeys (seVisit E) (svWorkers S)) S)))"

text \<open>When the manager is told to end it cancels every worker and waits for all goroutines.\<close>

definition cancelWorkers :: "(gostring list \<Rightarrow> gostring list) \<Rightarrow> supervisor \<Rightarrow> supervisor" where
  "cancelWorkers vis S =
     fold (\<lambda>name S. case mget (svWorkers S) name of None \<Rightarrow> S | Some i \<Rightarrow> cancelTask i S) (rangeKeys vis (svWorkers S)) S"

section \<open>Restarts of one profile\<close>

text \<open>The pauses between the runs of a profile whose runs last as listed.\<close>

definition restartDelay :: "duration \<Rightarrow> duration \<Rightarrow> duration" where
  "restartDelay took delay = (if nminute \<le> took then nsecond else delay)"

definition nextDelay :: "duration \<Rightarrow> duration" where
  "nextDelay delay = (if delay < 30 * nsecond then (if 30 * nsecond < delay * 2 then 30 * nsecond else delay * 2) else delay)"

fun superviseProfile :: "duration \<Rightarrow> duration list \<Rightarrow> duration list" where
  "superviseProfile delay [] = []"
| "superviseProfile delay (took # runs) =
     restartDelay took delay # superviseProfile (nextDelay (restartDelay took delay)) runs"

section \<open>The invariant\<close>

text \<open>The manager starts, scans, and its goroutines end whenever they like.\<close>

definition supervisor_init :: "supervisor \<Rightarrow> bool" where
  "supervisor_init S \<longleftrightarrow> S = \<lparr>svTasks = [], svWorkers = [], svRejected = [], svNotices = []\<rparr>"

inductive supervisor_step :: "supervisor \<Rightarrow> supervisor \<Rightarrow> bool" where
  scans: "supervisor_step S (snd (reconcile E scan S))"
| finishes: "supervisor_step S (markDone i S)"

definition supervisor_ok :: "supervisor \<Rightarrow> bool" where
  "supervisor_ok S \<longleftrightarrow> gomap_ok (svWorkers S)
     \<and> (\<forall>name i. mget (svWorkers S) name = Some i \<longrightarrow>
          i < length (svTasks S) \<and> mfInstance (tkProfile (svTasks S ! i)) = name)
     \<and> (\<forall>i < length (svTasks S). \<not> tkDone (svTasks S ! i) \<longrightarrow>
          mget (svWorkers S) (mfInstance (tkProfile (svTasks S ! i))) = Some i)"

definition workerOf :: "supervisor \<Rightarrow> gostring \<Rightarrow> (nat \<times> workerTask) option" where
  "workerOf S name = map_option (\<lambda>i. (i, svTasks S ! i)) (mget (svWorkers S) name)"

lemma supervisor_okI:
  assumes "gomap_ok (svWorkers S)"
    and "\<And>name i. mget (svWorkers S) name = Some i \<Longrightarrow> i < length (svTasks S) \<and> mfInstance (tkProfile (svTasks S ! i)) = name"
    and "\<And>i. i < length (svTasks S) \<Longrightarrow> \<not> tkDone (svTasks S ! i) \<Longrightarrow>
      mget (svWorkers S) (mfInstance (tkProfile (svTasks S ! i))) = Some i"
  shows "supervisor_ok S"
  using assms by (simp add: supervisor_ok_def)

lemma supervisor_okD:
  assumes "supervisor_ok S"
  shows "gomap_ok (svWorkers S)"
    and "mget (svWorkers S) name = Some i \<Longrightarrow> i < length (svTasks S)"
    and "mget (svWorkers S) name = Some i \<Longrightarrow> mfInstance (tkProfile (svTasks S ! i)) = name"
    and "i < length (svTasks S) \<Longrightarrow> \<not> tkDone (svTasks S ! i) \<Longrightarrow>
      mget (svWorkers S) (mfInstance (tkProfile (svTasks S ! i))) = Some i"
  using assms by (simp_all add: supervisor_ok_def)

lemma update_nth: "(xs[i := f (xs ! i)]) ! j = (if i < length xs \<and> j = i then f (xs ! j) else xs ! j)"
  by (cases "i < length xs") (simp_all add: nth_list_update list_update_beyond)

lemma markDone_simps [simp]:
  "svWorkers (markDone i S) = svWorkers S" "length (svTasks (markDone i S)) = length (svTasks S)"
  "svTasks (markDone i S) ! j = (if i < length (svTasks S) \<and> j = i then (svTasks S ! j)\<lparr>tkDone := True\<rparr> else svTasks S ! j)"
  using update_nth [of "svTasks S" i "\<lambda>t. t\<lparr>tkDone := True\<rparr>" j] by (simp_all add: markDone_def)

lemma cancelTask_simps [simp]:
  "svWorkers (cancelTask i S) = svWorkers S" "length (svTasks (cancelTask i S)) = length (svTasks S)"
  "svTasks (cancelTask i S) ! j = (if i < length (svTasks S) \<and> j = i then (svTasks S ! j)\<lparr>tkCancelled := True\<rparr> else svTasks S ! j)"
  using update_nth [of "svTasks S" i "\<lambda>t. t\<lparr>tkCancelled := True\<rparr>" j] by (simp_all add: cancelTask_def)

lemma dropWorker_simps [simp]:
  "svWorkers (dropWorker name S) = mdel name (svWorkers S)" "svTasks (dropWorker name S) = svTasks S"
  by (simp_all add: dropWorker_def)

lemma startProfile_simps [simp]:
  "svWorkers (snd (startProfile E m S)) = mput (mfInstance m) (length (svTasks S)) (svWorkers S)"
  "svTasks (snd (startProfile E m S)) = svTasks S @ [\<lparr>tkProfile = m, tkCancelled = False, tkDone = False\<rparr>]"
  by (simp_all add: startProfile_def startManagedWorker_def)

lemma markDone_ok: "supervisor_ok S \<Longrightarrow> supervisor_ok (markDone i S)"
  by (rule supervisor_okI) (auto dest: supervisor_okD split: if_splits)

lemma cancelTask_ok: "supervisor_ok S \<Longrightarrow> supervisor_ok (cancelTask i S)"
  by (rule supervisor_okI) (auto dest: supervisor_okD split: if_splits)

lemma dropWorker_ok:
  assumes ok: "supervisor_ok S" and i: "mget (svWorkers S) name = Some i" and finished: "tkDone (svTasks S ! i)"
  shows "supervisor_ok (dropWorker name S)"
proof (rule supervisor_okI)
  fix j assume j: "j < length (svTasks (dropWorker name S))" "\<not> tkDone (svTasks (dropWorker name S) ! j)"
  then have "mget (svWorkers S) (mfInstance (tkProfile (svTasks S ! j))) = Some j"
    using supervisor_okD(4) [OF ok] by simp
  moreover have "j \<noteq> i" using j(2) finished by auto
  ultimately show "mget (svWorkers (dropWorker name S)) (mfInstance (tkProfile (svTasks (dropWorker name S) ! j))) = Some j"
    using i by auto
qed (use supervisor_okD(1-3) [OF ok] in \<open>auto split: if_splits\<close>)

lemma startProfile_ok:
  assumes ok: "supervisor_ok S" and free: "mget (svWorkers S) (mfInstance m) = None"
  shows "supervisor_ok (snd (startProfile E m S))"
proof (rule supervisor_okI)
  fix name i assume "mget (svWorkers (snd (startProfile E m S))) name = Some i"
  then show "i < length (svTasks (snd (startProfile E m S))) \<and> mfInstance (tkProfile (svTasks (snd (startProfile E m S)) ! i)) = name"
    using supervisor_okD(2,3) [OF ok, of name i] by (auto simp: nth_append split: if_splits)
next
  fix i assume "i < length (svTasks (snd (startProfile E m S)))" "\<not> tkDone (svTasks (snd (startProfile E m S)) ! i)"
  then show "mget (svWorkers (snd (startProfile E m S))) (mfInstance (tkProfile (svTasks (snd (startProfile E m S)) ! i))) = Some i"
    using supervisor_okD(4) [OF ok, of i] free by (auto simp: nth_append less_Suc_eq)
qed (use supervisor_okD(1) [OF ok] in simp)

lemma stopManagedWorker_ok:
  assumes "stopManagedWorker E i S = (stopped, T)" and "supervisor_ok S"
  shows "supervisor_ok T" and "svWorkers T = svWorkers S"
    and "stopped \<Longrightarrow> i < length (svTasks S) \<Longrightarrow> tkDone (svTasks T ! i)"
    and "j \<noteq> i \<Longrightarrow> svTasks T ! j = svTasks S ! j" and "length (svTasks T) = length (svTasks S)"
  using assms by (auto simp: stopManagedWorker_def markDone_ok cancelTask_ok split: if_splits)

lemma workerOf_simps [simp]:
  "workerOf (S\<lparr>svRejected := r\<rparr>) name = workerOf S name" "workerOf (S\<lparr>svNotices := n\<rparr>) name = workerOf S name"
  by (simp_all add: workerOf_def)

lemma supervisor_ok_rejected [simp]:
  "supervisor_ok (S\<lparr>svRejected := r\<rparr>) = supervisor_ok S" "supervisor_ok (S\<lparr>svNotices := n\<rparr>) = supervisor_ok S"
  by (simp_all add: supervisor_ok_def)

text \<open>Two instances never share a task.\<close>

lemma worker_apart:
  "supervisor_ok S \<Longrightarrow> mget (svWorkers S) name = Some i \<Longrightarrow> mget (svWorkers S) other = Some j \<Longrightarrow> other \<noteq> name \<Longrightarrow> j \<noteq> i"
  by (auto dest: supervisor_okD(3))

lemma stopped_other:
  assumes "stopManagedWorker E i S = (stopped, T)" and "supervisor_ok S" and "mget (svWorkers S) name = Some i" and "other \<noteq> name"
  shows "workerOf T other = workerOf S other"
  using stopManagedWorker_ok [OF assms(1,2)] worker_apart [OF assms(2,3)] assms(4)
  by (cases "mget (svWorkers S) other") (auto simp: workerOf_def)

lemma markDone_other:
  assumes "supervisor_ok S" and "mget (svWorkers S) name = Some i" and "other \<noteq> name"
  shows "workerOf (markDone i S) other = workerOf S other"
  using worker_apart [OF assms(1,2)] assms(3) by (cases "mget (svWorkers S) other") (auto simp: workerOf_def)

lemma startProfile_other:
  assumes "supervisor_ok S" and "other \<noteq> mfInstance m"
  shows "workerOf (snd (startProfile E m S)) other = workerOf S other"
  using assms supervisor_okD(2) [OF assms(1), of other]
  by (cases "mget (svWorkers S) other") (auto simp: workerOf_def nth_append)

lemma startProfile_own:
  "workerOf (snd (startProfile E m S)) (mfInstance m) = Some (length (svTasks S), \<lparr>tkProfile = m, tkCancelled = False, tkDone = False\<rparr>)"
  "(\<And>name. seGoesOn E name) \<Longrightarrow> fst (startProfile E m S)"
  by (simp_all add: workerOf_def) (simp add: startProfile_def startManagedWorker_def)

lemma restartProfile_facts:
  assumes ok: "supervisor_ok S" and i: "mget (svWorkers S) (mfInstance m) = Some i"
  shows "supervisor_ok (snd (restartProfile E m i S))"
    and "other \<noteq> mfInstance m \<Longrightarrow> workerOf (snd (restartProfile E m i S)) other = workerOf S other"
    and "seStops E i \<Longrightarrow> workerOf (snd (restartProfile E m i S)) (mfInstance m) =
      Some (length (svTasks S), \<lparr>tkProfile = m, tkCancelled = False, tkDone = False\<rparr>)"
    and "(\<And>name. seGoesOn E name) \<Longrightarrow> fst (restartProfile E m i S)"
proof -
  obtain stopped T where T: "stopManagedWorker E i S = (stopped, T)" by fastforce
  note stop = stopManagedWorker_ok [OF T ok]
  have drop: "supervisor_ok (dropWorker (mfInstance m) T)" if stopped
    using that stop(1,2,3) i supervisor_okD(2) [OF ok i] by (intro dropWorker_ok [of _ _ i]) auto
  have free: "mget (svWorkers (dropWorker (mfInstance m) T)) (mfInstance m) = None" by simp
  show "supervisor_ok (snd (restartProfile E m i S))"
    using drop free stop(1) by (simp add: restartProfile_def T startProfile_ok del: dropWorker_simps)
  show "workerOf (snd (restartProfile E m i S)) other = workerOf S other" if "other \<noteq> mfInstance m"
  proof (cases stopped)
    case True
    have "workerOf (dropWorker (mfInstance m) T) other = workerOf T other" using that by (simp add: workerOf_def)
    with True startProfile_other [OF drop that] stopped_other [OF T ok i that] show ?thesis by (simp add: restartProfile_def T)
  next
    case False
    with stopped_other [OF T ok i that] show ?thesis by (simp add: restartProfile_def T)
  qed
  show "workerOf (snd (restartProfile E m i S)) (mfInstance m) =
      Some (length (svTasks S), \<lparr>tkProfile = m, tkCancelled = False, tkDone = False\<rparr>)" if "seStops E i"
    using that stop(5) T startProfile_own(1) [of E m "dropWorker (mfInstance m) T"]
    by (auto simp: restartProfile_def stopManagedWorker_def split: if_splits)
  show "fst (restartProfile E m i S)" if "\<And>name. seGoesOn E name"
    using startProfile_own(2) [OF that] by (auto simp: restartProfile_def T)
qed

text \<open>What a scan wants of the worker of one profile.\<close>

definition asScanned :: "managedProfile \<Rightarrow> (nat \<times> workerTask) option \<Rightarrow> (nat \<times> workerTask) option \<Rightarrow> bool" where
  "asScanned m old new \<longleftrightarrow>
     (if mfErr m \<noteq> None then new = old
      else if mfDisabled m then new = None
      else (\<exists>i t. new = Some (i, t) \<and> \<not> tkDone t \<and> mfSignature (tkProfile t) = mfSignature m
              \<and> (old = new \<or> tkProfile t = m \<and> \<not> tkCancelled t)))"

lemma reconcileProfile_facts:
  assumes ok: "supervisor_ok S"
  shows "supervisor_ok (snd (reconcileProfile E m S))"
    and "other \<noteq> mfInstance m \<Longrightarrow> workerOf (snd (reconcileProfile E m S)) other = workerOf S other"
    and "(\<And>i. seStops E i) \<Longrightarrow> asScanned m (workerOf S (mfInstance m)) (workerOf (snd (reconcileProfile E m S)) (mfInstance m))"
    and "(\<And>name. seGoesOn E name) \<Longrightarrow> fst (reconcileProfile E m S)"
proof -
  let ?S = "S\<lparr>svRejected := mdel (mfInstance m) (svRejected S)\<rparr>"
  have ok0: "supervisor_ok ?S" using ok by simp
  have "supervisor_ok (snd (reconcileProfile E m S))
    \<and> (other \<noteq> mfInstance m \<longrightarrow> workerOf (snd (reconcileProfile E m S)) other = workerOf S other)
    \<and> ((\<forall>i. seStops E i) \<longrightarrow> asScanned m (workerOf S (mfInstance m)) (workerOf (snd (reconcileProfile E m S)) (mfInstance m)))
    \<and> ((\<forall>name. seGoesOn E name) \<longrightarrow> fst (reconcileProfile E m S))"
  proof (cases "mfErr m")
    case (Some err)
    with ok show ?thesis by (simp add: reconcileProfile_def asScanned_def)
  next
    case valid: None
    show ?thesis
    proof (cases "mget (svWorkers S) (mfInstance m)")
      case None
      with valid ok0 startProfile_ok [OF ok0, of m E] startProfile_other [OF ok0, of other m E] startProfile_own [of E m ?S]
      show ?thesis by (auto simp: reconcileProfile_def asScanned_def workerOf_def [of S] Let_def)
    next
      case i: (Some i)
      have i0: "mget (svWorkers ?S) (mfInstance m) = Some i" using i by simp
      note lt = supervisor_okD(2) [OF ok i]
      consider (disabled) "mfDisabled m" | (changed) "\<not> mfDisabled m" "mfSignature (tkProfile (svTasks S ! i)) \<noteq> mfSignature m"
        | (same) "\<not> mfDisabled m" "mfSignature (tkProfile (svTasks S ! i)) = mfSignature m" by blast
      then show ?thesis
      proof cases
        case disabled
        obtain stopped T where T: "stopManagedWorker E i ?S = (stopped, T)" by fastforce
        note stop = stopManagedWorker_ok [OF T ok0]
        have "supervisor_ok (dropWorker (mfInstance m) T)" if stopped
          using that stop(1,2,3) i lt by (intro dropWorker_ok [of _ _ i]) auto
        moreover have "stopped" if "\<forall>i. seStops E i" using that T by (auto simp: stopManagedWorker_def split: if_splits)
        ultimately show ?thesis
          using valid disabled i T stop(1) stopped_other [OF T ok0 i0, of other]
          by (auto simp: reconcileProfile_def asScanned_def Let_def workerOf_def)
      next
        case changed
        with valid i restartProfile_facts(1,3,4) [OF ok0 i0, where E = E] restartProfile_facts(2) [OF ok0 i0, where E = E and other = other] show ?thesis
          by (auto simp: reconcileProfile_def asScanned_def Let_def)
      next
        case same
        show ?thesis
        proof (cases "tkDone (svTasks S ! i) \<or> seFinished E i")
          case True
          have i1: "mget (svWorkers (markDone i ?S)) (mfInstance m) = Some i" using i by simp
          have r: "reconcileProfile E m S = restartProfile E m i (markDone i ?S)"
            using same valid i True by (simp add: reconcileProfile_def Let_def managedWorkerDone_def)
          show ?thesis
            using valid same restartProfile_facts(1,3,4) [OF markDone_ok [OF ok0] i1, where E = E]
              restartProfile_facts(2) [OF markDone_ok [OF ok0] i1, where E = E and other = other]
              markDone_other [OF ok0 i0, of other]
            by (auto simp: r asScanned_def)
        next
          case False
          then show ?thesis using same valid i ok
            by (auto simp: reconcileProfile_def Let_def managedWorkerDone_def asScanned_def workerOf_def)
        qed
      qed
    qed
  qed
  then show "supervisor_ok (snd (reconcileProfile E m S))"
    and "other \<noteq> mfInstance m \<Longrightarrow> workerOf (snd (reconcileProfile E m S)) other = workerOf S other"
    and "(\<And>i. seStops E i) \<Longrightarrow> asScanned m (workerOf S (mfInstance m)) (workerOf (snd (reconcileProfile E m S)) (mfInstance m))"
    and "(\<And>name. seGoesOn E name) \<Longrightarrow> fst (reconcileProfile E m S)"
    by blast+
qed

section \<open>A whole scan\<close>

lemma stopUnwanted_facts:
  assumes ok: "supervisor_ok S"
  shows "supervisor_ok (stopUnwanted E wanted name S)"
    and "other \<noteq> name \<or> other \<in> set wanted \<Longrightarrow> workerOf (stopUnwanted E wanted name S) other = workerOf S other"
    and "(\<And>i. seStops E i) \<Longrightarrow> name \<notin> set wanted \<Longrightarrow> workerOf (stopUnwanted E wanted name S) name = None"
proof -
  have "supervisor_ok (stopUnwanted E wanted name S)
    \<and> (other \<noteq> name \<or> other \<in> set wanted \<longrightarrow> workerOf (stopUnwanted E wanted name S) other = workerOf S other)
    \<and> ((\<forall>i. seStops E i) \<longrightarrow> name \<notin> set wanted \<longrightarrow> workerOf (stopUnwanted E wanted name S) name = None)"
  proof (cases "mget (svWorkers S) name")
    case None
    with ok show ?thesis by (simp add: stopUnwanted_def workerOf_def)
  next
    case i: (Some i)
    obtain stopped T where T: "stopManagedWorker E i S = (stopped, T)" by fastforce
    note stop = stopManagedWorker_ok [OF T ok]
    have drop: "supervisor_ok (dropWorker name T)" if stopped
      using that stop(1,2,3) i supervisor_okD(2) [OF ok i] by (intro dropWorker_ok [of _ _ i]) auto
    have "stopped" if "\<forall>i. seStops E i" using that T by (auto simp: stopManagedWorker_def split: if_splits)
    then show ?thesis
      using ok i T drop stop(1) stopped_other [OF T ok i, of other] by (auto simp: stopUnwanted_def workerOf_def)
  qed
  then show "supervisor_ok (stopUnwanted E wanted name S)"
    and "other \<noteq> name \<or> other \<in> set wanted \<Longrightarrow> workerOf (stopUnwanted E wanted name S) other = workerOf S other"
    and "(\<And>i. seStops E i) \<Longrightarrow> name \<notin> set wanted \<Longrightarrow> workerOf (stopUnwanted E wanted name S) name = None" by blast+
qed

lemma stopAll_facts:
  assumes "supervisor_ok S"
  shows "supervisor_ok (fold (stopUnwanted E wanted) names S)"
    and "other \<notin> set names \<or> other \<in> set wanted \<Longrightarrow> workerOf (fold (stopUnwanted E wanted) names S) other = workerOf S other"
    and "(\<And>i. seStops E i) \<Longrightarrow> distinct names \<Longrightarrow> other \<in> set names \<Longrightarrow> other \<notin> set wanted \<Longrightarrow>
      workerOf (fold (stopUnwanted E wanted) names S) other = None"
proof -
  show ok: "supervisor_ok (fold (stopUnwanted E wanted) names S)" for names
    by (rule fold_keeps [where P = supervisor_ok]) (use assms in \<open>auto intro: stopUnwanted_facts(1)\<close>)
  have same: "workerOf (fold (stopUnwanted E wanted) names S) other = workerOf S other"
    if "supervisor_ok S" "other \<notin> set names \<or> other \<in> set wanted" for names S
    using that
  proof (induction names arbitrary: S)
    case (Cons name names)
    have "workerOf (stopUnwanted E wanted name S) other = workerOf S other"
      using Cons.prems by (intro stopUnwanted_facts(2)) auto
    moreover have "workerOf (fold (stopUnwanted E wanted) names (stopUnwanted E wanted name S)) other
        = workerOf (stopUnwanted E wanted name S) other"
      using Cons.prems by (intro Cons.IH stopUnwanted_facts(1)) auto
    ultimately show ?case by simp
  qed simp
  then show "other \<notin> set names \<or> other \<in> set wanted \<Longrightarrow> workerOf (fold (stopUnwanted E wanted) names S) other = workerOf S other"
    using assms by blast
  assume "\<And>i. seStops E i" "distinct names" "other \<in> set names" "other \<notin> set wanted"
  then show "workerOf (fold (stopUnwanted E wanted) names S) other = None" using assms
  proof (induction names arbitrary: S)
    case (Cons name names)
    note ok' = stopUnwanted_facts(1) [OF Cons.prems(5), of E wanted name]
    show ?case
    proof (cases "other = name")
      case True
      with Cons.prems(2) have "other \<notin> set names" by simp
      with True same [OF ok', of names] stopUnwanted_facts(3) [OF Cons.prems(5,1), of name wanted] Cons.prems(4)
      show ?thesis by simp
    next
      case False
      with Cons.prems have "distinct names" "other \<in> set names" by auto
      from Cons.IH [OF Cons.prems(1) this Cons.prems(4) ok'] show ?thesis by simp
    qed
  qed simp
qed

lemma reconcileProfiles_facts:
  assumes "supervisor_ok S"
  shows "supervisor_ok (reconcileProfiles E ms S)"
    and "other \<notin> mfInstance ` set ms \<Longrightarrow> workerOf (reconcileProfiles E ms S) other = workerOf S other"
    and "(\<And>i. seStops E i) \<Longrightarrow> (\<And>name. seGoesOn E name) \<Longrightarrow> distinct (map mfInstance ms) \<Longrightarrow> m \<in> set ms \<Longrightarrow>
      asScanned m (workerOf S (mfInstance m)) (workerOf (reconcileProfiles E ms S) (mfInstance m))"
proof -
  have all: "supervisor_ok (reconcileProfiles E ms S)
      \<and> (\<forall>other. other \<notin> mfInstance ` set ms \<longrightarrow> workerOf (reconcileProfiles E ms S) other = workerOf S other)"
    if "supervisor_ok S" for ms S
    using that
  proof (induction ms arbitrary: S)
    case (Cons m ms)
    obtain goesOn T where T: "reconcileProfile E m S = (goesOn, T)" by fastforce
    have "supervisor_ok T" and "\<forall>other. other \<noteq> mfInstance m \<longrightarrow> workerOf T other = workerOf S other"
      using reconcileProfile_facts(1,2) [OF Cons.prems, where E = E and m = m] T by auto
    with Cons.IH [of T] T show ?case by auto
  qed simp
  show "supervisor_ok (reconcileProfiles E ms S)" using all assms by blast
  show "other \<notin> mfInstance ` set ms \<Longrightarrow> workerOf (reconcileProfiles E ms S) other = workerOf S other"
    using all assms by blast
  assume E: "\<And>i. seStops E i" "\<And>name. seGoesOn E name" and "distinct (map mfInstance ms)" "m \<in> set ms"
  then show "asScanned m (workerOf S (mfInstance m)) (workerOf (reconcileProfiles E ms S) (mfInstance m))" using assms
  proof (induction ms arbitrary: S)
    case (Cons k ms)
    obtain T where T: "reconcileProfile E k S = (True, T)"
      using reconcileProfile_facts(4) [OF Cons.prems(5), of E k] E(2) by (metis prod.collapse)
    note k = reconcileProfile_facts(1-3) [OF Cons.prems(5), where E = E and m = k, unfolded T snd_conv]
    show ?case
    proof (cases "m = k")
      case True
      with Cons.prems(3) all [OF k(1), of ms] k(3) [OF E(1)] T show ?thesis by auto
    next
      case False
      with Cons.prems(3,4) have m: "m \<in> set ms" "mfInstance m \<noteq> mfInstance k" by (auto, metis imageI)
      from Cons.IH [OF E _ m(1) k(1)] Cons.prems(3) k(2) [OF m(2)] T show ?thesis by simp
    qed
  qed simp
qed

lemma reconcile_ok: "supervisor_ok S \<Longrightarrow> supervisor_ok (snd (reconcile E scan S))"
  by (simp add: reconcile_def reconcileProfiles_facts(1) stopAll_facts(1) split: option.split)

interpretation supervisor: inductive_invariant supervisor_init supervisor_step supervisor_ok
proof
  show "supervisor_ok S" if "supervisor_init S" for S
    using that by (simp add: supervisor_init_def supervisor_ok_def)
  show "supervisor_ok T" if "supervisor_ok S" "supervisor_step S T" for S T
    using that(2,1) by cases (auto simp: markDone_ok reconcile_ok)
qed

text \<open>C32: In every history of the manager, whatever the scans find, whichever stops time out and whenever
  workers end, no two goroutines run the same instance at a time, and every one that still runs is in
  the table of workers, so that the manager can stop it.\<close>

theorem one_worker_per_instance:
  assumes "reach supervisor_init supervisor_step S"
    and "i < length (svTasks S)" and "\<not> tkDone (svTasks S ! i)"
  shows "mget (svWorkers S) (mfInstance (tkProfile (svTasks S ! i))) = Some i
    \<and> (\<forall>j < length (svTasks S). \<not> tkDone (svTasks S ! j) \<longrightarrow>
         mfInstance (tkProfile (svTasks S ! j)) = mfInstance (tkProfile (svTasks S ! i)) \<longrightarrow> j = i)"
proof -
  note found = supervisor_okD(4) [OF supervisor.reach_inv [OF assms(1)]]
  have "j = i" if "j < length (svTasks S)" "\<not> tkDone (svTasks S ! j)"
    "mfInstance (tkProfile (svTasks S ! j)) = mfInstance (tkProfile (svTasks S ! i))" for j
    using found [OF assms(2,3)] found [OF that(1,2)] that(3) by simp
  with found [OF assms(2,3)] show ?thesis by blast
qed


text \<open>A first scan finds two valid profiles; a second one finds one of them gone and the other changed.\<close>

definition sampleProfile :: "gostring \<Rightarrow> gostring \<Rightarrow> managedProfile" where
  "sampleProfile name signature =
     \<lparr>mfInstance = name, mfRole = ''relay'', mfSignature = signature, mfDisabled = False, mfErr = None\<rparr>"

definition promptEnv :: supervisorEnv where
  "promptEnv = \<lparr>seVisit = (\<lambda>names. names), seFinished = (\<lambda>i. False), seStops = (\<lambda>i. True), seGoesOn = (\<lambda>name. True)\<rparr>"

definition newSupervisor :: supervisor where
  "newSupervisor = \<lparr>svTasks = [], svWorkers = [], svRejected = [], svNotices = []\<rparr>"

definition firstScan :: supervisor where
  "firstScan = snd (reconcile promptEnv (Some [sampleProfile ''a'' ''1'', sampleProfile ''b'' ''1'']) newSupervisor)"

lemma reach_firstScan: "reach supervisor_init supervisor_step firstScan"
proof -
  have "reach supervisor_init supervisor_step newSupervisor"
    by (rule reach_init) (simp add: supervisor_init_def newSupervisor_def)
  then show ?thesis unfolding firstScan_def by (rule reach_step) (rule scans)
qed

theorem one_worker_per_instance_witness: "mget (svWorkers firstScan) ''b'' = Some 1"
proof -
  have "1 < length (svTasks firstScan)" "\<not> tkDone (svTasks firstScan ! 1)" "mfInstance (tkProfile (svTasks firstScan ! 1)) = ''b''"
    by code_simp+
  then show ?thesis using one_worker_per_instance [OF reach_firstScan, THEN conjunct1, of 1] by (simp only: not_False_eq_True True_implies_equals)
qed


section \<open>The pauses between restarts\<close>

lemma nextDelay_range:
  "nsecond \<le> d \<Longrightarrow> d \<le> 30 * nsecond \<Longrightarrow> nsecond \<le> nextDelay d \<and> nextDelay d \<le> 30 * nsecond"
  by (auto simp: nextDelay_def nsecond_def)

lemma restartDelay_range:
  "nsecond \<le> d \<Longrightarrow> d \<le> 30 * nsecond \<Longrightarrow> nsecond \<le> restartDelay took d \<and> restartDelay took d \<le> 30 * nsecond"
  by (auto simp: restartDelay_def nsecond_def)

lemma length_superviseProfile [simp]: "length (superviseProfile d runs) = length runs"
  by (induction d runs rule: superviseProfile.induct) simp_all

lemma delays_in_range:
  "nsecond \<le> d \<Longrightarrow> d \<le> 30 * nsecond \<Longrightarrow> p \<in> set (superviseProfile d runs) \<Longrightarrow> nsecond \<le> p \<and> p \<le> 30 * nsecond"
  by (induction d runs rule: superviseProfile.induct) (auto dest: nextDelay_range restartDelay_range)

lemma nextDelay_pow: "(nextDelay ^^ k) nsecond = min (2 ^ k) 30 * nsecond"
proof (induction k)
  case (Suc k)
  consider "k \<le> 4" | "5 \<le> k" by linarith
  then show ?case
  proof cases
    case 1
    then have "k \<in> {0, 1, 2, 3, 4}" by auto
    with Suc show ?thesis by (auto simp: nextDelay_def nsecond_def)
  next
    case 2
    then have "(2::int) ^ 5 \<le> 2 ^ k" by (intro power_increasing) auto
    with Suc show ?thesis by (auto simp: nextDelay_def nsecond_def)
  qed
qed simp

lemma short_runs_delay:
  assumes "n < length runs" and "\<And>i. i \<le> n \<Longrightarrow> runs ! i < nminute"
  shows "superviseProfile d runs ! n = (nextDelay ^^ n) d"
  using assms
proof (induction d runs arbitrary: n rule: superviseProfile.induct)
  case (2 d took runs)
  have took: "restartDelay took d = d" using 2(3) [of 0] by (simp add: restartDelay_def)
  show ?case
  proof (cases n)
    case (Suc k)
    have "superviseProfile (nextDelay (restartDelay took d)) runs ! k = (nextDelay ^^ k) (nextDelay (restartDelay took d))"
      using 2(2) 2(3) [of "Suc i" for i] Suc by (intro 2(1)) auto
    with Suc took show ?thesis by (simp add: funpow_swap1)
  qed (simp add: took)
qed simp

lemma long_run_resets:
  "n < length runs \<Longrightarrow> nminute \<le> runs ! n \<Longrightarrow> drop n (superviseProfile d runs) = superviseProfile nsecond (drop n runs)"
proof (induction d runs arbitrary: n rule: superviseProfile.induct)
  case (2 d took runs)
  show ?case
  proof (cases n)
    case 0
    with 2 show ?thesis by (simp add: restartDelay_def)
  next
    case (Suc k)
    with 2(2,3) 2(1) [of k] show ?thesis by simp
  qed
qed simp

text \<open>However a profile's process behaves, the pauses before it is started again stay between one
  and thirty seconds; while no run lasts a minute they double from one second to that bound, and a
  run of a minute or more starts the series anew.\<close>

theorem restarts_back_off:
  assumes "n < length runs"
  shows "nsecond \<le> superviseProfile nsecond runs ! n \<and> superviseProfile nsecond runs ! n \<le> 30 * nsecond
    \<and> ((\<forall>i \<le> n. runs ! i < nminute) \<longrightarrow> superviseProfile nsecond runs ! n = min (2 ^ n) 30 * nsecond)
    \<and> (nminute \<le> runs ! n \<longrightarrow> drop n (superviseProfile nsecond runs) = superviseProfile nsecond (drop n runs))"
proof (intro conjI impI)
  have "superviseProfile nsecond runs ! n \<in> set (superviseProfile nsecond runs)" using assms by simp
  from delays_in_range [OF _ _ this]
  show "nsecond \<le> superviseProfile nsecond runs ! n" "superviseProfile nsecond runs ! n \<le> 30 * nsecond"
    by (simp_all add: nsecond_def)
next
  assume "\<forall>i \<le> n. runs ! i < nminute"
  with short_runs_delay [OF assms] show "superviseProfile nsecond runs ! n = min (2 ^ n) 30 * nsecond"
    by (simp add: nextDelay_pow)
next
  assume "nminute \<le> runs ! n"
  with long_run_resets [OF assms]
  show "drop n (superviseProfile nsecond runs) = superviseProfile nsecond (drop n runs)" .
qed

theorem restarts_back_off_witness:
  "superviseProfile nsecond [0, 0, 0, 0, 0, 0, nminute] ! 5 = 30 * nsecond
   \<and> drop 6 (superviseProfile nsecond [0, 0, 0, 0, 0, 0, nminute]) = [nsecond]"
proof
  have "(\<forall>i \<le> (5::nat). [0, 0, 0, 0, 0, 0, nminute] ! i < nminute)"
    by (auto simp: nth_Cons' nminute_def nsecond_def)
  with restarts_back_off [of 5 "[0, 0, 0, 0, 0, 0, nminute]"]
  show "superviseProfile nsecond [0, 0, 0, 0, 0, 0, nminute] ! 5 = 30 * nsecond" by (simp del: superviseProfile.simps)
  show "drop 6 (superviseProfile nsecond [0, 0, 0, 0, 0, 0, nminute]) = [nsecond]"
    using restarts_back_off [of 6 "[0, 0, 0, 0, 0, 0, nminute]"] by (simp add: restartDelay_def)
qed

end
