(* ===== verification/Xray_Config.thy ===== *)
theory Xray_Config
  imports Managed_Profiles
begin

text \<open>
  What a mapping becomes: the configuration of the embedded Xray instance that serves it
  (src/internal/app/xraycore.go) and the document \<open>--action render\<close> writes for the same profile
  (render.go), with the statement that both say the same. Xray itself, which takes the configuration,
  is outside: that it accepts one and starts is a parameter.
\<close>

section \<open>The embedded configuration\<close>

text \<open>The messages the code fills in, with the fields it sets; hosts are kept as the text that is parsed.\<close>

record tlsSettings =
  tlServerName :: gostring
  tlMinVersion :: gostring
  tlCertificate :: "(gostring \<times> gostring) option"
  tlOneTimeLoading :: bool
  tlDisableSystemRoot :: bool
  tlPinnedPeerCertSha256 :: "gostring list"

record xrayStream =
  stProtocolName :: gostring
  stSecurity :: tlsSettings

datatype xrayInbound =
    DokodemoDoor gostring int
  | VlessServer gostring gostring

datatype xrayOutbound =
    VlessClient gostring int gostring gostring
  | Freedom gostring int

record xrayMapping =
  xmInTag :: gostring
  xmListen :: gostring
  xmPort :: int
  xmReceiver :: "xrayStream option"
  xmInbound :: "xrayInbound option"
  xmOutTag :: gostring
  xmSender :: "xrayStream option"
  xmOutbound :: "xrayOutbound option"

datatype mappingError =
    AddressInvalid hostPortError
  | FileNotRead gostring
  | PinInvalid gostring
  | NotCreated gostring
  | NotStarted gostring

definition streamConfig :: "tlsSettings \<Rightarrow> xrayStream" where
  "streamConfig tls = \<lparr>stProtocolName = ''tcp'', stSecurity = tls\<rparr>"

definition serverStream :: "(gostring \<Rightarrow> gostring option) \<Rightarrow> mapping \<Rightarrow> mappingError + xrayStream" where
  "serverStream readFile m =
     (case readFile (mpCertificate m) of
        None \<Rightarrow> Inl (FileNotRead (mpCertificate m))
      | Some cert \<Rightarrow>
          (case readFile (mpKey m) of
             None \<Rightarrow> Inl (FileNotRead (mpKey m))
           | Some key \<Rightarrow> Inr (streamConfig \<lparr>tlServerName = '''', tlMinVersion = ''1.3'', tlCertificate = Some (cert, key),
               tlOneTimeLoading = True, tlDisableSystemRoot = False, tlPinnedPeerCertSha256 = []\<rparr>)))"

definition clientStream :: "mapping \<Rightarrow> mappingError + xrayStream" where
  "clientStream m =
     (case hexDecode (mpPinnedSHA256 m) of
        None \<Rightarrow> Inl (PinInvalid (mpName m))
      | Some pin \<Rightarrow>
          if length pin \<noteq> 32 then Inl (PinInvalid (mpName m))
          else Inr (streamConfig \<lparr>tlServerName = ''mayoiga'', tlMinVersion = ''1.3'', tlCertificate = None,
                 tlOneTimeLoading = False, tlDisableSystemRoot = True, tlPinnedPeerCertSha256 = [pin]\<rparr>))"

definition upstreamUUID :: "mapping \<Rightarrow> gostring" where
  "upstreamUUID m = (if mpUpstreamUUID m = '''' then mpUUID m else mpUpstreamUUID m)"

definition typedVLESSOutbound :: "mapping \<Rightarrow> mappingError + xrayOutbound \<times> xrayStream" where
  "typedVLESSOutbound m =
     (case splitAddress (mpUpstream m) of
        Inl err \<Rightarrow> Inl (AddressInvalid err)
      | Inr (h, p) \<Rightarrow>
          (case clientStream m of
             Inl err \<Rightarrow> Inl err
           | Inr stream \<Rightarrow> Inr (VlessClient h p (upstreamUUID m) ''none'', stream)))"

text \<open>
  The branch that is neither a pull nor a publication assigns the error of the outbound over that of
  the server stream, so the latter is lost; the instance then has no inbound.
\<close>

definition mappingConfig :: "(gostring \<Rightarrow> gostring option) \<Rightarrow> mapping \<Rightarrow> mappingError + xrayMapping" where
  "mappingConfig readFile m =
     (case splitAddress (mpListen m) of
        Inl err \<Rightarrow> Inl (AddressInvalid err)
      | Inr (lh, lp) \<Rightarrow>
          let config = (\<lambda>receiver inbound sender outbound.
                \<lparr>xmInTag = ''in-'' @ mpName m, xmListen = lh, xmPort = lp, xmReceiver = receiver, xmInbound = inbound,
                 xmOutTag = ''out-'' @ mpName m, xmSender = sender, xmOutbound = outbound\<rparr>)
          in if mpKind m = ''pull'' then
               (case typedVLESSOutbound m of
                  Inl err \<Rightarrow> Inl err
                | Inr (outbound, sender) \<Rightarrow> Inr (config None (Some (DokodemoDoor ''127.0.0.1'' 1)) (Some sender) (Some outbound)))
             else
               let server = serverStream readFile m;
                   receiver = (case server of Inl _ \<Rightarrow> None | Inr stream \<Rightarrow> Some stream);
                   inbound = (case server of Inl _ \<Rightarrow> None | Inr _ \<Rightarrow> Some (VlessServer (mpUUID m) ''none''))
               in if mpKind m = ''publish'' then
                    (case splitAddress (mpTarget m) of
                       Inl err \<Rightarrow> Inl (AddressInvalid err)
                     | Inr (h, p) \<Rightarrow>
                         (case server of
                            Inl err \<Rightarrow> Inl err
                          | Inr _ \<Rightarrow> Inr (config receiver inbound None (Some (Freedom h p)))))
                  else (case typedVLESSOutbound m of
                          Inl err \<Rightarrow> Inl err
                        | Inr (outbound, sender) \<Rightarrow> Inr (config receiver inbound (Some sender) (Some outbound))))"

definition startMapping ::
    "(gostring \<Rightarrow> gostring option) \<Rightarrow> (xrayMapping \<Rightarrow> bool) \<Rightarrow> (xrayMapping \<Rightarrow> bool) \<Rightarrow> mapping \<Rightarrow> mappingError + xrayMapping" where
  "startMapping readFile creates starts m =
     (case mappingConfig readFile m of
        Inl err \<Rightarrow> Inl err
      | Inr config \<Rightarrow>
          if \<not> creates config then Inl (NotCreated (mpName m))
          else if \<not> starts config then Inl (NotStarted (mpName m))
          else Inr config)"

section \<open>The rendered document\<close>

datatype document =
    Text gostring
  | Number int
  | Flag bool
  | Items "document list"
  | Object "(gostring \<times> document) list"

datatype renderError =
    ListenUnusable gostring hostPortError
  | UpstreamUnusable gostring hostPortError
  | AutomaticPull gostring

definition vlessInbound :: "gostring \<Rightarrow> gostring \<Rightarrow> int \<Rightarrow> mapping \<Rightarrow> document" where
  "vlessInbound tag host port m = Object
     [(''tag'', Text tag), (''listen'', Text host), (''port'', Number port), (''protocol'', Text ''vless''),
      (''settings'', Object [(''clients'', Items [Object [(''id'', Text (mpUUID m))]]), (''decryption'', Text ''none'')]),
      (''streamSettings'', Object [(''network'', Text ''tcp''), (''security'', Text ''tls''),
        (''tlsSettings'', Object [(''minVersion'', Text ''1.3''), (''certificates'', Items [Object
          [(''certificateFile'', Text (mpCertificate m)), (''keyFile'', Text (mpKey m)), (''oneTimeLoading'', Flag True)]])])])]"

definition vlessOutbound :: "gostring \<Rightarrow> mapping \<Rightarrow> renderError + document" where
  "vlessOutbound tag m =
     (case splitAddress (mpUpstream m) of
        Inl err \<Rightarrow> Inl (UpstreamUnusable (mpName m) err)
      | Inr (h, p) \<Rightarrow> Inr (Object
          [(''tag'', Text tag), (''protocol'', Text ''vless''),
           (''settings'', Object [(''vnext'', Items [Object [(''address'', Text h), (''port'', Number p),
             (''users'', Items [Object [(''id'', Text (upstreamUUID m)), (''encryption'', Text ''none'')]])]])]),
           (''streamSettings'', Object [(''network'', Text ''tcp''), (''security'', Text ''tls''),
             (''tlsSettings'', Object [(''serverName'', Text ''mayoiga''), (''pinnedPeerCertSha256'', Text (mpPinnedSHA256 m)),
               (''minVersion'', Text ''1.3'')])])]))"

definition dokodemoInbound :: "gostring \<Rightarrow> gostring \<Rightarrow> int \<Rightarrow> document" where
  "dokodemoInbound tag host port = Object
     [(''tag'', Text tag), (''listen'', Text host), (''port'', Number port), (''protocol'', Text ''dokodemo-door''),
      (''settings'', Object [(''address'', Text ''127.0.0.1''), (''port'', Number 1), (''network'', Text ''tcp'')])]"

definition freedomOutbound :: "gostring \<Rightarrow> mapping \<Rightarrow> document" where
  "freedomOutbound tag m = Object
     [(''tag'', Text tag), (''protocol'', Text ''freedom''), (''settings'', Object [(''redirect'', Text (mpTarget m))])]"

text \<open>One mapping: its inbound, its outbound and the rule that joins them.\<close>

definition renderMapping :: "mapping \<Rightarrow> renderError + document \<times> document \<times> document" where
  "renderMapping m =
     (case splitAddress (mpListen m) of
        Inl err \<Rightarrow> Inl (ListenUnusable (mpName m) err)
      | Inr (lh, lp) \<Rightarrow>
          let inTag = ''in-'' @ mpName m; outTag = ''out-'' @ mpName m;
              rule = Object [(''type'', Text ''field''), (''inboundTag'', Items [Text inTag]), (''outboundTag'', Text outTag)]
          in if mpKind m = ''pull'' then
               if mpTargetNode m \<noteq> '''' then Inl (AutomaticPull (mpName m))
               else (case vlessOutbound outTag m of
                       Inl err \<Rightarrow> Inl err
                     | Inr out \<Rightarrow> Inr (dokodemoInbound inTag lh lp, out, rule))
             else if mpKind m = ''publish'' then Inr (vlessInbound inTag lh lp m, freedomOutbound outTag m, rule)
             else (case vlessOutbound outTag m of
                     Inl err \<Rightarrow> Inl err
                   | Inr out \<Rightarrow> Inr (vlessInbound inTag lh lp m, out, rule)))"

fun renderMappings :: "mapping list \<Rightarrow> renderError + (document \<times> document \<times> document) list" where
  "renderMappings [] = Inr []"
| "renderMappings (m # ms) =
     (case renderMapping m of
        Inl err \<Rightarrow> Inl err
      | Inr part \<Rightarrow> (case renderMappings ms of Inl err \<Rightarrow> Inl err | Inr parts \<Rightarrow> Inr (part # parts)))"

definition renderXray :: "profile \<Rightarrow> renderError + document" where
  "renderXray p =
     (case renderMappings (pfMappings p) of
        Inl err \<Rightarrow> Inl err
      | Inr parts \<Rightarrow> Inr (Object
          [(''log'', Object [(''loglevel'', Text ''warning'')]),
           (''inbounds'', Items (map fst parts)),
           (''outbounds'', Items (map (fst \<circ> snd) parts)),
           (''routing'', Object [(''domainStrategy'', Text ''AsIs''), (''rules'', Items (map (snd \<circ> snd) parts))])]))"

section \<open>Both say the same\<close>

text \<open>What stands at a place of a document, where a list of one element is passed through.\<close>

fun at :: "gostring list \<Rightarrow> document \<Rightarrow> document option" where
  "at [] d = Some d"
| "at (k # ks) (Object ms) = (case map_of ms k of None \<Rightarrow> None | Some d \<Rightarrow> at ks d)"
| "at (k # ks) (Items [d]) = at (k # ks) d"
| "at (k # ks) d = None"

text \<open>A document says of an inbound and of an outbound what a configuration does; certificates are named
  by their files there and given by their contents here, the pin is text there and bytes here.\<close>

definition saysInbound :: "(gostring \<Rightarrow> gostring option) \<Rightarrow> document \<Rightarrow> xrayMapping \<Rightarrow> bool" where
  "saysInbound readFile d c \<longleftrightarrow>
     at [''tag''] d = Some (Text (xmInTag c)) \<and> at [''listen''] d = Some (Text (xmListen c)) \<and> at [''port''] d = Some (Number (xmPort c))
     \<and> (case xmInbound c of
          None \<Rightarrow> False
        | Some (DokodemoDoor address port) \<Rightarrow>
            at [''protocol''] d = Some (Text ''dokodemo-door'') \<and> at [''settings'', ''address''] d = Some (Text address)
            \<and> at [''settings'', ''port''] d = Some (Number port) \<and> at [''streamSettings''] d = None \<and> xmReceiver c = None
        | Some (VlessServer uuid decryption) \<Rightarrow>
            at [''protocol''] d = Some (Text ''vless'') \<and> at [''settings'', ''clients'', ''id''] d = Some (Text uuid)
            \<and> at [''settings'', ''decryption''] d = Some (Text decryption)
            \<and> (\<exists>certFile keyFile cert key stream.
                 at [''streamSettings'', ''tlsSettings'', ''certificates'', ''certificateFile''] d = Some (Text certFile)
                 \<and> at [''streamSettings'', ''tlsSettings'', ''certificates'', ''keyFile''] d = Some (Text keyFile)
                 \<and> readFile certFile = Some cert \<and> readFile keyFile = Some key
                 \<and> xmReceiver c = Some stream \<and> tlCertificate (stSecurity stream) = Some (cert, key)
                 \<and> at [''streamSettings'', ''network''] d = Some (Text (stProtocolName stream))
                 \<and> at [''streamSettings'', ''tlsSettings'', ''minVersion''] d = Some (Text (tlMinVersion (stSecurity stream)))
                 \<and> at [''streamSettings'', ''tlsSettings'', ''certificates'', ''oneTimeLoading''] d
                     = Some (Flag (tlOneTimeLoading (stSecurity stream)))))"

definition saysOutbound :: "document \<Rightarrow> xrayMapping \<Rightarrow> bool" where
  "saysOutbound d c \<longleftrightarrow>
     at [''tag''] d = Some (Text (xmOutTag c))
     \<and> (case xmOutbound c of
          None \<Rightarrow> False
        | Some (Freedom host port) \<Rightarrow>
            at [''protocol''] d = Some (Text ''freedom'') \<and> xmSender c = None
            \<and> (\<exists>target. at [''settings'', ''redirect''] d = Some (Text target) \<and> splitAddress target = Inr (host, port))
        | Some (VlessClient host port uuid encryption) \<Rightarrow>
            at [''protocol''] d = Some (Text ''vless'') \<and> at [''settings'', ''vnext'', ''address''] d = Some (Text host)
            \<and> at [''settings'', ''vnext'', ''port''] d = Some (Number port)
            \<and> at [''settings'', ''vnext'', ''users'', ''id''] d = Some (Text uuid)
            \<and> at [''settings'', ''vnext'', ''users'', ''encryption''] d = Some (Text encryption)
            \<and> (\<exists>stream pinText pin. xmSender c = Some stream \<and> tlPinnedPeerCertSha256 (stSecurity stream) = [pin]
                 \<and> at [''streamSettings'', ''network''] d = Some (Text (stProtocolName stream))
                 \<and> at [''streamSettings'', ''tlsSettings'', ''serverName''] d = Some (Text (tlServerName (stSecurity stream)))
                 \<and> at [''streamSettings'', ''tlsSettings'', ''minVersion''] d = Some (Text (tlMinVersion (stSecurity stream)))
                 \<and> at [''streamSettings'', ''tlsSettings'', ''pinnedPeerCertSha256''] d = Some (Text pinText)
                 \<and> hexDecode pinText = Some pin \<and> length pin = 32))"

definition saysRule :: "document \<Rightarrow> xrayMapping \<Rightarrow> bool" where
  "saysRule d c \<longleftrightarrow> at [''inboundTag''] d = Some (Items [Text (xmInTag c)]) \<and> at [''outboundTag''] d = Some (Text (xmOutTag c))"

lemma serverStream_ok:
  assumes "serverStream readFile m = Inr stream"
  obtains cert key where "readFile (mpCertificate m) = Some cert" "readFile (mpKey m) = Some key"
    "stream = streamConfig \<lparr>tlServerName = '''', tlMinVersion = ''1.3'', tlCertificate = Some (cert, key),
       tlOneTimeLoading = True, tlDisableSystemRoot = False, tlPinnedPeerCertSha256 = []\<rparr>"
  using assms by (auto simp: serverStream_def split: option.splits)

lemma typedVLESSOutbound_ok:
  assumes "typedVLESSOutbound m = Inr (outbound, sender)"
  obtains h p pin where "splitAddress (mpUpstream m) = Inr (h, p)" "outbound = VlessClient h p (upstreamUUID m) ''none''"
    "hexDecode (mpPinnedSHA256 m) = Some pin" "length pin = 32"
    "sender = streamConfig \<lparr>tlServerName = ''mayoiga'', tlMinVersion = ''1.3'', tlCertificate = None,
       tlOneTimeLoading = False, tlDisableSystemRoot = True, tlPinnedPeerCertSha256 = [pin]\<rparr>"
  using assms by (auto simp: typedVLESSOutbound_def clientStream_def split: sum.splits option.splits if_splits)

lemma vless_inbound_says:
  assumes "serverStream readFile m = Inr stream"
    and "xmInTag c = tag" "xmListen c = h" "xmPort c = p" "xmInbound c = Some (VlessServer (mpUUID m) ''none'')" "xmReceiver c = Some stream"
  shows "saysInbound readFile (vlessInbound tag h p m) c"
  using assms by (elim serverStream_ok) (simp add: saysInbound_def vlessInbound_def streamConfig_def)

lemma vless_outbound_says:
  assumes "typedVLESSOutbound m = Inr (outbound, sender)"
    and "xmOutTag c = tag" "xmOutbound c = Some outbound" "xmSender c = Some sender"
  shows "\<exists>out. vlessOutbound tag m = Inr out \<and> saysOutbound out c"
  using assms by (elim typedVLESSOutbound_ok) (simp add: saysOutbound_def vlessOutbound_def streamConfig_def)

lemma mapping_says:
  assumes "mappingConfig readFile m = Inr c" and "xmInbound c \<noteq> None" and "mpKind m = ''pull'' \<Longrightarrow> mpTargetNode m = ''''"
  shows "\<exists>i out rule. renderMapping m = Inr (i, out, rule) \<and> saysInbound readFile i c \<and> saysOutbound out c \<and> saysRule rule c"
proof -
  obtain lh lp where listen: "splitAddress (mpListen m) = Inr (lh, lp)"
    using assms(1) by (auto simp: mappingConfig_def split: sum.splits)
  have tags: "xmInTag c = ''in-'' @ mpName m" "xmOutTag c = ''out-'' @ mpName m" "xmListen c = lh" "xmPort c = lp"
    using assms(1) listen by (auto simp: mappingConfig_def Let_def split: sum.splits if_splits)
  consider (pull) "mpKind m = ''pull''" | (publish) "mpKind m = ''publish''" | (other) "mpKind m \<noteq> ''pull''" "mpKind m \<noteq> ''publish''" by blast
  then show ?thesis
  proof cases
    case pull
    with assms(1) listen obtain outbound sender where o: "typedVLESSOutbound m = Inr (outbound, sender)"
      and c: "xmInbound c = Some (DokodemoDoor ''127.0.0.1'' 1)" "xmReceiver c = None" "xmOutbound c = Some outbound" "xmSender c = Some sender"
      by (auto simp: mappingConfig_def split: sum.splits)
    from vless_outbound_says [OF o tags(2) c(3,4)] obtain out where "vlessOutbound (''out-'' @ mpName m) m = Inr out" "saysOutbound out c" by blast
    with pull listen c tags assms(3) show ?thesis
      by (simp add: renderMapping_def Let_def saysInbound_def dokodemoInbound_def saysRule_def)
  next
    case publish
    with assms(1,2) listen obtain h p stream where t: "splitAddress (mpTarget m) = Inr (h, p)" and s: "serverStream readFile m = Inr stream"
      and c: "xmInbound c = Some (VlessServer (mpUUID m) ''none'')" "xmReceiver c = Some stream" "xmOutbound c = Some (Freedom h p)" "xmSender c = None"
      by (auto simp: mappingConfig_def Let_def split: sum.splits)
    from publish listen t c tags vless_inbound_says [OF s tags(1,3,4) c(1,2)] show ?thesis
      by (simp add: renderMapping_def Let_def saysOutbound_def freedomOutbound_def saysRule_def)
  next
    case other
    with assms(1,2) listen obtain outbound sender stream where o: "typedVLESSOutbound m = Inr (outbound, sender)" and s: "serverStream readFile m = Inr stream"
      and c: "xmInbound c = Some (VlessServer (mpUUID m) ''none'')" "xmReceiver c = Some stream" "xmOutbound c = Some outbound" "xmSender c = Some sender"
      by (auto simp: mappingConfig_def Let_def split: sum.splits)
    from vless_outbound_says [OF o tags(2) c(3,4)] obtain out where "vlessOutbound (''out-'' @ mpName m) m = Inr out" "saysOutbound out c" by blast
    with other listen tags vless_inbound_says [OF s tags(1,3,4) c(1,2)] show ?thesis
      by (simp add: renderMapping_def Let_def saysRule_def)
  qed
qed

lemma mappings_say:
  assumes "list_all2 (\<lambda>m c. mappingConfig readFile m = Inr c \<and> xmInbound c \<noteq> None) ms configs"
    and "\<forall>m \<in> set ms. mpKind m = ''pull'' \<longrightarrow> mpTargetNode m = ''''"
  shows "\<exists>parts. renderMappings ms = Inr parts
    \<and> list_all2 (saysInbound readFile) (map fst parts) configs
    \<and> list_all2 saysOutbound (map (fst \<circ> snd) parts) configs
    \<and> list_all2 saysRule (map (snd \<circ> snd) parts) configs"
  using assms
proof (induction ms configs rule: list_all2_induct)
  case (Cons m ms c configs)
  from Cons(1) Cons(4) obtain i out rule where m: "renderMapping m = Inr (i, out, rule)" "saysInbound readFile i c"
    "saysOutbound out c" "saysRule rule c"
    using mapping_says [of readFile m c] by auto
  from Cons(3,4) obtain parts where "renderMappings ms = Inr parts" "list_all2 (saysInbound readFile) (map fst parts) configs"
    "list_all2 saysOutbound (map (fst \<circ> snd) parts) configs" "list_all2 saysRule (map (snd \<circ> snd) parts) configs"
    by (auto simp: comp_def)
  with m show ?case by (simp add: comp_def)
qed simp


section \<open>Valid mappings are served\<close>

lemma splitAddress_ok: "validateHostPort a = None \<Longrightarrow> \<exists>h p. splitAddress a = Inr (h, p)"
  by (auto simp: validateHostPort_def splitAddress_def split: sum.splits option.splits)

lemma clientStream_ok:
  "validSHA256Pin L (mpPinnedSHA256 m) \<Longrightarrow> normalizePin L (mpPinnedSHA256 m) = mpPinnedSHA256 m \<Longrightarrow> \<exists>stream. clientStream m = Inr stream"
  by (auto simp: validSHA256Pin_def clientStream_def split: option.splits)


text \<open>Validation accepts a pin with colons, as certificate tools print it, which the instance rejects.\<close>

definition colonPull :: mapping where
  "colonPull = zeroMapping\<lparr>mpName := ''web'', mpKind := ''pull'', mpListen := ''127.0.0.1:80'', mpUpstream := ''10.0.0.2:443'',
     mpUUID := ''u'', mpPinnedSHA256 := ''aa:'' @ replicate 62 (CHR ''a'')\<rparr>"

theorem pin_with_colons_is_not_served:
  "checkMapping sampleNodeLib (\<lambda>_. None) [] colonPull = None
   \<and> mappingConfig (\<lambda>_. None) colonPull = Inl (PinInvalid ''web'')"
  by code_simp

definition samplePublish :: mapping where
  "samplePublish = zeroMapping\<lparr>mpName := ''web'', mpKind := ''publish'', mpListen := ''0.0.0.0:443'', mpTarget := ''10.0.0.2:80'',
     mpUUID := ''u'', mpCertificate := ''/c'', mpKey := ''/k''\<rparr>"

definition sampleFiles :: "gostring \<Rightarrow> gostring option" where
  "sampleFiles name = (if name = ''/c'' then Some ''cert'' else if name = ''/k'' then Some ''key'' else None)"

definition publishConfig :: xrayMapping where
  "publishConfig = \<lparr>xmInTag = ''in-web'', xmListen = ''0.0.0.0'', xmPort = 443,
     xmReceiver = Some (streamConfig \<lparr>tlServerName = '''', tlMinVersion = ''1.3'', tlCertificate = Some (''cert'', ''key''),
       tlOneTimeLoading = True, tlDisableSystemRoot = False, tlPinnedPeerCertSha256 = []\<rparr>),
     xmInbound = Some (VlessServer ''u'' ''none''), xmOutTag = ''out-web'', xmSender = None, xmOutbound = Some (Freedom ''10.0.0.2'' 80)\<rparr>"

lemma samplePublish_config: "mappingConfig sampleFiles samplePublish = Inr publishConfig"
  by code_simp


definition plainPull :: mapping where
  "plainPull = colonPull\<lparr>mpPinnedSHA256 := replicate 64 (CHR ''a'')\<rparr>"


end
