(* ===== verification/Manager_Service.thy ===== *)
theory Manager_Service
  imports Node_Config
begin

text \<open>
  The service that runs the manager on Linux (src/internal/app/service_linux.go): its unit file and
  the calls of systemctl, with the retirement of the services earlier versions ran per node. What
  systemctl does is the environment's; the model records each call with its outcome, in order.
\<close>

section \<open>Calls and files\<close>

datatype serviceEvent =
    Systemctl "gostring list" bool
  | UnitWritten gostring
  | UnitAbsent
  | TemplateAbsent

datatype serviceError =
    NoHome
  | BinaryNotStaged
  | UnitNotStatted
  | UnitNotWritten
  | UnitNotRemoved
  | ReloadFailed
  | ReloadAfterRetiringFailed
  | NodesUnreadable
  | LegacyNodeNotDisabled gostring
  | TemplateNotRemoved
  | ServiceCommandFailed

text \<open>\<open>os.Remove\<close>, where a missing file is as good as a removed one.\<close>

datatype removal = Removed | WasMissing | RemovalFails

datatype statOutcome = StatFound | StatMissing | StatFails

text \<open>
  The home directory, the binary that was staged, what is found of the unit, of the nodes directory
  (\<open>ListingFails\<close> also when there is no configuration directory), and the exit of the \<open>n\<close>th call.
\<close>

record managerEnv =
  mvHome :: bool
  mvBinary :: "gostring option"
  mvUnit :: statOutcome
  mvWrites :: bool
  mvUnitRemoval :: removal
  mvTemplateRemoval :: removal
  mvNodes :: dirListing
  mvRun :: "nat \<Rightarrow> gostring list \<Rightarrow> bool"

definition systemctl :: "managerEnv \<Rightarrow> gostring list \<Rightarrow> serviceEvent list \<Rightarrow> bool \<times> serviceEvent list" where
  "systemctl E args events =
     (let ok = mvRun E (length events) args in (ok, events @ [Systemctl args ok]))"

section \<open>Installation\<close>

definition unitText :: "gostring \<Rightarrow> gostring" where
  "unitText bin = concat (map (\<lambda>line. line @ [CHR 0x0A])
     [''[Unit]'', ''Description=mayoiga node manager'', ''After=network-online.target'', '''',
      ''[Service]'', ''ExecStart='' @ bin @ '' --action service-run'', ''Restart=always'', ''RestartSec=3'',
      ''NoNewPrivileges=true'', ''PrivateTmp=true'', '''', ''[Install]'', ''WantedBy=default.target''])"

definition installManagerService :: "managerEnv \<Rightarrow> serviceError option \<times> serviceEvent list" where
  "installManagerService E =
     (case mvBinary E of
        None \<Rightarrow> (Some BinaryNotStaged, [])
      | Some bin \<Rightarrow>
          if \<not> mvHome E then (Some NoHome, [])
          else if \<not> mvWrites E then (Some UnitNotWritten, [])
          else case systemctl E [''--user'', ''daemon-reload''] [UnitWritten (unitText bin)] of
                 (ok, events) \<Rightarrow> (if ok then None else Some ReloadFailed, events))"

definition ensureManagerService :: "managerEnv \<Rightarrow> serviceError option \<times> serviceEvent list" where
  "ensureManagerService E =
     (if \<not> mvHome E then (Some NoHome, [])
      else case mvUnit E of
             StatFound \<Rightarrow> (None, [])
           | StatFails \<Rightarrow> (Some UnitNotStatted, [])
           | StatMissing \<Rightarrow> installManagerService E)"

section \<open>The services of earlier versions\<close>

definition legacyUnit :: "gostring \<Rightarrow> gostring" where
  "legacyUnit name = ''mayoiga@'' @ name @ ''.service''"

fun retireNodes :: "managerEnv \<Rightarrow> dirEntry list \<Rightarrow> serviceEvent list \<Rightarrow> serviceError option \<times> serviceEvent list" where
  "retireNodes E [] events = (None, events)"
| "retireNodes E (entry # entries) events =
     (if \<not> deIsDir entry \<or> validateInstance (deName entry) \<noteq> None then retireNodes E entries events
      else case systemctl E [''--user'', ''is-enabled'', ''--quiet'', legacyUnit (deName entry)] events of
        (enabled, events1) \<Rightarrow>
          (case systemctl E [''--user'', ''is-active'', ''--quiet'', legacyUnit (deName entry)] events1 of
            (active, events2) \<Rightarrow>
              if enabled \<or> active then
                (case systemctl E [''--user'', ''disable'', ''--now'', legacyUnit (deName entry)] events2 of
                   (True, events3) \<Rightarrow> retireNodes E entries events3
                 | (False, events3) \<Rightarrow> (Some (LegacyNodeNotDisabled (deName entry)), events3))
              else retireNodes E entries events2))"

definition retireLegacyNodeServices :: "managerEnv \<Rightarrow> serviceError option \<times> serviceEvent list" where
  "retireLegacyNodeServices E =
     (case mvNodes E of
        ListingFails \<Rightarrow> (Some NodesUnreadable, [])
      | listing \<Rightarrow>
          (case retireNodes E (case listing of Entries entries \<Rightarrow> entries | _ \<Rightarrow> []) [] of
             (Some err, events) \<Rightarrow> (Some err, events)
           | (None, events) \<Rightarrow>
               (case mvTemplateRemoval E of
                  RemovalFails \<Rightarrow> (Some TemplateNotRemoved, events)
                | _ \<Rightarrow> (None, events @ [TemplateAbsent]))))"

section \<open>Control and removal\<close>

definition managerArguments :: "gostring \<Rightarrow> gostring list" where
  "managerArguments action =
     (if action = ''start'' then [''--user'', ''enable'', ''--now'', ''mayoiga.service'']
      else [''--user'', action, ''mayoiga.service''])"

definition prepareStart :: "managerEnv \<Rightarrow> serviceError option \<times> serviceEvent list" where
  "prepareStart E =
     (if \<not> mvHome E then (Some NoHome, [])
      else case retireLegacyNodeServices E of
        (Some err, events) \<Rightarrow> (Some err, events)
      | (None, events) \<Rightarrow>
          (case systemctl E [''--user'', ''daemon-reload''] events of
             (ok, events') \<Rightarrow> (if ok then None else Some ReloadAfterRetiringFailed, events')))"

definition controlManagerService :: "managerEnv \<Rightarrow> gostring \<Rightarrow> serviceError option \<times> serviceEvent list" where
  "controlManagerService E action =
     (case (if action = ''start'' then prepareStart E else (None, [])) of
        (Some err, events) \<Rightarrow> (Some err, events)
      | (None, events) \<Rightarrow>
          (case systemctl E (managerArguments action) events of
             (ok, events') \<Rightarrow> (if ok then None else Some ServiceCommandFailed, events')))"

definition uninstallManagerService :: "managerEnv \<Rightarrow> serviceError option \<times> serviceEvent list" where
  "uninstallManagerService E =
     (case systemctl E [''--user'', ''disable'', ''--now'', ''mayoiga.service''] [] of
        (_, events) \<Rightarrow>
          if \<not> mvHome E then (Some NoHome, events)
          else case mvUnitRemoval E of
                 RemovalFails \<Rightarrow> (Some UnitNotRemoved, events)
               | _ \<Rightarrow> (case systemctl E [''--user'', ''daemon-reload''] (events @ [UnitAbsent]) of
                         (ok, events') \<Rightarrow> (if ok then None else Some ServiceCommandFailed, events')))"

section \<open>Nothing runs twice\<close>

text \<open>The calls show that the former service of a node is stopped and will not start again.\<close>

definition retired :: "serviceEvent list \<Rightarrow> gostring \<Rightarrow> bool" where
  "retired events name \<longleftrightarrow>
     Systemctl [''--user'', ''disable'', ''--now'', legacyUnit name] True \<in> set events
     \<or> Systemctl [''--user'', ''is-enabled'', ''--quiet'', legacyUnit name] False \<in> set events
       \<and> Systemctl [''--user'', ''is-active'', ''--quiet'', legacyUnit name] False \<in> set events"

definition nodeNames :: "dirListing \<Rightarrow> gostring set" where
  "nodeNames listing = (case listing of
     Entries entries \<Rightarrow> {deName e | e. e \<in> set entries \<and> deIsDir e \<and> validateInstance (deName e) = None} | _ \<Rightarrow> {})"

lemma retired_mono: "retired events name \<Longrightarrow> set events \<subseteq> set events' \<Longrightarrow> retired events' name"
  by (auto simp: retired_def)

text \<open>Calls that only look at a service or disable it were added.\<close>

definition retiring :: "serviceEvent list \<Rightarrow> serviceEvent list \<Rightarrow> bool" where
  "retiring events events' \<longleftrightarrow> set events \<subseteq> set events'
     \<and> (\<forall>ev \<in> set events'. ev \<in> set events \<or> (\<forall>rest ok. ev \<noteq> Systemctl (''--user'' # ''enable'' # rest) ok))"

lemma retiring_trans [trans]: "retiring a b \<Longrightarrow> retiring b c \<Longrightarrow> retiring a c"
  unfolding retiring_def by blast

lemma retiring_call:
  "systemctl E (''--user'' # verb # rest) events = (ok, events') \<Longrightarrow> verb \<noteq> ''enable'' \<Longrightarrow> retiring events events'"
  by (auto simp: systemctl_def retiring_def Let_def)

lemma call_recorded: "systemctl E args events = (ok, events') \<Longrightarrow> Systemctl args ok \<in> set events'"
  by (auto simp: systemctl_def Let_def)

lemma retired_later: "retired events name \<Longrightarrow> retiring events events' \<Longrightarrow> retired events' name"
  using retired_mono unfolding retiring_def by blast

lemma retireNodes_events:
  "retireNodes E entries events = (result, events') \<Longrightarrow>
     retiring events events'
     \<and> (result = None \<longrightarrow> (\<forall>e \<in> set entries. deIsDir e \<longrightarrow> validateInstance (deName e) = None \<longrightarrow> retired events' (deName e)))"
proof (induction E entries events arbitrary: result events' rule: retireNodes.induct)
  case (1 E events)
  then show ?case by (simp add: retiring_def)
next
  case (2 E entry entries events)
  obtain enabled events1 where c1: "systemctl E [''--user'', ''is-enabled'', ''--quiet'', legacyUnit (deName entry)] events = (enabled, events1)"
    by fastforce
  obtain active events2 where c2: "systemctl E [''--user'', ''is-active'', ''--quiet'', legacyUnit (deName entry)] events1 = (active, events2)"
    by fastforce
  obtain disabled events3 where c3: "systemctl E [''--user'', ''disable'', ''--now'', legacyUnit (deName entry)] events2 = (disabled, events3)"
    by fastforce
  have r1: "retiring events events1" and r2: "retiring events1 events2" and r3: "retiring events2 events3"
    using retiring_call [OF c1] retiring_call [OF c2] retiring_call [OF c3] by simp_all
  consider (skip) "\<not> deIsDir entry \<or> validateInstance (deName entry) \<noteq> None"
    | (idle) "deIsDir entry" "validateInstance (deName entry) = None" "\<not> enabled" "\<not> active"
    | (stopped) "deIsDir entry" "validateInstance (deName entry) = None" "enabled \<or> active" "disabled"
    | (failed) "deIsDir entry" "validateInstance (deName entry) = None" "enabled \<or> active" "\<not> disabled" by blast
  then show ?case
  proof cases
    case skip
    with 2(4) have "retireNodes E entries events = (result, events')" by auto
    with 2(1) [OF skip] skip show ?thesis by auto
  next
    case idle
    with 2(4) c1 c2 have run: "retireNodes E entries events2 = (result, events')" by simp
    note IH = 2(3) [OF _ c1 [symmetric] c2 [symmetric] _ run]
    have "retired events2 (deName entry)"
      using idle call_recorded [OF c1] call_recorded [OF c2] r2 by (auto simp: retired_def retiring_def)
    with IH idle have "retired events' (deName entry)" by (auto intro: retired_later)
    with IH idle retiring_trans [OF retiring_trans [OF r1 r2]] show ?thesis by simp
  next
    case stopped
    with 2(4) c1 c2 c3 have run: "retireNodes E entries events3 = (result, events')" by simp
    have IH: "retiring events3 events'
        \<and> (result = None \<longrightarrow> (\<forall>e \<in> set entries. deIsDir e \<longrightarrow> validateInstance (deName e) = None \<longrightarrow> retired events' (deName e)))"
      using 2(2) [of enabled events1 active events2 disabled events3 result events'] stopped run c1 c2 c3 by auto
    have "retired events3 (deName entry)" using stopped(4) call_recorded [OF c3] by (simp add: retired_def)
    with IH have "retired events' (deName entry)" by (auto intro: retired_later)
    with IH retiring_trans [OF retiring_trans [OF retiring_trans [OF r1 r2] r3]] show ?thesis by simp
  next
    case failed
    with 2(4) c1 c2 c3 have "events' = events3" "result \<noteq> None" by auto
    with retiring_trans [OF retiring_trans [OF r1 r2] r3] show ?thesis by auto
  qed
qed

definition listedNodes :: "managerEnv \<Rightarrow> dirEntry list" where
  "listedNodes E = (case mvNodes E of Entries entries \<Rightarrow> entries | _ \<Rightarrow> [])"

lemma retireLegacy_cases:
  assumes "retireLegacyNodeServices E = (result, events)" and "retireNodes E (listedNodes E) [] = (r1, events1)"
  obtains (ready) "result = None" "r1 = None" "mvNodes E \<noteq> ListingFails" "events = events1 @ [TemplateAbsent]"
  | (failed) "result \<noteq> None" "set events \<subseteq> set events1"
  using assms by (cases "mvNodes E"; cases "r1"; cases "mvTemplateRemoval E") (auto simp: retireLegacyNodeServices_def listedNodes_def)

lemma prepareStart_cases:
  assumes "prepareStart E = (result, events)" and "retireNodes E (listedNodes E) [] = (r1, events1)"
  obtains (ready) "result = None" "r1 = None" "mvNodes E \<noteq> ListingFails"
      "events = events1 @ [TemplateAbsent, Systemctl [''--user'', ''daemon-reload''] True]"
  | (failed) "result \<noteq> None" "set events \<subseteq> insert TemplateAbsent (insert (Systemctl [''--user'', ''daemon-reload''] False) (set events1))"
proof -
  obtain r2 events2 where r: "retireLegacyNodeServices E = (r2, events2)" by fastforce
  from r assms(2) show thesis
  proof (cases rule: retireLegacy_cases)
    case ready
    with assms(1) r that show thesis by (auto simp: prepareStart_def systemctl_def Let_def split: if_splits)
  next
    case failed
    with assms(1) r that(2) show thesis by (auto simp: prepareStart_def split: if_splits)
  qed
qed

text \<open>C37: The manager is enabled only after every node of the host was seen not to be run by a service of
  an earlier version, or was stopped and disabled there, the old template was removed and systemd
  reloaded; it is the last thing a start does, so no node is run by two services.\<close>

theorem start_retires_legacy_services:
  assumes "controlManagerService E ''start'' = (result, events)"
    and "Systemctl (managerArguments ''start'') ok \<in> set events"
  shows "\<exists>before. events = before @ [Systemctl (managerArguments ''start'') ok] \<and> (ok \<longleftrightarrow> result = None)
    \<and> TemplateAbsent \<in> set before \<and> Systemctl [''--user'', ''daemon-reload''] True \<in> set before
    \<and> (\<forall>name \<in> nodeNames (mvNodes E). retired before name)"
proof -
  obtain r1 ev1 where nodes: "retireNodes E (listedNodes E) [] = (r1, ev1)" by fastforce
  obtain r2 ev2 where prepared: "prepareStart E = (r2, ev2)" by fastforce
  note facts = retireNodes_events [OF nodes]
  from prepared nodes show ?thesis
  proof (cases rule: prepareStart_cases)
    case ready
    let ?args = "managerArguments ''start''"
    obtain ran where events: "events = ev2 @ [Systemctl ?args ran]" and ran: "ran \<longleftrightarrow> result = None"
      using assms(1) prepared ready(1) by (auto simp: controlManagerService_def systemctl_def Let_def split: if_splits)
    have "Systemctl ?args ok \<notin> set ev2" using facts ready(4) by (auto simp: managerArguments_def retiring_def)
    with assms(2) events have "ok = ran" by simp
    moreover have "retired ev2 name" if "name \<in> nodeNames (mvNodes E)" for name
      using facts ready retired_mono [of ev1 name ev2] that by (auto simp: nodeNames_def listedNodes_def split: dirListing.splits)
    ultimately show ?thesis using events ran ready(4) by auto
  next
    case failed
    then have "events = ev2" using assms(1) prepared by (auto simp: controlManagerService_def)
    with assms(2) failed(2) have "Systemctl (managerArguments ''start'') ok \<in> set ev1" by (auto simp: managerArguments_def)
    with facts have False unfolding managerArguments_def retiring_def by auto
    then show ?thesis ..
  qed
qed

text \<open>One node of the host is still run by a service of its own.\<close>

definition sampleManager :: managerEnv where
  "sampleManager = \<lparr>mvHome = True, mvBinary = Some ''/bin/mayoiga'', mvUnit = StatFound, mvWrites = True, mvUnitRemoval = Removed,
     mvTemplateRemoval = WasMissing,
     mvNodes = Entries [\<lparr>deName = ''home'', deIsDir = True, deBody = None, deProfile = NoFile\<rparr>], mvRun = (\<lambda>n args. True)\<rparr>"

theorem start_retires_legacy_services_witness:
  "\<exists>before. snd (controlManagerService sampleManager ''start'') = before @ [Systemctl (managerArguments ''start'') True]
     \<and> retired before ''home''"
proof -
  have "controlManagerService sampleManager ''start'' = (None, snd (controlManagerService sampleManager ''start''))"
    and "Systemctl (managerArguments ''start'') True \<in> set (snd (controlManagerService sampleManager ''start''))"
    and "validateInstance ''home'' = None"
    by code_simp+
  from start_retires_legacy_services [OF this(1,2)] this(3) show ?thesis
    by (auto simp: nodeNames_def sampleManager_def)
qed

end
