(* ===== verification/Node_Runtime.thy ===== *)
theory Node_Runtime
  imports Xray_Config Manager_Service "HOL-Library.Multiset"
begin

text \<open>
  Running one profile in the foreground (\<open>runProfile\<close>, src/internal/app/runtime.go), starting and
  stopping a managed node, the listing of the nodes of a host (node_manager.go) and the copy of the
  executable the service runs (service_stage.go). The listeners themselves, the signal and the
  processes are the environment.
\<close>

section \<open>Running a profile\<close>

datatype part =
    Pulling mapping
  | Embedded mapping
  | Relaying
  | Coordinating
  | ControlPlane

datatype runEvent = Started part | Closed part

datatype runEnd =
    NotLoaded profileError
  | NotStartedPart part
  | Interrupted
  | CoordinatorFailed

text \<open>Which listeners open, and which of the two ends the wait: a signal or an error of the coordinator.\<close>

record runEnv =
  rnMapping :: "nat \<Rightarrow> bool"
  rnRelay :: bool
  rnCoordinator :: bool
  rnCoordinatorFails :: bool

definition partOf :: "mapping \<Rightarrow> part" where
  "partOf m = (if mpKind m = ''pull'' \<and> mpTargetNode m \<noteq> '''' then Pulling m else Embedded m)"

text \<open>The loop over the mappings: the part that failed, if one did, and the parts that run.\<close>

fun startParts :: "runEnv \<Rightarrow> nat \<Rightarrow> mapping list \<Rightarrow> part list \<Rightarrow> part option \<times> part list" where
  "startParts E i [] running = (None, running)"
| "startParts E i (m # ms) running =
     (if rnMapping E i then startParts E (Suc i) ms (running @ [partOf m]) else (Some (partOf m), running))"

text \<open>
  The deferred calls run last in, first out: the control plane is cancelled, the coordinator shut
  down, then the instances are closed in the order they were started.
\<close>

definition runProfile :: "runEnv \<Rightarrow> profile fileState \<Rightarrow> runEnd \<times> runEvent list" where
  "runProfile E f =
     (case loadProfile f of
        Inl err \<Rightarrow> (NotLoaded err, [])
      | Inr p \<Rightarrow>
          (case startParts E 0 (pfMappings p) [] of
             (Some failed, running) \<Rightarrow> (NotStartedPart failed, map Started running @ map Closed running)
           | (None, running) \<Rightarrow>
               if pfRole p = ''relay'' \<and> \<not> rnRelay E
               then (NotStartedPart Relaying, map Started running @ map Closed running)
               else let instances = (if pfRole p = ''relay'' then running @ [Relaying] else running)
                    in if pfRole p = ''coordinator'' \<and> \<not> rnCoordinator E
                       then (NotStartedPart Coordinating, map Started instances @ map Closed instances)
                       else let coordinator = (if pfRole p = ''coordinator'' then [Coordinating] else []);
                                control = (if ccURL (pfCoordinator p) \<noteq> '''' then [ControlPlane] else [])
                            in (if pfRole p = ''coordinator'' \<and> rnCoordinatorFails E then CoordinatorFailed else Interrupted,
                                map Started (instances @ coordinator @ control) @ map Closed (control @ coordinator @ instances))))"

section \<open>Start, stop and removal\<close>

datatype runtimeError =
    NotManaged
  | NodeNotChanged disableError
  | OtherPlatform
  | ManagerNotStarted serviceError

text \<open>On Linux the manager is started, with the calls it takes; elsewhere the user starts it.\<close>

definition startNode ::
    "managerEnv option \<Rightarrow> writeOutcome \<Rightarrow> bool \<Rightarrow> profile slot \<Rightarrow> runtimeError option \<times> profile slot \<times> serviceEvent list" where
  "startNode linux outcome managed s =
     (if \<not> managed then (Some NotManaged, s, [])
      else case setNodeDisabled outcome False s of
        (Some err, s') \<Rightarrow> (Some (NodeNotChanged err), s', [])
      | (None, s') \<Rightarrow>
          (case linux of
             None \<Rightarrow> (Some OtherPlatform, s', [])
           | Some E \<Rightarrow>
               (case controlManagerService E ''start'' of
                  (result, events) \<Rightarrow> (map_option ManagerNotStarted result, s', events))))"

definition stopNode :: "writeOutcome \<Rightarrow> bool \<Rightarrow> profile slot \<Rightarrow> runtimeError option \<times> profile slot" where
  "stopNode outcome managed s =
     (if \<not> managed then (Some NotManaged, s)
      else case setNodeDisabled outcome True s of (result, s') \<Rightarrow> (map_option NodeNotChanged result, s'))"

lemma stopped_node_is_disabled:
  assumes "stopNode outcome managed s = (None, s')" and "slotFile s \<noteq> NoFile"
  shows "\<exists>p. loadProfile (slotFile s) = Inr p \<and> slotFile s' = Holds (p\<lparr>pfDisabled := True\<rparr>)"
proof -
  from assms(1) have "setNodeDisabled outcome True s = (None, s')" by (auto simp: stopNode_def split: if_splits prod.splits)
  then obtain p where p: "loadProfile (slotFile s) = Inr p"
    and d: "if pfDisabled p then s' = s else saveProfile outcome (p\<lparr>pfDisabled := True\<rparr>) s = (True, s')"
    by (auto simp: setNodeDisabled_def split: sum.splits if_splits bool.splits prod.splits)
  show ?thesis
  proof (cases "pfDisabled p")
    case True
    moreover from p assms(2) have "slotFile s = Holds p"
      by (auto simp: loadProfile_def readJSON_def split: fileState.splits if_splits)
    moreover from True have "p\<lparr>pfDisabled := True\<rparr> = p" by simp
    ultimately show ?thesis using d p by auto
  next
    case False
    with d have "slotFile (snd (replaceFile outcome (p\<lparr>pfDisabled := True\<rparr>) s)) = slotFile s'" "fst (replaceFile outcome (p\<lparr>pfDisabled := True\<rparr>) s)"
      by (simp_all add: saveProfile_def)
    with p show ?thesis by (simp add: replaceFile_file)
  qed
qed

section \<open>The nodes of the host\<close>

definition nodeAuth :: "profile \<Rightarrow> gostring" where
  "nodeAuth p =
     (if ccCredential (pfCoordinator p) \<noteq> None then ''credential''
      else case ccEnrollment (pfCoordinator p) of
             None \<Rightarrow> ''none''
           | Some e \<Rightarrow> if esStatus e = '''' then ''pending'' else esStatus e)"

record nodeItem =
  niInstance :: gostring
  niName :: gostring
  niRole :: gostring
  niNetwork :: gostring
  niSegment :: gostring
  niAuth :: gostring
  niService :: gostring
  niMappings :: nat

definition nodeItemOf :: "dirEntry \<Rightarrow> nodeItem option" where
  "nodeItemOf e =
     (if \<not> deIsDir e \<or> validateInstance (deName e) \<noteq> None then None
      else case loadProfile (deProfile e) of
             Inl _ \<Rightarrow> None
           | Inr p \<Rightarrow> Some \<lparr>niInstance = deName e, niName = nfName (pfNode p), niRole = pfRole p, niNetwork = pfVirtualNetwork p,
               niSegment = pfSegment p, niAuth = nodeAuth p, niService = (if pfDisabled p then ''disabled'' else ''enabled''),
               niMappings = length (pfMappings p)\<rparr>)"

definition listNodes :: "dirEntry list \<Rightarrow> nodeItem list" where
  "listNodes entries = sortBy niInstance (List.map_filter nodeItemOf entries)"

section \<open>The executable of the service\<close>

text \<open>How far the copy gets; a failed copy leaves what it wrote so far, which is removed.\<close>

datatype copyOutcome = NothingOpened | CopyFails gostring | CloseFails | NotRenamed | Copied

record stage =
  sgBinary :: "gostring option"
  sgStaged :: "gostring option"

definition stageManagedBinary :: "gostring \<Rightarrow> copyOutcome \<Rightarrow> stage \<Rightarrow> bool \<times> stage" where
  "stageManagedBinary source outcome s =
     (case outcome of
        NothingOpened \<Rightarrow> (False, s)
      | CopyFails part \<Rightarrow> (False, (s\<lparr>sgStaged := Some part\<rparr>)\<lparr>sgStaged := None\<rparr>)
      | CloseFails \<Rightarrow> (False, (s\<lparr>sgStaged := Some source\<rparr>)\<lparr>sgStaged := None\<rparr>)
      | NotRenamed \<Rightarrow> (False, (s\<lparr>sgStaged := Some source\<rparr>)\<lparr>sgStaged := None\<rparr>)
      | Copied \<Rightarrow> (True, (s\<lparr>sgStaged := Some source\<rparr>)\<lparr>sgBinary := Some source, sgStaged := None\<rparr>))"

section \<open>What is started is closed\<close>

definition startedParts :: "runEvent list \<Rightarrow> part list" where
  "startedParts events = List.map_filter (\<lambda>ev. case ev of Started x \<Rightarrow> Some x | Closed x \<Rightarrow> None) events"

definition closedParts :: "runEvent list \<Rightarrow> part list" where
  "closedParts events = List.map_filter (\<lambda>ev. case ev of Started x \<Rightarrow> None | Closed x \<Rightarrow> Some x) events"

lemma startedParts_simps [simp]:
  "startedParts [] = []" "startedParts (Started x # evs) = x # startedParts evs" "startedParts (Closed x # evs) = startedParts evs"
  by (simp_all add: startedParts_def map_filter_simps)

lemma closedParts_simps [simp]:
  "closedParts [] = []" "closedParts (Started x # evs) = closedParts evs" "closedParts (Closed x # evs) = x # closedParts evs"
  by (simp_all add: closedParts_def map_filter_simps)

lemma parts_append [simp]:
  "startedParts (xs @ ys) = startedParts xs @ startedParts ys" "closedParts (xs @ ys) = closedParts xs @ closedParts ys"
proof -
  have "startedParts (xs @ ys) = startedParts xs @ startedParts ys \<and> closedParts (xs @ ys) = closedParts xs @ closedParts ys"
  proof (induction xs)
    case (Cons ev xs)
    then show ?case by (cases ev) simp_all
  qed simp
  then show "startedParts (xs @ ys) = startedParts xs @ startedParts ys" "closedParts (xs @ ys) = closedParts xs @ closedParts ys"
    by blast+
qed

lemma parts_map [simp]:
  "startedParts (map Started xs) = xs" "startedParts (map Closed xs) = []"
  "closedParts (map Started xs) = []" "closedParts (map Closed xs) = xs"
  by (induction xs) simp_all

lemma balanced:
  assumes "mset ys = mset xs"
  shows "mset (closedParts (take k (map Started xs @ map Closed ys))) \<subseteq># mset (startedParts (take k (map Started xs @ map Closed ys)))"
proof (cases "k < length xs")
  case True
  then show ?thesis by (simp add: take_map)
next
  case False
  have "mset (take (k - length xs) ys) \<subseteq># mset ys"
    by (metis append_take_drop_id mset_append mset_subset_eq_add_left)
  with False assms show ?thesis by (simp add: take_map)
qed

lemma startParts_result:
  "startParts E i ms running = (failed, running') \<Longrightarrow>
   \<exists>n. running' = running @ map partOf (take n ms) \<and> (failed = None \<longrightarrow> n = length ms)"
proof (induction E i ms running rule: startParts.induct)
  case (1 E i running)
  then show ?case by auto
next
  case (2 E i m ms running)
  show ?case
  proof (cases "rnMapping E i")
    case True
    with 2 obtain n where "running' = running @ [partOf m] @ map partOf (take n ms)" "failed = None \<longrightarrow> n = length ms" by auto
    then show ?thesis by (intro exI [of _ "Suc n"]) auto
  next
    case False
    with 2 show ?thesis by (intro exI [of _ 0]) auto
  qed
qed

lemma run_shape:
  "\<exists>xs ys. snd (runProfile E f) = map Started xs @ map Closed ys \<and> mset ys = mset xs"
proof (cases "loadProfile f")
  case (Inl err)
  then show ?thesis by (auto simp: runProfile_def)
next
  case (Inr p)
  obtain failed running where s: "startParts E 0 (pfMappings p) [] = (failed, running)" by fastforce
  let ?instances = "if pfRole p = ''relay'' then running @ [Relaying] else running"
  let ?coordinator = "if pfRole p = ''coordinator'' then [Coordinating] else []"
  let ?control = "if ccURL (pfCoordinator p) \<noteq> '''' then [ControlPlane] else []"
  have "snd (runProfile E f) \<in> {map Started running @ map Closed running, map Started ?instances @ map Closed ?instances,
      map Started (?instances @ ?coordinator @ ?control) @ map Closed (?control @ ?coordinator @ ?instances)}"
    by (cases failed) (simp_all add: runProfile_def Inr s Let_def)
  moreover have "mset (?control @ ?coordinator @ ?instances) = mset (?instances @ ?coordinator @ ?control)" by simp
  ultimately show ?thesis by (metis (no_types, lifting) insertE singletonD empty_iff)
qed

text \<open>C36: However the run of a profile ends, each listener and worker that was started is closed exactly
  once, nothing is closed before it was started, and a run that reached its wait had started every
  mapping of the profile, in order, and what its role needs.\<close>

theorem run_closes_what_it_starts:
  "case runProfile E f of (result, events) \<Rightarrow>
     mset (closedParts events) = mset (startedParts events)
     \<and> (\<forall>k. mset (closedParts (take k events)) \<subseteq># mset (startedParts (take k events)))
     \<and> (result = Interrupted \<or> result = CoordinatorFailed \<longrightarrow>
          (\<exists>p. loadProfile f = Inr p \<and> take (length (pfMappings p)) (startedParts events) = map partOf (pfMappings p)
             \<and> (pfRole p = ''relay'' \<longrightarrow> Relaying \<in> set (startedParts events))
             \<and> (pfRole p = ''coordinator'' \<longrightarrow> Coordinating \<in> set (startedParts events))
             \<and> (ccURL (pfCoordinator p) \<noteq> '''' \<longrightarrow> ControlPlane \<in> set (startedParts events))))"
proof -
  obtain result events where r: "runProfile E f = (result, events)" by fastforce
  obtain xs ys where shape: "events = map Started xs @ map Closed ys" "mset ys = mset xs"
    using run_shape [of E f] r by auto
  have "\<exists>p. loadProfile f = Inr p \<and> take (length (pfMappings p)) (startedParts events) = map partOf (pfMappings p)
      \<and> (pfRole p = ''relay'' \<longrightarrow> Relaying \<in> set (startedParts events))
      \<and> (pfRole p = ''coordinator'' \<longrightarrow> Coordinating \<in> set (startedParts events))
      \<and> (ccURL (pfCoordinator p) \<noteq> '''' \<longrightarrow> ControlPlane \<in> set (startedParts events))"
    if "result = Interrupted \<or> result = CoordinatorFailed"
  proof (cases "loadProfile f")
    case (Inl err)
    with r that show ?thesis by (auto simp: runProfile_def)
  next
    case p: (Inr p)
    obtain failed running where s: "startParts E 0 (pfMappings p) [] = (failed, running)" by fastforce
    from r that have none: "failed = None" by (auto simp: runProfile_def p s split: option.splits)
    with startParts_result [OF s] have "running = map partOf (pfMappings p)" by auto
    with r that show ?thesis
      by (auto simp: runProfile_def p s none Let_def simp del: map_map split: if_splits)
  qed
  with shape balanced [OF shape(2)] show ?thesis by (simp add: r)
qed

section \<open>The copy is atomic\<close>

lemma staging_is_atomic:
  assumes "stageManagedBinary source outcome s = (ok, s')"
  shows "(ok \<longrightarrow> sgBinary s' = Some source) \<and> (\<not> ok \<longrightarrow> sgBinary s' = sgBinary s)
    \<and> (sgStaged s' = None \<or> s' = s)"
  using assms by (cases outcome) (auto simp: stageManagedBinary_def)

text \<open>The second of two mappings cannot listen: the first one is closed again.\<close>

definition twoMappings :: profile where
  "twoMappings = zeroProfile\<lparr>pfVersion := profileVersion, pfRole := ''client'', pfMappings := [samplePublish, plainPull]\<rparr>"

definition sampleRun :: "runEnd \<times> runEvent list" where
  "sampleRun = runProfile \<lparr>rnMapping = (\<lambda>i. i = 0), rnRelay = True, rnCoordinator = True, rnCoordinatorFails = False\<rparr> (Holds twoMappings)"

theorem run_closes_what_it_starts_witness: "mset (closedParts (snd sampleRun)) = {#Embedded samplePublish#}"
proof -
  have "loadProfile (Holds twoMappings) = Inr twoMappings"
    by (rule loadProfile_Holds) (simp_all add: twoMappings_def validNodeRole_def)
  then have run: "sampleRun = (NotStartedPart (partOf plainPull), [Started (partOf samplePublish), Closed (partOf samplePublish)])"
    by (simp add: sampleRun_def runProfile_def twoMappings_def)
  have "partOf samplePublish = Embedded samplePublish" by (simp add: partOf_def samplePublish_def)
  with run run_closes_what_it_starts [where f = "Holds twoMappings" and
      E = "\<lparr>rnMapping = (\<lambda>i. i = 0), rnRelay = True, rnCoordinator = True, rnCoordinatorFails = False\<rparr>"]
  show ?thesis by (simp add: sampleRun_def)
qed

end
