(* ===== verification/Commands.thy ===== *)
theory Commands
  imports Node_Config
begin

text \<open>
  The command line: the actions it dispatches (\<open>execute\<close>, src/internal/app/main.go) and the menu that
  fills in the options when no action was given (\<open>interactive\<close>, interactive.go). The lines printed
  are left out; the parsing of flags is the flag package.
\<close>

section \<open>Dispatch\<close>

record commandLine = options +
  clAction :: gostring
  clConfig :: gostring
  clOutput :: gostring
  clDeviceCode :: gostring
  clRequestID :: gostring
  clIdempotencyKey :: gostring
  clReason :: gostring
  clNodeID :: gostring
  clManagerDir :: gostring
  clHandshakeStatus :: int
  clYes :: bool
  clReplaceExisting :: bool

text \<open>The commands with the options they are called with; \<open>managed\<close> is \<open>o.config == ""\<close>.\<close>

datatype command =
    ListNodes
  | InstallService
  | RunService gostring
  | ControlService gostring
  | UninstallService
  | InstallNode gostring bool
  | ShowStatus gostring
  | StartNode gostring gostring bool
  | StopNode gostring bool
  | DeleteNode gostring gostring bool
  | AddMapping gostring
  | RemoveMapping gostring gostring
  | Render gostring gostring
  | PrintPeers gostring
  | ListHandshakes gostring int
  | ListAudit gostring
  | Approve gostring gostring bool
  | Reject gostring gostring gostring
  | Revoke gostring gostring
  | Sync gostring
  | RequestConnection gostring
  | ConnectionStatus gostring gostring bool
  | PrintInbox gostring
  | DecideConnection gostring gostring gostring gostring
  | RunProfile gostring

datatype executeError = NoProfilePath | YesRequired | UnknownAction gostring

definition serviceCommand :: "commandLine \<Rightarrow> command option" where
  "serviceCommand o1 =
     (let action = clAction o1
      in if action = ''list-nodes'' then Some ListNodes
         else if action = ''service-install'' then Some InstallService
         else if action = ''service-run'' then Some (RunService (clManagerDir o1))
         else if action = ''service-start'' then Some (ControlService ''start'')
         else if action = ''service-stop'' then Some (ControlService ''stop'')
         else if action = ''service-status'' then Some (ControlService ''status'')
         else if action = ''service-uninstall'' then Some UninstallService
         else None)"

definition nodeCommand :: "commandLine \<Rightarrow> gostring \<Rightarrow> executeError + command" where
  "nodeCommand o1 p =
     (let action = clAction o1; managed = (clConfig o1 = '''')
      in if action = ''add-node'' then Inr (InstallNode p False)
         else if action = ''configure-node'' then Inr (InstallNode p True)
         else if action = ''status'' then Inr (ShowStatus p)
         else if action = ''start'' then Inr (StartNode (opInstance o1) p managed)
         else if action = ''stop'' then Inr (StopNode p managed)
         else if action = ''delete-node'' then (if \<not> clYes o1 then Inl YesRequired else Inr (DeleteNode (opInstance o1) p managed))
         else if action = ''add'' then Inr (AddMapping p)
         else if action = ''remove'' then Inr (RemoveMapping (opName o1) p)
         else if action = ''render'' then Inr (Render p (clOutput o1))
         else if action = ''nodes'' then Inr (PrintPeers p)
         else if action = ''handshakes'' then Inr (ListHandshakes p (clHandshakeStatus o1))
         else if action = ''audit'' then Inr (ListAudit p)
         else if action = ''approve'' then Inr (Approve p (clDeviceCode o1) (clReplaceExisting o1))
         else if action = ''reject'' then Inr (Reject p (clDeviceCode o1) (clReason o1))
         else if action = ''revoke'' then Inr (Revoke p (clNodeID o1))
         else if action = ''sync'' then Inr (Sync p)
         else if action = ''request-connection'' then Inr (RequestConnection p)
         else if action = ''wait-connection'' then Inr (ConnectionStatus p (clRequestID o1) True)
         else if action = ''connection-status'' then Inr (ConnectionStatus p (clRequestID o1) False)
         else if action = ''connection-inbox'' then Inr (PrintInbox p)
         else if action = ''accept-connection'' then Inr (DecideConnection p (clRequestID o1) ''accept'' (clReason o1))
         else if action = ''reject-connection'' then Inr (DecideConnection p (clRequestID o1) ''reject'' (clReason o1))
         else if action = ''cancel-connection'' then Inr (DecideConnection p (clRequestID o1) ''cancel'' (clReason o1))
         else if action = ''run'' then Inr (RunProfile p)
         else Inl (UnknownAction action))"

definition execute :: "(gostring \<Rightarrow> gostring \<Rightarrow> gostring option) \<Rightarrow> commandLine \<Rightarrow> executeError + command" where
  "execute profilePath o1 =
     (case serviceCommand o1 of
        Some c \<Rightarrow> Inr c
      | None \<Rightarrow> (case profilePath (clConfig o1) (opInstance o1) of None \<Rightarrow> Inl NoProfilePath | Some p \<Rightarrow> nodeCommand o1 p))"

section \<open>The menu\<close>

text \<open>The lines still to be read, and the options so far; past the end of the input every line is empty.\<close>

record menu =
  mnLines :: "gostring list"
  mnOptions :: commandLine

datatype menuError =
    InvalidAction
  | InstanceRefused gostring
  | NodeNotLoaded profileError
  | InvalidRole
  | NotAnInteger gostring
  | InvalidPriority

definition nextLine :: "menu \<Rightarrow> gostring \<times> menu" where
  "nextLine M = (case mnLines M of [] \<Rightarrow> ('''', M) | line # rest \<Rightarrow> (line, M\<lparr>mnLines := rest\<rparr>))"

abbreviation setting :: "(commandLine \<Rightarrow> commandLine) \<Rightarrow> menu \<Rightarrow> menu" where
  "setting f M \<equiv> M\<lparr>mnOptions := f (mnOptions M)\<rparr>"

definition askEdit :: "gostring \<Rightarrow> (gostring \<Rightarrow> commandLine \<Rightarrow> commandLine) \<Rightarrow> menu \<Rightarrow> menu" where
  "askEdit flag store M =
     (case nextLine M of (line, M') \<Rightarrow>
        let value = trimSpace line
        in if value = '''' then M'
           else setting (\<lambda>o1. opSet_update (Cons flag) (store (if value = ''-'' then '''' else value) o1)) M')"

definition askIntEdit :: "gostring \<Rightarrow> (int \<Rightarrow> commandLine \<Rightarrow> commandLine) \<Rightarrow> menu \<Rightarrow> menuError + menu" where
  "askIntEdit flag store M =
     (case nextLine M of (line, M') \<Rightarrow>
        let value = trimSpace line
        in if value = '''' then Inr M'
           else case parseInt64 value of
                  (n, None) \<Rightarrow> Inr (setting (\<lambda>o1. opSet_update (Cons flag) (store n o1)) M')
                | (_, Some _) \<Rightarrow> Inl (NotAnInteger flag))"

definition askPriority :: "menu \<Rightarrow> menuError + menu" where
  "askPriority M =
     (case askIntEdit ''relay-priority'' (\<lambda>n. opRelayPriority_update (\<lambda>_. n)) M of
        Inl _ \<Rightarrow> Inl InvalidPriority
      | Inr M' \<Rightarrow> Inr M')"

definition askLine :: "(gostring \<Rightarrow> commandLine \<Rightarrow> commandLine) \<Rightarrow> menu \<Rightarrow> menu" where
  "askLine store M = (case nextLine M of (line, M') \<Rightarrow> setting (store line) M')"

definition ask :: "(gostring \<Rightarrow> commandLine \<Rightarrow> commandLine) \<Rightarrow> menu \<Rightarrow> menu" where
  "ask store = askLine (\<lambda>line. store (trimSpace line))"

definition menuActions :: "(gostring \<times> gostring) list" where
  "menuActions =
     [(''1'', ''add-node''), (''2'', ''list-nodes''), (''3'', ''configure-node''), (''4'', ''delete-node''), (''5'', ''status''),
      (''6'', ''start''), (''7'', ''stop''), (''8'', ''sync''), (''9'', ''nodes''), (''10'', ''add''), (''11'', ''remove''),
      (''12'', ''handshakes''), (''13'', ''audit''), (''14'', ''approve''), (''15'', ''reject''), (''16'', ''revoke''),
      (''17'', ''request-connection''), (''18'', ''wait-connection''), (''19'', ''connection-status''), (''20'', ''connection-inbox''),
      (''21'', ''accept-connection''), (''22'', ''reject-connection''), (''23'', ''cancel-connection''),
      (''24'', ''service-install''), (''25'', ''service-run''), (''26'', ''service-start''), (''27'', ''service-stop''),
      (''28'', ''service-status''), (''29'', ''service-uninstall''), (''30'', ''quit'')]"

text \<open>\<open>strings.EqualFold(s, "yes")\<close>: the long s (U+017F) folds to s as well.\<close>

definition foldsToYes :: "gostring \<Rightarrow> bool" where
  "foldsToYes s \<longleftrightarrow> map lowerChar s = ''yes''
     \<or> length s = 4 \<and> map lowerChar (take 2 s) = ''ye'' \<and> drop 2 s = [CHR 0xC5, CHR 0xBF]"

section \<open>Editing a node\<close>

text \<open>The options start from the profile that is configured.\<close>

definition prefill :: "profile \<Rightarrow> commandLine \<Rightarrow> commandLine" where
  "prefill p o1 = o1\<lparr>
     opRole := pfRole p, opNodeName := nfName (pfNode p), opNetwork := pfVirtualNetwork p, opSegment := pfSegment p,
     opCoordinator := ccURL (pfCoordinator p), opCoordinatorPin := ccPinnedSHA256 (pfCoordinator p),
     opListen := svrListen (pfServer p), opAdminListen := svrAdminListen (pfServer p),
     opTransitListen := rcListen (pfRelay p), opTransitEndpoint := rcEndpoint (pfRelay p), opRelayPriority := rcPriority (pfRelay p),
     opUpstreamRelayNode := scRelayNodeID (pfSubnode p), opUpstreamRelayEndpoint := scRelayEndpoint (pfSubnode p),
     opUpstreamRelayPin := scRelayPinnedSHA256 (pfSubnode p), opUpstreamRelayToken := scRelayToken (pfSubnode p),
     opConnectionWaitSeconds := svrConnectionWaitSeconds (pfServer p),
     opConnectionTTLSeconds := svrConnectionRequestTTLSeconds (pfServer p),
     opConnectionLeaseSeconds := svrConnectionOfferLeaseSeconds (pfServer p),
     opConnectionMaxPending := svrConnectionMaxPending (pfServer p)\<rparr>"

definition askRole :: "menu \<Rightarrow> menuError + menu" where
  "askRole M =
     (case nextLine M of (line, M') \<Rightarrow>
        let chosen = map_of [(''1'', ''client''), (''2'', ''relay''), (''3'', ''subnode''), (''4'', ''coordinator'')] (trimSpace line);
            M'' = (case chosen of None \<Rightarrow> M' | Some role \<Rightarrow> setting (\<lambda>o1. o1\<lparr>opRole := role, opSet := ''role'' # opSet o1\<rparr>) M')
        in if opRole (mnOptions M'') = '''' then Inl InvalidRole else Inr M'')"

definition editCoordinator :: "menu \<Rightarrow> menuError + menu" where
  "editCoordinator M =
     andThen (askIntEdit ''connection-wait-seconds'' (\<lambda>n. opConnectionWaitSeconds_update (\<lambda>_. n))
        (askEdit ''admin-listen'' (\<lambda>v. opAdminListen_update (\<lambda>_. v)) (askEdit ''listen'' (\<lambda>v. opListen_update (\<lambda>_. v)) M))) (\<lambda>M.
     andThen (askIntEdit ''connection-request-ttl-seconds'' (\<lambda>n. opConnectionTTLSeconds_update (\<lambda>_. n)) M) (\<lambda>M.
     andThen (askIntEdit ''connection-offer-lease-seconds'' (\<lambda>n. opConnectionLeaseSeconds_update (\<lambda>_. n)) M) (\<lambda>M.
     askIntEdit ''connection-max-pending'' (\<lambda>n. opConnectionMaxPending_update (\<lambda>_. n)) M)))"

definition editSubnode :: "menu \<Rightarrow> menu" where
  "editSubnode M =
     askEdit ''upstream-relay-token'' (\<lambda>v. opUpstreamRelayToken_update (\<lambda>_. v))
      (askEdit ''upstream-relay-pin'' (\<lambda>v. opUpstreamRelayPin_update (\<lambda>_. v))
        (askEdit ''upstream-relay-endpoint'' (\<lambda>v. opUpstreamRelayEndpoint_update (\<lambda>_. v))
          (askEdit ''upstream-relay-node'' (\<lambda>v. opUpstreamRelayNode_update (\<lambda>_. v)) M)))"

definition editMembership :: "menu \<Rightarrow> menu" where
  "editMembership M =
     (let M1 = askEdit ''coordinator'' (\<lambda>v. opCoordinator_update (\<lambda>_. v)) M
      in if opCoordinator (mnOptions M1) \<noteq> '''' then askEdit ''coordinator-pin'' (\<lambda>v. opCoordinatorPin_update (\<lambda>_. v)) M1 else M1)"

definition editMember :: "menu \<Rightarrow> menuError + menu" where
  "editMember M =
     andThen (if opRole (mnOptions M) = ''relay''
              then askPriority (askEdit ''transit-endpoint'' (\<lambda>v. opTransitEndpoint_update (\<lambda>_. v))
                     (askEdit ''transit-listen'' (\<lambda>v. opTransitListen_update (\<lambda>_. v)) M))
              else Inr M)
       (\<lambda>M. Inr (editMembership (if opRole (mnOptions M) = ''subnode'' then editSubnode M else M)))"

definition editNode :: "menu \<Rightarrow> menuError + menu" where
  "editNode M =
     andThen (askRole M) (\<lambda>M.
       let M1 = askEdit ''segment'' (\<lambda>v. opSegment_update (\<lambda>_. v))
                  (askEdit ''network'' (\<lambda>v. opNetwork_update (\<lambda>_. v)) (askEdit ''node-name'' (\<lambda>v. opNodeName_update (\<lambda>_. v)) M))
       in if opRole (mnOptions M1) = ''coordinator'' then editCoordinator M1 else editMember M1)"

section \<open>The other actions\<close>

definition askDecision :: "gostring \<Rightarrow> menu \<Rightarrow> menu" where
  "askDecision action M =
     (let M1 = ask (\<lambda>v. clDeviceCode_update (\<lambda>_. v)) M
      in if action = ''approve'' then ask (\<lambda>v. clReplaceExisting_update (\<lambda>_. foldsToYes v)) M1
         else ask (\<lambda>v. clReason_update (\<lambda>_. v)) M1)"

definition askMapping :: "menu \<Rightarrow> menu" where
  "askMapping M =
     (let M1 = askLine (\<lambda>v. opListen_update (\<lambda>_. v)) (askLine (\<lambda>v. opName_update (\<lambda>_. v)) (askLine (\<lambda>v. opKind_update (\<lambda>_. v)) M))
      in if opKind (mnOptions M1) = ''publish'' then askLine (\<lambda>v. opTarget_update (\<lambda>_. v)) M1
         else askLine (\<lambda>v. opService_update (\<lambda>_. v)) (askLine (\<lambda>v. opTargetNode_update (\<lambda>_. v)) M1))"

definition askRequest :: "gostring \<Rightarrow> menu \<Rightarrow> menu" where
  "askRequest action M =
     (let M1 = (if action \<in> {''wait-connection'', ''connection-status'', ''accept-connection'', ''reject-connection'', ''cancel-connection''}
                then ask (\<lambda>v. clRequestID_update (\<lambda>_. v)) M else M)
      in if action = ''reject-connection'' \<or> action = ''cancel-connection'' then ask (\<lambda>v. clReason_update (\<lambda>_. v)) M1 else M1)"

definition askArguments :: "gostring \<Rightarrow> menu \<Rightarrow> menu" where
  "askArguments action M =
     (if action = ''approve'' \<or> action = ''reject'' then askDecision action M
      else if action = ''revoke'' then ask (\<lambda>v. clNodeID_update (\<lambda>_. v)) M
      else if action = ''add'' then askMapping M
      else if action = ''remove'' then askLine (\<lambda>v. opName_update (\<lambda>_. v)) M
      else if action = ''request-connection'' then ask (\<lambda>v. opService_update (\<lambda>_. v)) (ask (\<lambda>v. opTargetNode_update (\<lambda>_. v)) M)
      else if action = ''delete-node'' then askLine (\<lambda>v. clYes_update (\<lambda>_. v = ''yes'')) M
      else askRequest action M)"

text \<open>The load of a node by its instance is the environment's.\<close>

definition interactive :: "(gostring \<Rightarrow> profileError + profile) \<Rightarrow> gostring list \<Rightarrow> commandLine \<Rightarrow> menuError + commandLine" where
  "interactive load input o1 =
     (case nextLine \<lparr>mnLines = input, mnOptions = o1\<rparr> of (choice, M0) \<Rightarrow>
        case map_of menuActions choice of
          None \<Rightarrow> Inl InvalidAction
        | Some action \<Rightarrow>
            let M1 = setting (clAction_update (\<lambda>_. action)) M0
            in if action = ''list-nodes'' \<or> action = ''quit'' \<or> hasPrefix action ''service-'' then Inr (mnOptions M1)
               else let M2 = ask (\<lambda>v. opInstance_update (\<lambda>_. v)) M1; name = opInstance (mnOptions M2)
                    in case validateInstance name of
                         Some err \<Rightarrow> Inl (InstanceRefused err)
                       | None \<Rightarrow>
                           if action = ''configure-node'' then
                             (case load name of
                                Inl err \<Rightarrow> Inl (NodeNotLoaded err)
                              | Inr p \<Rightarrow> andThen (editNode (setting (prefill p) M2)) (\<lambda>M. Inr (mnOptions M)))
                           else if action = ''add-node'' then andThen (editNode M2) (\<lambda>M. Inr (mnOptions M))
                           else Inr (mnOptions (askArguments action M2)))"

section \<open>Every choice is a command\<close>

definition fixedPart :: "menu \<Rightarrow> gostring \<times> gostring" where
  "fixedPart M = (clAction (mnOptions M), opInstance (mnOptions M))"

lemma nextLine_options [simp]: "mnOptions (snd (nextLine M)) = mnOptions M"
  by (simp add: nextLine_def split: list.split)

lemma askEdit_fixed:
  assumes "\<And>v o1. clAction (store v o1) = clAction o1" and "\<And>v o1. opInstance (store v o1) = opInstance o1"
  shows "fixedPart (askEdit flag store M) = fixedPart M"
  using assms by (simp add: askEdit_def fixedPart_def nextLine_def Let_def split: list.split)

lemma askIntEdit_fixed:
  assumes "askIntEdit flag store M = Inr M'" and "\<And>v o1. clAction (store v o1) = clAction o1"
    and "\<And>v o1. opInstance (store v o1) = opInstance o1"
  shows "fixedPart M' = fixedPart M"
  using assms by (auto simp: askIntEdit_def fixedPart_def nextLine_def Let_def split: list.splits if_splits option.splits prod.splits)

lemma askLine_fixed:
  assumes "\<And>v o1. clAction (store v o1) = clAction o1" and "\<And>v o1. opInstance (store v o1) = opInstance o1"
  shows "fixedPart (askLine store M) = fixedPart M"
  using assms by (simp add: askLine_def fixedPart_def nextLine_def split: list.split)

lemma ask_fixed:
  assumes "\<And>v o1. clAction (store v o1) = clAction o1" and "\<And>v o1. opInstance (store v o1) = opInstance o1"
  shows "fixedPart (ask store M) = fixedPart M"
  using assms by (simp add: ask_def askLine_fixed)

lemma askPriority_fixed: "askPriority M = Inr M' \<Longrightarrow> fixedPart M' = fixedPart M"
  by (auto simp: askPriority_def split: sum.splits dest: askIntEdit_fixed)

lemma askRole_fixed: "askRole M = Inr M' \<Longrightarrow> fixedPart M' = fixedPart M"
  by (auto simp: askRole_def fixedPart_def nextLine_def Let_def split: list.splits option.splits if_splits)

lemma editCoordinator_fixed: "editCoordinator M = Inr M' \<Longrightarrow> fixedPart M' = fixedPart M"
  by (auto simp: editCoordinator_def askEdit_fixed dest!: askIntEdit_fixed)

lemma editMember_fixed: "editMember M = Inr M' \<Longrightarrow> fixedPart M' = fixedPart M"
  by (auto simp: editMember_def editMembership_def editSubnode_def askEdit_fixed Let_def split: if_splits dest!: askPriority_fixed)

lemma editNode_fixed: "editNode M = Inr M' \<Longrightarrow> fixedPart M' = fixedPart M"
  by (auto simp: editNode_def askEdit_fixed Let_def split: if_splits dest!: askRole_fixed editCoordinator_fixed editMember_fixed)

lemma askArguments_fixed: "fixedPart (askArguments action M) = fixedPart M"
  by (simp add: askArguments_def askDecision_def askMapping_def askRequest_def askLine_fixed ask_fixed Let_def)

definition knownActions :: "gostring list" where
  "knownActions = [''list-nodes'', ''service-install'', ''service-run'', ''service-start'', ''service-stop'', ''service-status'',
     ''service-uninstall'', ''add-node'', ''configure-node'', ''status'', ''start'', ''stop'', ''delete-node'', ''add'', ''remove'', ''render'',
     ''nodes'', ''handshakes'', ''audit'', ''approve'', ''reject'', ''revoke'', ''sync'', ''request-connection'', ''wait-connection'',
     ''connection-status'', ''connection-inbox'', ''accept-connection'', ''reject-connection'', ''cancel-connection'', ''run'']"

lemma menuActions_known: "list_all (\<lambda>(choice, action). action = ''quit'' \<or> action \<in> set knownActions) menuActions"
  by code_simp

lemma menuActions_action: "map_of menuActions choice = Some action \<Longrightarrow> action = ''quit'' \<or> action \<in> set knownActions"
  using menuActions_known by (auto simp: list_all_iff dest: map_of_SomeD)

lemma known_execute:
  "list_all (\<lambda>action. \<forall>o1 a. clAction o1 = action \<longrightarrow> execute profilePath o1 \<noteq> Inl (UnknownAction a)) knownActions"
  unfolding knownActions_def list.pred_inject
  by (intro conjI TrueI) (simp_all add: execute_def serviceCommand_def nodeCommand_def Let_def split: option.split)

text \<open>Whatever is typed, the menu ends in an error, in leaving, or in options that the dispatch knows a
  command for; and unless the command is about the service or all nodes, the instance it names is
  a valid one, so that no input reaches a path outside the nodes directory.\<close>

theorem menu_choices_are_commands:
  assumes "interactive load input o1 = Inr o2"
  shows "(clAction o2 = ''quit'' \<or> (\<forall>a. execute profilePath o2 \<noteq> Inl (UnknownAction a)))
    \<and> (clAction o2 = ''list-nodes'' \<or> clAction o2 = ''quit'' \<or> hasPrefix (clAction o2) ''service-'' \<or> validateInstance (opInstance o2) = None)"
proof -
  obtain choice M0 where M0: "nextLine \<lparr>mnLines = input, mnOptions = o1\<rparr> = (choice, M0)" by fastforce
  obtain action where action: "map_of menuActions choice = Some action"
    using assms M0 by (auto simp: interactive_def split: option.splits)
  let ?M1 = "setting (clAction_update (\<lambda>_. action)) M0"
  let ?M2 = "ask (\<lambda>v. opInstance_update (\<lambda>_. v)) ?M1"
  have M2: "clAction (mnOptions ?M2) = action" by (simp add: ask_def askLine_def nextLine_def split: list.split)
  note run = assms [unfolded interactive_def M0 prod.case action option.case Let_def]
  have o2: "clAction o2 = action \<and> (action = ''list-nodes'' \<or> action = ''quit'' \<or> hasPrefix action ''service-''
      \<or> validateInstance (opInstance o2) = None)"
  proof (cases "action = ''list-nodes'' \<or> action = ''quit'' \<or> hasPrefix action ''service-''")
    case True
    with run show ?thesis by auto
  next
    case False
    with run have valid: "validateInstance (opInstance (mnOptions ?M2)) = None" by (auto split: option.splits)
    have "\<exists>M. fixedPart M = fixedPart ?M2 \<and> o2 = mnOptions M"
    proof -
      consider (configure) "action = ''configure-node''" | (add) "action = ''add-node''"
        | (other) "action \<noteq> ''configure-node''" "action \<noteq> ''add-node''" by blast
      then show ?thesis
      proof cases
        case configure
        with run False valid obtain p M where M: "editNode (setting (prefill p) ?M2) = Inr M" "o2 = mnOptions M"
          by (auto split: sum.splits)
        have "fixedPart M = fixedPart (setting (prefill p) ?M2)" using M(1) by (rule editNode_fixed)
        also have "\<dots> = fixedPart ?M2" by (simp add: fixedPart_def prefill_def)
        finally show ?thesis using M(2) by (intro exI [of _ M] conjI)
      next
        case add
        with run False valid obtain M where M: "editNode ?M2 = Inr M" "o2 = mnOptions M" by auto
        from editNode_fixed [OF M(1)] M(2) show ?thesis by (intro exI [of _ M] conjI)
      next
        case other
        with run False valid have "o2 = mnOptions (askArguments action ?M2)" by simp
        with askArguments_fixed show ?thesis by (intro exI [of _ "askArguments action ?M2"] conjI)
      qed
    qed
    then have "clAction o2 = action" "opInstance o2 = opInstance (mnOptions ?M2)" using M2 by (auto simp: fixedPart_def)
    with valid show ?thesis by simp
  qed
  then have a: "clAction o2 = action" by (rule conjunct1)
  have "clAction o2 = ''quit'' \<or> (\<forall>a. execute profilePath o2 \<noteq> Inl (UnknownAction a))"
    using menuActions_action [OF action] a known_execute [of profilePath] by (auto simp: list_all_iff)
  then show ?thesis using o2 unfolding a by (intro conjI) (assumption, erule conjunct2)
qed

section \<open>Empty answers\<close>

definition blank :: "menu \<Rightarrow> bool" where
  "blank M \<longleftrightarrow> list_all (\<lambda>line. trimSpace line = '''') (mnLines M)"

lemma trimSpace_Nil [simp]: "trimSpace [] = []"
  by (simp add: trimSpace_def)

lemma nextLine_blank:
  assumes "blank M" and "nextLine M = (line, M')"
  shows "trimSpace line = ''''" and "mnOptions M' = mnOptions M" and "blank M'"
  using assms by (auto simp: nextLine_def blank_def split: list.splits)

lemma askEdit_blank:
  assumes "blank M"
  shows "blank (askEdit flag store M) \<and> mnOptions (askEdit flag store M) = mnOptions M"
proof (cases "nextLine M")
  case (Pair line M')
  from nextLine_blank [OF assms Pair] show ?thesis by (simp add: askEdit_def Pair)
qed

lemma askIntEdit_blank:
  assumes "blank M"
  shows "\<exists>M'. askIntEdit flag store M = Inr M' \<and> blank M' \<and> mnOptions M' = mnOptions M"
proof (cases "nextLine M")
  case (Pair line M')
  from nextLine_blank [OF assms Pair] show ?thesis by (simp add: askIntEdit_def Pair)
qed

lemma askPriority_blank: "blank M \<Longrightarrow> \<exists>M'. askPriority M = Inr M' \<and> blank M' \<and> mnOptions M' = mnOptions M"
  using askIntEdit_blank [of M "''relay-priority''" "\<lambda>n. opRelayPriority_update (\<lambda>_. n)"] by (auto simp: askPriority_def)

lemma askRole_blank:
  assumes "blank M" and "opRole (mnOptions M) \<noteq> ''''"
  shows "\<exists>M'. askRole M = Inr M' \<and> blank M' \<and> mnOptions M' = mnOptions M"
proof (cases "nextLine M")
  case (Pair line M')
  from nextLine_blank [OF assms(1) Pair] assms(2) show ?thesis by (simp add: askRole_def Pair)
qed

lemma andThen_step: "\<exists>M'. x = Inr M' \<and> P M' \<Longrightarrow> (\<And>M'. P M' \<Longrightarrow> \<exists>r. f M' = Inr r \<and> Q r) \<Longrightarrow> \<exists>r. andThen x f = Inr r \<and> Q r"
  by (auto simp: andThen_def)

lemma editCoordinator_blank:
  assumes "blank M"
  shows "\<exists>M'. editCoordinator M = Inr M' \<and> blank M' \<and> mnOptions M' = mnOptions M"
  unfolding editCoordinator_def
proof (rule andThen_step [OF askIntEdit_blank])
  show "blank (askEdit ''admin-listen'' (\<lambda>v. opAdminListen_update (\<lambda>_. v)) (askEdit ''listen'' (\<lambda>v. opListen_update (\<lambda>_. v)) M))"
    using assms by (simp add: askEdit_blank)
next
  fix A assume A: "blank A \<and> mnOptions A = mnOptions (askEdit ''admin-listen'' (\<lambda>v. opAdminListen_update (\<lambda>_. v))
      (askEdit ''listen'' (\<lambda>v. opListen_update (\<lambda>_. v)) M))"
  then have same: "blank A" "mnOptions A = mnOptions M" using assms by (simp_all add: askEdit_blank)
  obtain B where B: "askIntEdit ''connection-request-ttl-seconds'' (\<lambda>n. opConnectionTTLSeconds_update (\<lambda>_. n)) A = Inr B" "blank B" "mnOptions B = mnOptions A"
    using askIntEdit_blank [OF same(1)] by blast
  obtain C where C: "askIntEdit ''connection-offer-lease-seconds'' (\<lambda>n. opConnectionLeaseSeconds_update (\<lambda>_. n)) B = Inr C" "blank C" "mnOptions C = mnOptions B"
    using askIntEdit_blank [OF B(2)] by blast
  obtain D where D: "askIntEdit ''connection-max-pending'' (\<lambda>n. opConnectionMaxPending_update (\<lambda>_. n)) C = Inr D" "blank D" "mnOptions D = mnOptions C"
    using askIntEdit_blank [OF C(2)] by blast
  with B C same show "\<exists>r. andThen (askIntEdit ''connection-request-ttl-seconds'' (\<lambda>n. opConnectionTTLSeconds_update (\<lambda>_. n)) A) (\<lambda>M.
     andThen (askIntEdit ''connection-offer-lease-seconds'' (\<lambda>n. opConnectionLeaseSeconds_update (\<lambda>_. n)) M) (\<lambda>M.
     askIntEdit ''connection-max-pending'' (\<lambda>n. opConnectionMaxPending_update (\<lambda>_. n)) M)) = Inr r \<and> blank r \<and> mnOptions r = mnOptions M"
    by simp
qed

lemma editMember_blank:
  assumes "blank M"
  shows "\<exists>M'. editMember M = Inr M' \<and> blank M' \<and> mnOptions M' = mnOptions M"
proof -
  obtain A where A: "(if opRole (mnOptions M) = ''relay''
              then askPriority (askEdit ''transit-endpoint'' (\<lambda>v. opTransitEndpoint_update (\<lambda>_. v))
                     (askEdit ''transit-listen'' (\<lambda>v. opTransitListen_update (\<lambda>_. v)) M))
              else Inr M) = Inr A" "blank A" "mnOptions A = mnOptions M"
    using askPriority_blank [of "askEdit ''transit-endpoint'' (\<lambda>v. opTransitEndpoint_update (\<lambda>_. v))
      (askEdit ''transit-listen'' (\<lambda>v. opTransitListen_update (\<lambda>_. v)) M)"] assms
    by (cases "opRole (mnOptions M) = ''relay''") (auto simp: askEdit_blank)
  have "blank (editSubnode A) \<and> mnOptions (editSubnode A) = mnOptions A"
    using A(2) by (simp add: editSubnode_def askEdit_blank)
  then obtain B where B: "B = (if opRole (mnOptions A) = ''subnode'' then editSubnode A else A)" "blank B" "mnOptions B = mnOptions M"
    using A(2,3) by simp
  have "blank (editMembership B) \<and> mnOptions (editMembership B) = mnOptions B"
    using B(2) by (simp add: editMembership_def askEdit_blank Let_def)
  then show ?thesis unfolding editMember_def A(1) using B by (simp add: andThen_def)
qed

lemma editNode_blank:
  assumes "blank M" and "opRole (mnOptions M) \<noteq> ''''"
  shows "\<exists>M'. editNode M = Inr M' \<and> mnOptions M' = mnOptions M"
proof -
  obtain A where A: "askRole M = Inr A" "blank A" "mnOptions A = mnOptions M" using askRole_blank [OF assms] by blast
  let ?B = "askEdit ''segment'' (\<lambda>v. opSegment_update (\<lambda>_. v))
      (askEdit ''network'' (\<lambda>v. opNetwork_update (\<lambda>_. v)) (askEdit ''node-name'' (\<lambda>v. opNodeName_update (\<lambda>_. v)) A))"
  have B: "blank ?B" "mnOptions ?B = mnOptions M" using A(2,3) by (simp_all add: askEdit_blank)
  show ?thesis
    using editCoordinator_blank [OF B(1)] editMember_blank [OF B(1)] B(2) by (auto simp: editNode_def A(1) andThen_def Let_def)
qed

section \<open>Configuring without a change\<close>

text \<open>A complete profile in the form install writes it.\<close>

definition settled_profile :: "'z nodelib_scheme \<Rightarrow> (gostring \<Rightarrow> fileKind option) \<Rightarrow> profile \<Rightarrow> bool" where
  "settled_profile L stat p \<longleftrightarrow> profile_ok L stat p \<and> nfID (pfNode p) \<noteq> ''''
     \<and> (pfRole p = ''relay'' \<longrightarrow> rcAdmissionTokenHash (pfRelay p) \<noteq> '''')
     \<and> (pfRole p = ''subnode'' \<longrightarrow> normalizePin L (scRelayPinnedSHA256 (pfSubnode p)) = scRelayPinnedSHA256 (pfSubnode p)
          \<and> trimSpace (scRelayToken (pfSubnode p)) = scRelayToken (pfSubnode p))"

lemma same_parts:
  "p\<lparr>pfNode := \<lparr>nfID = nfID (pfNode p), nfName = nfName (pfNode p)\<rparr>\<rparr> = p"
  "p\<lparr>pfRelay := pfRelay p\<lparr>rcListen := rcListen (pfRelay p), rcEndpoint := rcEndpoint (pfRelay p), rcPriority := rcPriority (pfRelay p)\<rparr>\<rparr> = p"
  "p\<lparr>pfSubnode := \<lparr>scRelayNodeID = scRelayNodeID (pfSubnode p), scRelayEndpoint = scRelayEndpoint (pfSubnode p),
     scRelayPinnedSHA256 = scRelayPinnedSHA256 (pfSubnode p), scRelayToken = scRelayToken (pfSubnode p)\<rparr>\<rparr> = p"
  "p\<lparr>pfCoordinator := pfCoordinator p\<rparr> = p"
  by (rule profile.equality; simp)+

lemma unless_None [simp]: "unless None rest = rest"
  by (simp add: unless_def)

lemma checks_pass:
  assumes "\<forall>check \<in> set checks. check = None"
  shows "unless (firstError checks) rest = rest"
proof -
  have "firstError checks = None" using assms by simp
  then show ?thesis by (simp only: unless_None)
qed

lemma installIdentity_unchanged:
  assumes "settled_profile L stat p" and "opSet opts = []" and "opInstance opts = pfInstance p"
  shows "installIdentity E opts True p = Inr p"
proof -
  have "identityOptions opts True p = p" using assms(2,3) by (simp add: identityOptions_def given_def)
  moreover have "validNodeRole (pfRole p)" "trimSpace (pfVirtualNetwork p) \<noteq> ''''" "trimSpace (pfSegment p) \<noteq> ''''" "nfID (pfNode p) \<noteq> ''''"
    using assms(1) by (simp_all add: settled_profile_def profile_ok_def)
  moreover from this(1) have "pfRole p \<noteq> ''''" by (auto simp: validNodeRole_def)
  ultimately show ?thesis using assms(2) by (simp add: installIdentity_def given_def checks_pass andThen_def failIf_def same_parts)
qed

lemma installCoordinator_unchanged:
  assumes "settled_profile L stat p" and "opSet opts = []"
  shows "installCoordinator L E opts True p = Inr p"
  using assms by (simp add: installCoordinator_def coordinatorTouched_def given_def settled_profile_def profile_ok_def role_ok_def)

lemma installRelay_unchanged:
  assumes "settled_profile L stat p" and "opSet opts = []" and "\<not> opRotateRelayToken opts"
  shows "installRelay L E opts True p = Inr (p, '''')"
proof (cases "pfRole p = ''relay''")
  case True
  with assms(1) have "validateHostPort (rcListen (pfRelay p)) = None" "validateHostPort (rcEndpoint (pfRelay p)) = None"
    "0 \<le> rcPriority (pfRelay p)" "rcCertificate (pfRelay p) \<noteq> ''''" "validRelayAdmissionTokenHash (rcAdmissionTokenHash (pfRelay p))"
    "rcAdmissionTokenHash (pfRelay p) \<noteq> ''''"
    by (auto simp: settled_profile_def profile_ok_def role_ok_def)
  moreover from this(1,2) have "rcListen (pfRelay p) \<noteq> ''''" "rcEndpoint (pfRelay p) \<noteq> ''''" using hostPort_nonempty by auto
  ultimately show ?thesis
    using True assms(2,3)
    by (simp add: installRelay_def relayListeners_def relayCredentials_def relayCertificate_def given_def checks_pass andThen_def failIf_def Let_def same_parts)
next
  case False
  with assms(2,3) show ?thesis by (simp add: installRelay_def given_def)
qed

lemma installSubnode_unchanged:
  assumes "settled_profile L stat p" and "opSet opts = []"
  shows "installSubnode L opts True p = Inr p"
proof (cases "pfRole p = ''subnode''")
  case True
  with assms(1) have "scRelayNodeID (pfSubnode p) \<noteq> ''''" "scRelayToken (pfSubnode p) \<noteq> ''''"
    "validateHostPort (scRelayEndpoint (pfSubnode p)) = None" "validSHA256Pin L (scRelayPinnedSHA256 (pfSubnode p))"
    "normalizePin L (scRelayPinnedSHA256 (pfSubnode p)) = scRelayPinnedSHA256 (pfSubnode p)"
    "trimSpace (scRelayToken (pfSubnode p)) = scRelayToken (pfSubnode p)"
    by (simp_all add: settled_profile_def profile_ok_def role_ok_def)
  moreover from this(3) have "scRelayEndpoint (pfSubnode p) \<noteq> ''''" using hostPort_nonempty by auto
  moreover from \<open>validSHA256Pin L (scRelayPinnedSHA256 (pfSubnode p))\<close> \<open>normalizePin L _ = _\<close>
  have "scRelayPinnedSHA256 (pfSubnode p) \<noteq> ''''" by (auto simp: validSHA256Pin_def)
  ultimately show ?thesis
    using True assms(2) by (simp add: installSubnode_def given_def checks_pass failIf_def Let_def same_parts)
next
  case False
  with assms(2) show ?thesis by (simp add: installSubnode_def given_def)
qed

lemma installClient_unchanged:
  assumes "settled_profile L stat p" and "opSet opts = []"
  shows "installClient L opts True p = Inr (p, False)"
  using assms by (simp add: installClient_def chosenCoordinator_def given_def settled_profile_def profile_ok_def role_ok_def
      andThen_def checks_pass failIf_def same_parts)

lemma installed_unchanged:
  assumes "settled_profile L stat p" and "opSet opts = []" and "opInstance opts = pfInstance p" and "\<not> opRotateRelayToken opts"
  shows "installed L E opts True p = Inr (p, '''', False)"
  using installIdentity_unchanged [OF assms(1,2,3), of E] installCoordinator_unchanged [OF assms(1,2), of E]
    installRelay_unchanged [OF assms(1,2,4), of E] installSubnode_unchanged [OF assms(1,2)] installClient_unchanged [OF assms(1,2)]
  by (simp add: installed_def andThen_def)

lemma interactive_configure_blank:
  assumes "load (trimSpace name) = Inr p" and "validateInstance (trimSpace name) = None"
    and "list_all (\<lambda>line. trimSpace line = '''') blanks" and "pfRole p \<noteq> ''''"
  shows "interactive load (''3'' # name # blanks) o1
    = Inr (prefill p (o1\<lparr>clAction := ''configure-node'', opInstance := trimSpace name\<rparr>))"
proof -
  have choice: "map_of menuActions ''3'' = Some ''configure-node''" by (simp add: menuActions_def)
  let ?M = "\<lparr>mnLines = blanks, mnOptions = prefill p (o1\<lparr>clAction := ''configure-node'', opInstance := trimSpace name\<rparr>)\<rparr>"
  have "blank ?M" "opRole (mnOptions ?M) \<noteq> ''''" using assms(3,4) by (simp_all add: blank_def prefill_def)
  from editNode_blank [OF this] obtain M' where "editNode ?M = Inr M'" "mnOptions M' = mnOptions ?M" by blast
  then show ?thesis
    using assms(1,2) choice by (simp add: interactive_def nextLine_def ask_def askLine_def hasPrefix_def andThen_def)
qed

text \<open>C38: Going through the configuration of a settled node and answering every question with an empty
  line changes nothing: the menu accepts it, install builds the very profile that was loaded, with
  no new token and no enrollment, and the file holds what it held, even if the write fails.\<close>

theorem empty_answers_change_nothing:
  assumes "settled_profile L stat p" and "loadProfile (slotFile s) = Inr p" and "slotFile s \<noteq> NoFile"
    and "load (trimSpace name) = Inr p" and "trimSpace name = pfInstance p"
    and "list_all (\<lambda>line. trimSpace line = '''') blanks" and "opSet o1 = []" and "\<not> opRotateRelayToken o1"
  shows "\<exists>o2. interactive load (''3'' # name # blanks) o1 = Inr o2
    \<and> fst (install L E (options.truncate o2) True s)
        = (if fst (saveProfile (ieWrite E) p s) then Inr (p, '''', False) else Inl NotSaved)
    \<and> slotFile (snd (install L E (options.truncate o2) True s)) = slotFile s"
proof -
  let ?o2 = "prefill p (o1\<lparr>clAction := ''configure-node'', opInstance := trimSpace name\<rparr>)"
  have ok: "validateInstance (trimSpace name) = None" "pfRole p \<noteq> ''''"
    using assms(1,5) by (auto simp: settled_profile_def profile_ok_def validNodeRole_def)
  have "opSet (options.truncate ?o2) = []" "opInstance (options.truncate ?o2) = pfInstance p" "\<not> opRotateRelayToken (options.truncate ?o2)"
    using assms(5,7,8) by (simp_all add: options.truncate_def prefill_def)
  note built = installed_unchanged [OF assms(1) this, of E]
  have holds: "slotFile s = Holds p"
    using assms(2,3) by (auto simp: loadProfile_def readJSON_def split: fileState.splits if_splits)
  have "install L E (options.truncate ?o2) True s
      = (if fst (saveProfile (ieWrite E) p s) then Inr (p, '''', False) else Inl NotSaved, snd (saveProfile (ieWrite E) p s))"
    using assms(3) by (auto simp: install_def assms(2) andThen_def built split: prod.split bool.split)
  moreover have "slotFile (snd (saveProfile (ieWrite E) p s)) = slotFile s"
    using holds by (simp add: saveProfile_def replaceFile_file)
  ultimately show ?thesis
    using interactive_configure_blank [where load = load, OF assms(4) ok(1) assms(6) ok(2), of o1] by (intro exI [of _ ?o2]) simp
qed

text \<open>A pin given without the coordinator's address, on the command line or at its prompt, is ignored.\<close>

theorem pin_alone_is_ignored:
  "\<not> given opts ''coordinator'' \<Longrightarrow> chosenCoordinator L opts True client = Inr (client, False)"
  by (simp add: chosenCoordinator_def)

section \<open>Samples\<close>

text \<open>The options when no flag was given.\<close>

definition noFlags :: commandLine where
  "noFlags = \<lparr>opRole = '''', opSegment = ''default'', opName = '''', opKind = '''', opListen = '''', opAdminListen = '''', opTarget = '''',
     opTargetNode = '''', opService = '''', opTransitListen = '''', opTransitEndpoint = '''', opUpstreamRelayNode = '''',
     opUpstreamRelayEndpoint = '''', opUpstreamRelayPin = '''', opUpstreamRelayToken = '''', opCoordinator = '''', opCoordinatorPin = '''',
     opNetwork = ''default'', opNodeName = '''', opInstance = '''', opRelayPriority = 100, opConnectionWaitSeconds = 25,
     opConnectionTTLSeconds = 120, opConnectionLeaseSeconds = 15, opConnectionMaxPending = 10000, opRotateRelayToken = False,
     opSet = [], clAction = '''', clConfig = '''', clOutput = '''', clDeviceCode = '''', clRequestID = '''', clIdempotencyKey = '''',
     clReason = '''', clNodeID = '''', clManagerDir = '''', clHandshakeStatus = 0, clYes = False, clReplaceExisting = False\<rparr>"

definition homeNode :: profile where
  "homeNode = zeroProfile\<lparr>pfVersion := profileVersion, pfInstance := ''home'', pfRole := ''client'', pfVirtualNetwork := ''default'',
     pfSegment := ''default'', pfNode := \<lparr>nfID = ''n1'', nfName = ''Home''\<rparr>\<rparr>"

lemma home_instance: "validateInstance ''home'' = None" "trimSpace ''home'' = ''home''" "trimSpace ''default'' = ''default''"
  by code_simp+

definition deletion :: "menuError + commandLine" where
  "deletion = interactive (\<lambda>name. Inr homeNode) [''4'', ''home'', ''yes''] noFlags"

theorem menu_choices_are_commands_witness:
  "\<exists>o2. deletion = Inr o2 \<and> validateInstance (opInstance o2) = None \<and> execute (\<lambda>config name. Some name) o2 \<noteq> Inl (UnknownAction ''delete-node'')"
proof -
  have "map_of menuActions ''4'' = Some ''delete-node''" by (simp add: menuActions_def)
  then have run: "deletion = Inr (noFlags\<lparr>clAction := ''delete-node'', opInstance := ''home'', clYes := True\<rparr>)"
    by (simp add: deletion_def interactive_def nextLine_def ask_def askLine_def askArguments_def hasPrefix_def home_instance)
  from menu_choices_are_commands [OF run [unfolded deletion_def], of "\<lambda>config name. Some name"]
  show ?thesis unfolding run by (auto simp: hasPrefix_def)
qed

lemma home_settled: "settled_profile sampleNodeLib (\<lambda>name. None) homeNode"
proof -
  have "pfMappings homeNode = []" "managedListeners homeNode = []" "ccURL (pfCoordinator homeNode) = ''''"
    by (simp_all add: homeNode_def zeroProfile_def managedListeners_def zeroCoordinatorClient_def)
  then show ?thesis
    using home_instance
    by (simp add: settled_profile_def profile_ok_def role_ok_def disjointListeners_def)
      (simp add: homeNode_def validNodeRole_def)
qed

definition quietHost :: installEnv where
  "quietHost = \<lparr>ieHostname = ''host'', ieEntropy = (\<lambda>n. ''''), ieCertificate = (\<lambda>name. None), ieListing = NoDirectory,
     ieExcluded = (\<lambda>name. False), ieAvailable = (\<lambda>address. True), ieBeside = (\<lambda>name. name), ieWrite = RenameFails\<rparr>"

theorem empty_answers_change_nothing_witness:
  "\<exists>o2. interactive (\<lambda>name. Inr homeNode) [''3'', ''home'', '''', ''''] noFlags = Inr o2
     \<and> slotFile (snd (install sampleNodeLib quietHost (options.truncate o2) True \<lparr>slotFile = Holds homeNode, slotTemp = NoFile\<rparr>)) = Holds homeNode"
proof -
  have "loadProfile (Holds homeNode) = Inr homeNode"
    by (rule loadProfile_Holds) (simp_all add: homeNode_def validNodeRole_def)
  then show ?thesis
    using empty_answers_change_nothing [OF home_settled, of "\<lparr>slotFile = Holds homeNode, slotTemp = NoFile\<rparr>" "\<lambda>name. Inr homeNode" "''home''"
        "['''', '''']" noFlags quietHost] home_instance
    by (auto simp: noFlags_def homeNode_def)
qed

end
