(* ===== verification/Connection_Commands.thy ===== *)
theory Connection_Commands
  imports Node_Inbox Commands
begin

text \<open>
  The connection actions of the command line (src/internal/app/connection_client.go): asking for a
  connection, waiting until it is settled, deciding one. They return what they print.
\<close>

section \<open>The actions\<close>

datatype connectionCommandError =
    TargetAndServiceRequired
  | RequestIDRequired
  | CommandProfile profileError
  | NoRandomToken
  | CommandFailed clientError

definition orFailed :: "clientError + 'a \<Rightarrow> connectionCommandError + 'a" where
  "orFailed r = (case r of Inl err \<Rightarrow> Inl (CommandFailed err) | Inr x \<Rightarrow> Inr x)"

definition withProfile :: "profile fileState \<Rightarrow> (profile \<Rightarrow> connectionCommandError + 'a) \<Rightarrow> connectionCommandError + 'a" where
  "withProfile f k = (case loadProfile f of Inl err \<Rightarrow> Inl (CommandProfile err) | Inr p \<Rightarrow> k p)"

text \<open>The connection and the idempotency key under which the request can be repeated.\<close>

definition requestConnectionCLI ::
    "'z clientlib_scheme \<Rightarrow> clientEnv \<Rightarrow> gostring \<Rightarrow> profile fileState \<Rightarrow> commandLine \<Rightarrow>
      connectionCommandError + connectionRequest \<times> gostring" where
  "requestConnectionCLI L E supply f o1 =
     (if opTargetNode o1 = '''' \<or> opService o1 = '''' then Inl TargetAndServiceRequired
      else withProfile f (\<lambda>p.
        case (if trimSpace (clIdempotencyKey o1) = '''' then randomToken supply else Some (trimSpace (clIdempotencyKey o1))) of
          None \<Rightarrow> Inl NoRandomToken
        | Some idempotency \<Rightarrow>
            (case createConnectionRequest L E p (opTargetNode o1) (opService o1) '''' idempotency of
               Inl err \<Rightarrow> Inl (CommandFailed err)
             | Inr connection \<Rightarrow> Inr (connection, idempotency))))"

text \<open>The loop of \<open>connectionStatusCLI\<close> for at most \<open>fuel\<close> polls; the \<open>n\<close>th poll waits on the state last seen.\<close>

fun waitSettled ::
    "'z clientlib_scheme \<Rightarrow> clientEnv \<Rightarrow> nat \<Rightarrow> nat \<Rightarrow> profile \<Rightarrow> gostring \<Rightarrow> connectionRequest \<Rightarrow>
      (connectionCommandError + connectionRequest) option" where
  "waitSettled L E 0 n p requestID connection = None"
| "waitSettled L E (Suc fuel) n p requestID connection =
     (if connectionTerminal (crState connection) then Some (Inr connection)
      else case getConnectionStatus L E n p requestID (crState connection) True of
             Inl err \<Rightarrow> Some (Inl (CommandFailed err))
           | Inr connection' \<Rightarrow> waitSettled L E fuel (Suc n) p requestID connection')"

definition connectionStatusCLI ::
    "'z clientlib_scheme \<Rightarrow> clientEnv \<Rightarrow> nat \<Rightarrow> profile fileState \<Rightarrow> gostring \<Rightarrow> bool \<Rightarrow>
      (connectionCommandError + connectionRequest) option" where
  "connectionStatusCLI L E fuel f requestID wait =
     (if requestID = '''' then Some (Inl RequestIDRequired)
      else case loadProfile f of
        Inl err \<Rightarrow> Some (Inl (CommandProfile err))
      | Inr p \<Rightarrow>
          (case getConnectionStatus L E 0 p requestID '''' False of
             Inl err \<Rightarrow> Some (Inl (CommandFailed err))
           | Inr connection \<Rightarrow> if wait then waitSettled L E fuel 1 p requestID connection else Some (Inr connection)))"

text \<open>A request this node is the target of leaves its inbox; a failure to write the file is ignored.\<close>

definition decideConnectionCLI ::
    "'z clientlib_scheme \<Rightarrow> clientEnv \<Rightarrow> writeOutcome \<Rightarrow> profile fileState \<Rightarrow> gostring \<Rightarrow> gostring \<Rightarrow> gostring \<Rightarrow> cachedInbox slot \<Rightarrow>
      (connectionCommandError + connectionRequest) \<times> cachedInbox slot" where
  "decideConnectionCLI L E outcome f requestID decision reason s =
     (if requestID = '''' then (Inl RequestIDRequired, s)
      else case loadProfile f of
        Inl err \<Rightarrow> (Inl (CommandProfile err), s)
      | Inr p \<Rightarrow>
          (case decideConnectionRequest L E 0 p requestID decision reason of
             Inl err \<Rightarrow> (Inl (CommandFailed err), s)
           | Inr connection \<Rightarrow>
               (Inr connection,
                if crTargetNode connection = nfID (pfNode p) then snd (removeInboxRequest outcome requestID s) else s)))"

section \<open>The wait ends when the request is settled\<close>

lemma waitSettled_terminal: "waitSettled L E fuel n p requestID c = Some (Inr c') \<Longrightarrow> connectionTerminal (crState c')"
  by (induction L E fuel n p requestID c rule: waitSettled.induct) (auto split: if_splits sum.splits)

text \<open>Waiting for a connection ends with the first settled state the coordinator reports: as long as it
  answers with unsettled states the next poll waits on the state just seen, and the poll that brings a
  settled one is the last; only a settled state is ever reported, and more fuel changes nothing.\<close>

theorem wait_reports_settlement:
  assumes "loadProfile f = Inr p" and "requestID \<noteq> ''''"
    and "getConnectionStatus L E 0 p requestID '''' False = Inr (seen 0)"
    and "\<And>i. i < k \<Longrightarrow> getConnectionStatus L E (Suc i) p requestID (crState (seen i)) True = Inr (seen (Suc i))"
    and "\<And>i. i < k \<Longrightarrow> \<not> connectionTerminal (crState (seen i))"
    and "connectionTerminal (crState (seen k))"
  shows "connectionStatusCLI L E fuel f requestID True = (if k < fuel then Some (Inr (seen k)) else None)"
proof -
  have "waitSettled L E fuel (Suc i) p requestID (seen i) = (if k - i < fuel then Some (Inr (seen k)) else None)" if "i \<le> k" for i fuel
    using that
  proof (induction fuel arbitrary: i)
    case (Suc fuel)
    show ?case
    proof (cases "i = k")
      case True
      with assms(6) show ?thesis by simp
    next
      case False
      with Suc(2) have "i < k" by simp
      with assms(4,5) [of i] Suc(1) [of "Suc i"] show ?thesis by auto
    qed
  qed simp
  from this [of 0 fuel] assms(1-3) show ?thesis by (simp add: connectionStatusCLI_def)
qed

section \<open>A decision\<close>

lemma decided_request_leaves_inbox:
  assumes "decideConnectionCLI L E outcome f requestID decision reason s = (result, s')"
  shows "s' = s \<or> (\<exists>connection p. result = Inr connection \<and> loadProfile f = Inr p \<and> crTargetNode connection = nfID (pfNode p)
     \<and> s' = snd (removeInboxRequest outcome requestID s))"
  using assms by (auto simp: decideConnectionCLI_def split: if_splits sum.splits)

section \<open>A sample wait\<close>

definition statusLib :: clientlib where
  "statusLib = sampleClientLib\<lparr>readConnection := (\<lambda>body. Some (sampleOffer\<lparr>crState := body\<rparr>))\<rparr>"

definition offeredThenAccepted :: "nat \<Rightarrow> gostring" where
  "offeredThenAccepted n = (if n = 0 then ''offered'' else ''accepted'')"

definition statusEnv :: clientEnv where
  "statusEnv = sampleClientEnv ''''\<lparr>clExchange := (\<lambda>n client url request.
     Some \<lparr>hrStatusCode = 200, hrStatusLine = ''200 OK'', hrBody = offeredThenAccepted n\<rparr>)\<rparr>"

definition waitingNode :: profile where
  "waitingNode = publishingNode\<lparr>pfVersion := profileVersion, pfRole := ''client''\<rparr>"

lemma signed_answer:
  assumes "newRequest L ''POST'' (ccURL (pfCoordinator p) @ endpoint) (marshalInput L input) = Some request"
    and "ccCredential (pfCoordinator p) = Some credential" and "b64Decode (ncPrivateKey credential) = Some key" and "length key = 64"
    and "randomToken (clSupply E n) = Some nonce" and "coordinatorNodeHTTPClient L p = Some client"
    and "\<And>c url sent. clExchange E n c url sent = Some reply"
  shows "signedCoordinatorRequest L E n p endpoint input = Inr reply"
  using assms by (simp add: signedCoordinatorRequest_def signRequest_def Let_def)

lemma statusLib_simps:
  "marshalInput statusLib = (\<lambda>i. ''{}'')" "readConnection statusLib = (\<lambda>body. Some (sampleOffer\<lparr>crState := body\<rparr>))"
  "urlParse statusLib = (\<lambda>raw. Some \<lparr>urScheme = ''https'', urHost = ''c:443'', urUser = False, urPath = drop 13 raw, urRawQuery = '''', urFragment = ''''\<rparr>)"
  by (simp_all add: statusLib_def sampleClientLib_def relaylib.defs)

lemma sample_answer:
  "signedCoordinatorRequest statusLib statusEnv n waitingNode endpoint input
     = Inr \<lparr>hrStatusCode = 200, hrStatusLine = ''200 OK'', hrBody = offeredThenAccepted n\<rparr>"
proof (rule signed_answer)
  show "ccCredential (pfCoordinator waitingNode) = Some sampleKeyPair" by (simp add: waitingNode_def publishingNode_def)
  show "b64Decode (ncPrivateKey sampleKeyPair) = Some (replicate 64 (CHR ''k''))" by (simp add: sampleKeyPair_def b64Decode_b64Encode)
  show "randomToken (clSupply statusEnv n) = Some (hexEncode (replicate 32 (CHR 0x01)))"
    by (simp add: randomToken_def readFull_def statusEnv_def sampleClientEnv_def)
  have "coordinatorNodeHTTPClient statusLib waitingNode \<noteq> None" by code_simp
  then show "coordinatorNodeHTTPClient statusLib waitingNode = Some (the (coordinatorNodeHTTPClient statusLib waitingNode))" by simp
qed (simp_all add: newRequest_def statusLib_simps statusEnv_def)

lemma sample_status:
  "getConnectionStatus statusLib statusEnv n waitingNode requestID knownState wait = Inr (sampleOffer\<lparr>crState := offeredThenAccepted n\<rparr>)"
  by (simp add: getConnectionStatus_def acceptReply_def sample_answer statusLib_simps)

theorem wait_reports_settlement_witness:
  "connectionStatusCLI statusLib statusEnv 5 (Holds waitingNode) ''c1'' True = Some (Inr (sampleOffer\<lparr>crState := ''accepted''\<rparr>))"
proof -
  have load: "loadProfile (Holds waitingNode) = Inr waitingNode"
    by (rule loadProfile_Holds) (simp_all add: waitingNode_def validNodeRole_def)
  let ?seen = "\<lambda>i. sampleOffer\<lparr>crState := offeredThenAccepted i\<rparr>"
  have "connectionStatusCLI statusLib statusEnv 5 (Holds waitingNode) ''c1'' True = (if 1 < (5::nat) then Some (Inr (?seen 1)) else None)"
  proof (rule wait_reports_settlement [OF load, where seen = ?seen])
    show "getConnectionStatus statusLib statusEnv 0 waitingNode ''c1'' '''' False = Inr (?seen 0)" by (rule sample_status)
    show "getConnectionStatus statusLib statusEnv (Suc i) waitingNode ''c1'' (crState (?seen i)) True = Inr (?seen (Suc i))"
      if "i < 1" for i by (rule sample_status)
  qed (simp_all add: offeredThenAccepted_def connectionTerminal_def)
  then show ?thesis by (simp add: offeredThenAccepted_def)
qed

end
