(* ===== verification/Spec2Isabelle.thy ===== *)
theory Spec2Isabelle
  imports Long_Poll Node_Config_Safety Relay_Server Node_Workers Supervisor Node_Runtime Connection_Commands
begin

text \<open>
  A model of mayoiga, the Go program under src/internal/app, and the theorems that say what it
  promises.

  \<^bold>\<open>The program.\<close> Mayoiga joins services on separate hosts. A host runs nodes; each node has a profile
  (a JSON file with its role, its mappings and its credential). Nodes enroll with a coordinator, an
  HTTPS server that keeps who is authorized, which nodes are alive and which connection requests are
  open, all in one state file. A node publishes services and pulls those of others: it tries the
  addresses of a peer in its own segment, then relays in order of preference, and last it asks the
  target, through the coordinator, to dial back. A relay bridges connections whose handshake it can
  verify. A service manager per host runs the nodes found in its directory, and a command line edits
  and operates them.

  \<^bold>\<open>The coordinator.\<close>
  \<^item> CoordTypes: the data of coordinator_types.go and connection_types.go. \<open>coordinatorState\<close> is what the
    state file holds, \<open>registry\<close> that state with its nonces, rate windows, wake-up channels and files.
  \<^item> RegistryOps: rate limiter, audit log, \<open>persistLocked\<close>, notifications. Cleanup: \<open>cleanupLocked\<close>.
    Authentication: bodies, signed requests with time window and nonces, the administrator's token.
  \<^item> Enrollment (coordinator_enrollment.go), Nodes (coordinator_nodes.go) and Connections
    (connection_server.go): one definition per handler. A handler takes the environment, the request
    and the registry and gives the response and the new registry; what it does under the lock is one
    atomic section. Server: routes, limits and error envelope (coordinator_http.go).
  \<^item> Moves: what any section may do to the registry, as guarded moves; Enrollment_Safety, Nodes_Safety,
    Connection_Invariant, Connections_Safety, Signals, Coordinator_Invariant: what the moves keep;
    Server_Safety, Server_Properties, Broker: what holds of every reachable state and of every request.
  \<^item> Long_Poll: the two long polls as tasks that are parked between their rounds, interleaved with every
    other section of the server.

  \<^bold>\<open>The node.\<close>
  \<^item> Profile (profile.go, node side of coordinator_types.go): the profile, its file and the write-and-rename
    of every file. Managed_Profiles (service_profiles.go): validation, with a declarative specification
    it is equivalent to, and the scan. Node_Config (node_config.go) with Node_Config_Safety: the
    commands that write profiles, and that what they write the manager runs.
  \<^item> Signing and Node_Client (coordinator_client.go, connection_client.go): signed requests, enrollment,
    polls, heartbeat, discovery. Node_Inbox (connection_inbox.go) and Node_Workers
    (connection_workers.go): the inbox file, automatic offers, the wait for approval, the workers and the
    mailbox between them.
  \<^item> Routing (relay_pull.go, relay_types.go): routes, the connector cache, cool-down, the order of paths.
    Relay_Handshake (relay_protocol.go, relay_dial.go), Relay_Server (relay_server.go) and
    Reverse_Broker (relay_types.go): the relay protocol from both sides, and the hand-over of a
    connection that was dialed back as a step relation.
  \<^item> Xray_Config (xraycore.go, render.go): the configuration of the embedded proxy and the rendered
    document. Node_Runtime (runtime.go, node_manager.go, service_stage.go), Supervisor
    (service_supervisor.go), Manager_Service (service_linux.go), Commands (main.go, interactive.go) and
    Connection_Commands (connection_client.go): running, supervising and operating nodes.

  Prelude, GoText, Identifiers and NetAddr hold what they share: Go's maps with the order of a range loop,
  64-bit integers with their wrap-around, clock values, strings, number parsing, base64, addresses, and
  the rules that lift a one-step fact to all reachable states.

  \<^bold>\<open>Correspondence.\<close> Definitions keep the names of the source, records prefix their fields (\<open>pfRole\<close> is
  \<open>profile.Role\<close>); a suffix avoids a clash. An error is the left value of a sum or an option. Strings are
  byte strings. What the program does not decide comes from an environment (\<open>env\<close>, \<open>installEnv\<close>,
  \<open>clientEnv\<close> and so on): clock, random bytes, outcomes of writes, answers of the network, the order in
  which a range loop visits a map; theorems hold for every environment. SHA-256, Ed25519, the JSON codecs,
  \<open>url.Parse\<close>, TLS and Unicode's case tables are fields of a library record (\<open>lib\<close>, \<open>json\<close>, \<open>nodelib\<close>,
  \<open>relaylib\<close>, \<open>clientlib\<close>, each extending the one before); a theorem that needs more of them than a
  function says so in a hypothesis (a signature verifies under its own key, a codec reads what it wrote),
  and a sample library on which the hypotheses hold is used by its witness.

  \<^bold>\<open>Interfaces.\<close> The locales are the contracts between components: what a map promises
  (\<open>map_interface\<close>), a loop over a map in whatever order (\<open>range_loop\<close>), a step relation with an
  invariant (\<open>inductive_invariant\<close>), and the allocation of fresh identifiers by the enrollment handlers
  (\<open>fresh_draw\<close>); each is interpreted on the model's own definitions where these are declared.

  \<^bold>\<open>What is shown.\<close> For the coordinator: an invariant of every reachable state, with restarts at any point;
  who may change credentials; no replay; settled requests stay settled; queued requests are delivered in
  order and on disk first; no parked poll misses its wake-up; sweeps leave nothing overdue. For the node:
  validation equals its specification, and commands produce valid profiles; signed requests and
  handshakes are accepted by the other side, once; failed relays rest; files are replaced as a whole;
  events are acknowledged when saved; only one worker runs an instance; what a run starts it closes.
  Where the code falls short the deviation is proved as well, under a name that states it (for
  instance \<open>future_handshake_replayed\<close>, \<open>renewed_lease_leaks_listener\<close>, \<open>blank_token_is_saved\<close>).

  \<^bold>\<open>Bounds and fuel.\<close> Allocation loops run for the number of attempts of the code. Two loops may wait for
  ever and take fuel: \<open>controlLoop\<close> (the wait for approval) and \<open>waitSettled\<close> (the wait for a connection);
  for both it is proved that one more turn than the answer that ends the wait is enough. Every other
  recursion is structural. The durations and limits are those of the source.

  \<^bold>\<open>Not modelled.\<close> The net, crypto/tls and net/http libraries (listening, TLS, the copying of bytes, the
  shutdown of servers), the X.509 work of \<open>makeCertificate\<close>, JSON itself, processes and signals, the
  flag package, the printed listings and the choice of the language: they are library calls or output.
  The embedded proxy takes a configuration, whose fields are modelled; what it does with it is its own.
  Goroutines are modelled where they share state: the registry's lock makes every section of a handler
  atomic, as do the locks of the broker, the connector cache and the inbox file.
\<close>

end
